(* ===== verification/Prelude.thy ===== *)
theory Prelude
  imports Main "HOL-Library.Word"
begin

text \<open>
  Shared vocabulary of the development: the machine types of the Go sources, the wrap-around of
  Go's signed integers, operations that may fail while they change a state, and the facts about
  bytes and lists that several components use.

  A Go method with a pointer receiver that returns an error is a function from the state to a pair
  of a result and the state it leaves behind. The result is a sum: \<open>Inl\<close> is the returned error (or
  a run-time panic), \<open>Inr\<close> the returned value. The state is returned in both cases, because Go
  keeps what a method has changed before it reports an error.
\<close>

unbundle bit_operations_syntax

type_synonym byte = "8 word"
type_synonym bytes = "byte list"
type_synonym uint32 = "32 word"
type_synonym uint64 = "64 word"
type_synonym ('s, 'e, 'a) sm = "'s \<Rightarrow> ('e + 'a) \<times> 's"

named_theorems sm_simps \<open>unfolding of fallible state operations\<close>
named_theorems wrap_simps \<open>wrap-around of signed machine integers\<close>
named_theorems frame_intros \<open>operations that keep a frame relation\<close>

subsection \<open>Signed integers of a fixed width\<close>

definition i32 :: "int \<Rightarrow> int" where
  "i32 x = (x + 2 ^ 31) mod 2 ^ 32 - 2 ^ 31"

definition i64 :: "int \<Rightarrow> int" where
  "i64 x = (x + 2 ^ 63) mod 2 ^ 64 - 2 ^ 63"

lemma i32_id [wrap_simps]: "- (2 ^ 31) \<le> x \<Longrightarrow> x < 2 ^ 31 \<Longrightarrow> i32 x = x"
  by (simp add: i32_def)

lemma i64_id [wrap_simps]: "- (2 ^ 63) \<le> x \<Longrightarrow> x < 2 ^ 63 \<Longrightarrow> i64 x = x"
  by (simp add: i64_def)

lemma i32_range: "- (2 ^ 31) \<le> i32 x \<and> i32 x < 2 ^ 31"
proof -
  have "0 \<le> (x + 2 ^ 31) mod 2 ^ 32" "(x + 2 ^ 31) mod 2 ^ 32 < 2 ^ 32"
    by simp_all
  then show ?thesis
    unfolding i32_def by simp
qed

lemma i64_min: "i64 (2 ^ 63) = - (2 ^ 63)"
  by (simp add: i64_def)

subsection \<open>Operations that may fail while they change a state\<close>

definition returnE :: "'a \<Rightarrow> ('s, 'e, 'a) sm" where
  "returnE a = (\<lambda>s. (Inr a, s))"

definition throwE :: "'e \<Rightarrow> ('s, 'e, 'a) sm" where
  "throwE e = (\<lambda>s. (Inl e, s))"

definition bindE :: "('s, 'e, 'a) sm \<Rightarrow> ('a \<Rightarrow> ('s, 'e, 'b) sm) \<Rightarrow> ('s, 'e, 'b) sm" where
  "bindE m k = (\<lambda>s. case m s of (Inl e, s') \<Rightarrow> (Inl e, s') | (Inr a, s') \<Rightarrow> k a s')"

definition liftE :: "'e + 'a \<Rightarrow> ('s, 'e, 'a) sm" where
  "liftE r = (\<lambda>s. (r, s))"

definition getE :: "('s, 'e, 's) sm" where
  "getE = (\<lambda>s. (Inr s, s))"

definition modifyE :: "('s \<Rightarrow> 's) \<Rightarrow> ('s, 'e, unit) sm" where
  "modifyE f = (\<lambda>s. (Inr (), f s))"

lemma bindE_apply [sm_simps]:
  "bindE m k s = (case m s of (Inl e, s') \<Rightarrow> (Inl e, s') | (Inr a, s') \<Rightarrow> k a s')"
  by (simp add: bindE_def)

lemma returnE_apply [sm_simps]: "returnE a s = (Inr a, s)"
  by (simp add: returnE_def)

lemma throwE_apply [sm_simps]: "throwE e s = (Inl e, s)"
  by (simp add: throwE_def)

lemma liftE_apply [sm_simps]: "liftE r s = (r, s)"
  by (simp add: liftE_def)

lemma getE_apply [sm_simps]: "getE s = (Inr s, s)"
  by (simp add: getE_def)

lemma modifyE_apply [sm_simps]: "modifyE f s = (Inr (), f s)"
  by (simp add: modifyE_def)

lemma bindE_return [simp]: "bindE (returnE a) k = k a"
  by (rule ext) (simp add: sm_simps)

lemma bindE_throw [simp]: "bindE (throwE e) k = throwE e"
  by (rule ext) (simp add: sm_simps)

lemma bindE_assoc: "bindE (bindE m f) g = bindE m (\<lambda>a. bindE (f a) g)"
  by (rule ext) (simp add: sm_simps split: prod.splits sum.splits)

lemma bindE_cong [fundef_cong]:
  assumes "m s = m' s" and "\<And>a s'. m' s = (Inr a, s') \<Longrightarrow> k a s' = k' a s'" and "s = t"
  shows "bindE m k s = bindE m' k' t"
  using assms by (auto simp: sm_simps split: prod.splits sum.splits)

lemma bindE_InrE:
  assumes "bindE m k s = (Inr b, t)"
  obtains a s' where "m s = (Inr a, s')" and "k a s' = (Inr b, t)"
  using assms by (auto simp: sm_simps split: prod.splits sum.splits)

subsection \<open>Relations an operation keeps between the state before and the state after\<close>

text \<open>
  The contract of the many operations that leave a part of the state alone, whatever they return:
  a reflexive and transitive relation between the state before and after. It is proved once that
  the combinators keep such a relation.
\<close>

locale frame_relation =
  fixes R :: "'s \<Rightarrow> 's \<Rightarrow> bool"
  assumes R_refl: "R s s"
    and R_trans: "R s t \<Longrightarrow> R t u \<Longrightarrow> R s u"
begin

definition keeps :: "('s \<Rightarrow> ('e + 'a) \<times> 's) \<Rightarrow> bool" where
  "keeps m \<longleftrightarrow> (\<forall>s. R s (snd (m s)))"

lemma keepsI: "(\<And>s. R s (snd (m s))) \<Longrightarrow> keeps m"
  by (simp add: keeps_def)

lemma keepsD: "keeps m \<Longrightarrow> m s = (r, t) \<Longrightarrow> R s t"
  unfolding keeps_def by (metis snd_conv)

lemma keeps_return: "keeps (returnE a)"
  by (simp add: keeps_def R_refl sm_simps)

lemma keeps_throw: "keeps (throwE e)"
  by (simp add: keeps_def R_refl sm_simps)

lemma keeps_lift: "keeps (liftE r)"
  by (simp add: keeps_def R_refl sm_simps)

lemma keeps_get: "keeps getE"
  by (simp add: keeps_def R_refl sm_simps)

lemma keeps_bind:
  assumes "keeps m" and "\<And>a. keeps (k a)"
  shows "keeps (bindE m k)"
proof (rule keepsI)
  fix s
  obtain r t where mt: "m s = (r, t)"
    by (cases "m s")
  have st: "R s t"
    using assms(1) mt by (rule keepsD)
  show "R s (snd (bindE m k s))"
  proof (cases r)
    case (Inl e)
    with mt st show ?thesis by (simp add: sm_simps)
  next
    case (Inr a)
    have "R t (snd (k a t))"
      using assms(2) by (simp add: keeps_def)
    with st have "R s (snd (k a t))"
      by (rule R_trans)
    with mt Inr show ?thesis by (simp add: sm_simps)
  qed
qed

lemma keeps_if: "(b \<Longrightarrow> keeps m) \<Longrightarrow> (\<not> b \<Longrightarrow> keeps m') \<Longrightarrow> keeps (if b then m else m')"
  by simp

lemma keeps_modify: "(\<And>s. R s (f s)) \<Longrightarrow> keeps (modifyE f)"
  by (simp add: keeps_def sm_simps)

lemmas keeps_intros = keeps_return keeps_throw keeps_lift keeps_get keeps_bind keeps_if keeps_modify

end

subsection \<open>Bytes\<close>

fun le_val :: "bytes \<Rightarrow> int" where
  "le_val [] = 0"
| "le_val (b # bs) = uint b + 256 * le_val bs"

lemma uint_byte_range: "0 \<le> uint (b :: byte)" "uint (b :: byte) < 256"
  using uint_range_size [of b] by (simp_all add: word_size)

lemma le_val_nonneg [simp]: "0 \<le> le_val v"
  by (induction v) (simp_all add: uint_byte_range)

lemma le_val_bound: "le_val v < 256 ^ length v"
proof (induction v)
  case (Cons b bs)
  from Cons.IH have "256 * le_val bs \<le> 256 * (256 ^ length bs - 1)"
    by (intro mult_left_mono) simp_all
  with uint_byte_range(2) [of b] show ?case
    by (simp add: algebra_simps)
qed simp

lemma le_val_append: "le_val (u @ v) = le_val u + 256 ^ length u * le_val v"
  by (induction u) (simp_all add: algebra_simps)

lemma byte_high_bit: "(b :: byte) AND 0x80 \<noteq> 0 \<longleftrightarrow> 128 \<le> uint b"
proof -
  have "b AND 0x80 \<noteq> 0 \<longleftrightarrow> bit b 7"
    using and_exp_eq_0_iff_not_bit [of b 7] by simp
  also have "\<dots> \<longleftrightarrow> odd (uint b div 128)"
    using bit_uint_iff [of b 7] by (simp add: bit_iff_odd)
  also have "\<dots> \<longleftrightarrow> 128 \<le> uint b"
  proof
    assume "odd (uint b div 128)"
    then show "128 \<le> uint b"
      by (rule_tac ccontr) simp
  next
    assume "128 \<le> uint b"
    then have "uint b div 128 = 1"
      using uint_byte_range(2) [of b] by simp
    then show "odd (uint b div 128)" by simp
  qed
  finally show ?thesis .
qed

lemma byte_all:
  assumes "list_all (\<lambda>n. P (word_of_nat n :: byte)) [0..<256]"
  shows "P b"
proof -
  have "unat b < 256"
    using unsigned_less [where w = b] by simp
  with assms have "P (word_of_nat (unat b))"
    unfolding list_all_iff set_upt atLeast0LessThan by (blast intro: lessThan_iff [THEN iffD2])
  then show ?thesis by simp
qed

lemma unat_byte_less: "unat (k :: byte) < 256"
  using unsigned_less [where w = k] by simp

text \<open>Comparisons and additions of bytes, as arithmetic on natural numbers.\<close>

lemmas byte_arith = word_le_nat_alt word_less_nat_alt word_unat_eq_iff unat_word_ariths

end
