(* ===== verification/ScriptNum.thy ===== *)
theory ScriptNum
  imports Prelude
begin

text \<open>
  The numbers of the script language: \<open>src/tokenengine/internal/txscript/scriptnum.go\<close>, with the
  errors of \<open>error.go\<close> that every part of the package returns.

  A \<open>scriptNum\<close> is a Go \<open>int64\<close>, modelled as an integer; the places where the code can wrap around
  apply \<open>i64\<close>. Decoding works on \<open>64 word\<close>, as the code shifts and masks an \<open>int64\<close>.
\<close>

section \<open>Errors of the script package\<close>

text \<open>
  The named errors of \<open>error.go\<close>; the errors the code makes with \<open>fmt.Errorf\<close> or \<open>errors.New\<close> at the
  place of the failure; an error a caller's function returned; and a Go run-time panic.
\<close>

datatype script_error =
    ErrStackShortScript | ErrStackLongScript | ErrStackUnderflow | ErrStackInvalidArgs
  | ErrStackOpDisabled | ErrStackVerifyFailed | ErrStackNumberTooBig | ErrStackInvalidOpcode
  | ErrStackReservedOpcode | ErrStackEarlyReturn | ErrStackNoIf | ErrStackMissingEndif
  | ErrStackTooManyPubKeys | ErrStackTooManyOperations | ErrStackElementTooBig
  | ErrStackUnknownAddress | ErrStackScriptFailed | ErrStackScriptUnfinished | ErrStackEmptyStack
  | ErrStackP2SHNonPushOnly | ErrStackP2CHNonPushOnly | ErrStackInvalidParseType
  | ErrStackInvalidAddrOffset | ErrStackInvalidIndex | ErrStackNonPushOnly | ErrStackOverflow
  | ErrStackInvalidLowSSignature | ErrStackInvalidPubKey | ErrStackCleanStack
  | ErrStackMinimalData
  | ErrInvalidFlags | ErrInvalidIndex | ErrUnsupportedAddress | ErrBadNumRequired
  | ErrScriptNotCanonical
  | ErrOther string
  | GoPanic

section \<open>Script numbers\<close>

abbreviation maxInt32 :: int where "maxInt32 \<equiv> 2 ^ 31 - 1"
abbreviation minInt32 :: int where "minInt32 \<equiv> - (2 ^ 31)"

definition defaultScriptNumLen :: nat where
  "defaultScriptNumLen = 4"

definition checkMinimalDataEncoding :: "bytes \<Rightarrow> script_error + unit" where
  "checkMinimalDataEncoding v =
     (if length v = 0 then Inr ()
      else if v ! (length v - 1) AND 0x7f = 0 \<and>
              (length v = 1 \<or> v ! (length v - 2) AND 0x80 = 0)
      then Inl ErrStackMinimalData
      else Inr ())"

text \<open>The loop of \<open>Bytes\<close> that takes the bytes off a positive number, lowest first.\<close>

function scriptNumLE :: "int \<Rightarrow> bytes" where
  "scriptNumLE n = (if n > 0 then word_of_int (n AND 0xff) # scriptNumLE (drop_bit 8 n) else [])"
  by pat_completeness auto
termination
  by (relation "measure nat") (auto simp: drop_bit_eq_div)

declare scriptNumLE.simps [simp del]

definition scriptNum_Bytes :: "int \<Rightarrow> script_error + bytes" where
  "scriptNum_Bytes n0 =
     (if n0 = 0 then Inr []
      else
        (let isNegative = n0 < 0;
             n = (if isNegative then i64 (- n0) else n0);
             result = scriptNumLE n
         in if result = [] then Inl GoPanic
            else if last result AND 0x80 \<noteq> 0
            then Inr (result @ [if isNegative then 0x80 else 0x00])
            else if isNegative
            then Inr (butlast result @ [last result OR 0x80])
            else Inr result))"

definition scriptNum_Int32 :: "int \<Rightarrow> int" where
  "scriptNum_Int32 n = (if n > maxInt32 then maxInt32 else if n < minInt32 then minInt32 else n)"

text \<open>The loop \<open>result |= int64(val) << uint8(8*i)\<close>; the shift count is a \<open>uint8\<close>.\<close>

fun scriptNumDecode :: "nat \<Rightarrow> bytes \<Rightarrow> uint64 \<Rightarrow> uint64" where
  "scriptNumDecode i [] result = result"
| "scriptNumDecode i (val # v) result =
     scriptNumDecode (Suc i) v (result OR push_bit ((8 * i) mod 256) (ucast val))"

definition makeScriptNum :: "bytes \<Rightarrow> bool \<Rightarrow> nat \<Rightarrow> script_error + int" where
  "makeScriptNum v requireMinimal scriptNumLen =
     (if length v > scriptNumLen then Inl ErrStackNumberTooBig
      else case (if requireMinimal then checkMinimalDataEncoding v else Inr ()) of
        Inl e \<Rightarrow> Inl e
      | Inr _ \<Rightarrow>
          if length v = 0 then Inr 0
          else
            (let result = scriptNumDecode 0 v 0
             in if last v AND 0x80 \<noteq> 0
                then
                  (let cleared = result AND NOT (push_bit ((8 * (length v - 1)) mod 256) 0x80)
                   in Inr (sint (- cleared)))
                else Inr (sint result)))"


section \<open>Encoding\<close>

lemma int_and_0xff: "(n :: int) AND 0xff = n mod 256"
proof -
  have "n AND 0xff = n AND mask 8"
    by (simp add: mask_eq_exp_minus_1)
  then show ?thesis
    by (simp add: take_bit_eq_mod flip: take_bit_eq_mask)
qed

lemma scriptNumLE_pos: "0 < n \<Longrightarrow> scriptNumLE n = word_of_int (n mod 256) # scriptNumLE (n div 256)"
  by (subst scriptNumLE.simps) (simp add: drop_bit_eq_div int_and_0xff)

lemma scriptNumLE_nonpos [simp]: "n \<le> 0 \<Longrightarrow> scriptNumLE n = []"
  by (subst scriptNumLE.simps) simp

lemma uint_word_of_mod [simp]: "uint (word_of_int (n mod 256) :: byte) = n mod 256"
  by (simp add: uint_word_of_int)

lemma le_val_scriptNumLE: "0 \<le> n \<Longrightarrow> le_val (scriptNumLE n) = n"
proof (induction n rule: scriptNumLE.induct)
  case (1 n)
  show ?case
  proof (cases "0 < n")
    case True
    with 1 have "le_val (scriptNumLE (n div 256)) = n div 256"
      by (simp add: drop_bit_eq_div)
    with True show ?thesis
      by (simp add: scriptNumLE_pos)
  qed (use 1 in simp)
qed

lemma scriptNumLE_eq_Nil [simp]: "scriptNumLE n = [] \<longleftrightarrow> n \<le> 0"
  by (cases "0 < n") (simp_all add: scriptNumLE_pos)

lemma last_scriptNumLE: "0 < n \<Longrightarrow> 0 < uint (last (scriptNumLE n))"
proof (induction n rule: scriptNumLE.induct)
  case (1 n)
  show ?case
  proof (cases "0 < n div 256")
    case True
    with 1 have "0 < uint (last (scriptNumLE (n div 256)))"
      by (simp add: drop_bit_eq_div)
    with True 1 show ?thesis
      by (simp add: scriptNumLE_pos [of n])
  next
    case False
    with 1 have "0 < n" "n < 256"
      by linarith+
    then show ?thesis
      by (simp add: scriptNumLE_pos uint_word_of_int)
  qed
qed

section \<open>The number a byte string stands for\<close>

text \<open>
  Sign and magnitude, lowest byte first: the top bit of the last byte is the sign.
\<close>

definition sn_val :: "bytes \<Rightarrow> int" where
  "sn_val v =
     (if v = [] then 0
      else if 128 \<le> uint (last v)
      then - (le_val v - 128 * 256 ^ (length v - 1))
      else le_val v)"

lemma le_val_snoc: "le_val (u @ [b]) = le_val u + 256 ^ length u * uint b"
  by (simp add: le_val_append)

lemma pow256: "256 ^ n = (2::int) ^ (8 * n)"
  by (simp add: power_mult)

lemma or_push_bit_add:
  assumes "0 \<le> (r :: int)" and "r < 2 ^ n"
  shows "r OR push_bit n b = r + 2 ^ n * b"
proof -
  have "r AND push_bit n b = 0"
  proof (rule bit_eqI)
    fix m
    show "bit (r AND push_bit n b) m = bit 0 m"
    proof (cases "m < n")
      case True
      then show ?thesis by (simp add: bit_and_iff bit_push_bit_iff)
    next
      case False
      have "take_bit n r = r"
        using assms by (simp add: take_bit_int_eq_self)
      then have "\<not> bit r m"
        using False by (metis bit_take_bit_iff)
      then show ?thesis by (simp add: bit_and_iff)
    qed
  qed
  then have "r OR push_bit n b = r + push_bit n b"
    by (simp add: disjunctive_add_eq_or)
  then show ?thesis by (simp add: push_bit_eq_mult)
qed

lemma word_of_int_or: "(word_of_int (a OR b) :: 'a::len word) = word_of_int a OR word_of_int b"
  by (rule bit_word_eqI) (auto simp: bit_or_iff bit_word_of_int_iff)

lemma scriptNumDecode_eq:
  assumes "i + length v \<le> 32" and "0 \<le> r" and "r < 2 ^ (8 * i)"
  shows "scriptNumDecode i v (word_of_int r) = word_of_int (r + 2 ^ (8 * i) * le_val v)"
  using assms
proof (induction v arbitrary: i r)
  case Nil
  then show ?case by simp
next
  case (Cons b v)
  have m: "(8 * i) mod 256 = 8 * i"
    using Cons.prems(1) by simp
  have w: "word_of_int r OR push_bit (8 * i) (ucast b) = (word_of_int (r + 2 ^ (8 * i) * uint b) :: uint64)"
  proof -
    have "push_bit (8 * i) (ucast b :: uint64) = word_of_int (push_bit (8 * i) (uint b))"
      by (rule bit_word_eqI)
        (auto simp: bit_push_bit_iff bit_ucast_iff bit_word_of_int_iff bit_uint_iff dest: bit_imp_le_length)
    then have "word_of_int r OR push_bit (8 * i) (ucast b) = (word_of_int (r OR push_bit (8 * i) (uint b)) :: uint64)"
      by (simp add: word_of_int_or)
    then show ?thesis
      using or_push_bit_add Cons.prems by simp
  qed
  have "uint b \<le> 255"
    using uint_byte_range(2) [of b] by simp
  then have "2 ^ (8 * i) * uint b \<le> 2 ^ (8 * i) * 255"
    by (intro mult_left_mono) simp_all
  then have bound: "r + 2 ^ (8 * i) * uint b < 2 ^ (8 * Suc i)"
  proof -
    have "(2::int) ^ (8 * Suc i) = 256 * 2 ^ (8 * i)"
      by (simp add: power_add)
    with Cons.prems(3) \<open>2 ^ (8 * i) * uint b \<le> 2 ^ (8 * i) * 255\<close> show ?thesis
      by linarith
  qed
  have nn: "0 \<le> r + 2 ^ (8 * i) * uint b"
    using Cons.prems(2) uint_byte_range(1) by simp
  have "scriptNumDecode i (b # v) (word_of_int r)
      = word_of_int (r + 2 ^ (8 * i) * uint b + 2 ^ (8 * Suc i) * le_val v)"
    using Cons.IH [of "Suc i" "r + 2 ^ (8 * i) * uint b"] bound nn Cons.prems(1)
    by (simp add: m w)
  then show ?case
    by (simp add: algebra_simps power_add)
qed


lemma word_clear_bit:
  assumes "bit a k"
  shows "(word_of_int a :: uint64) AND NOT (push_bit k 1) = word_of_int (a - 2 ^ k)"
proof -
  have "(word_of_int a :: uint64) AND NOT (push_bit k 1) = word_of_int (a AND NOT (push_bit k 1))"
    by (rule bit_word_eqI)
      (auto simp: bit_and_iff bit_not_iff bit_word_of_int_iff bit_push_bit_iff bit_1_iff
        simp del: push_bit_of_1)
  also have "a AND NOT (push_bit k 1) = unset_bit k a"
    by (simp add: unset_bit_eq_and_not)
  also have "\<dots> = a - 2 ^ k"
    using assms by (simp add: unset_bit_eq)
  finally show ?thesis .
qed

lemma snoc_decomp:
  assumes "v \<noteq> []"
  shows "le_val v = le_val (butlast v) + 256 ^ (length v - 1) * uint (last v)"
proof -
  have "le_val (butlast v @ [last v]) = le_val (butlast v) + 256 ^ length (butlast v) * uint (last v)"
    by (rule le_val_snoc)
  with assms show ?thesis by simp
qed

lemma sign_bit_set:
  assumes "v \<noteq> []" and "128 \<le> uint (last v)"
  shows "bit (le_val v) (8 * (length v - 1) + 7)"
proof -
  let ?k = "8 * (length v - 1)"
  have lo: "0 \<le> le_val (butlast v)" "le_val (butlast v) < 2 ^ ?k"
    using le_val_bound [of "butlast v"] by (simp_all add: pow256)
  have "le_val v div 2 ^ (?k + 7) = (le_val v div 2 ^ ?k) div 128"
    by (simp add: power_add zdiv_zmult2_eq)
  also have "le_val v div 2 ^ ?k = uint (last v)"
    using lo by (simp add: snoc_decomp [OF assms(1)] pow256)
  also have "uint (last v) div 128 = 1"
    using assms(2) uint_byte_range(2) [of "last v"] by simp
  finally show ?thesis
    by (simp add: bit_iff_odd)
qed

lemma sint_small:
  assumes "- (2 ^ 63) \<le> x" and "x < 2 ^ 63"
  shows "sint (word_of_int x :: uint64) = x"
  using assms by (simp add: sint_sbintrunc' signed_take_bit_int_eq_self)

theorem makeScriptNum_value:
  assumes len: "length v \<le> n" "length v \<le> 9" and range: "\<bar>sn_val v\<bar> < 2 ^ 63"
    and min: "rm \<Longrightarrow> checkMinimalDataEncoding v = Inr ()"
  shows "makeScriptNum v rm n = Inr (sn_val v)"
proof (cases "v = []")
  case True
  with min show ?thesis
    by (cases rm) (simp_all add: makeScriptNum_def sn_val_def)
next
  case False
  have chk: "(if rm then checkMinimalDataEncoding v else Inr ()) = Inr ()"
    using min by simp
  have dec: "scriptNumDecode 0 v 0 = word_of_int (le_val v)"
    using scriptNumDecode_eq [of 0 v 0] len(2) by simp
  have sh: "(8 * (length v - 1)) mod 256 = 8 * (length v - 1)"
    using len(2) by simp
  show ?thesis
  proof (cases "128 \<le> uint (last v)")
    case True
    then have hi: "last v AND 0x80 \<noteq> 0"
      by (simp add: byte_high_bit)
    let ?k = "8 * (length v - 1)"
    have pb: "push_bit ?k (0x80 :: uint64) = push_bit (?k + 7) 1"
      by (simp add: push_bit_eq_mult power_add)
    have "word_of_int (le_val v) AND NOT (push_bit ?k (0x80 :: uint64))
        = word_of_int (le_val v - 2 ^ (?k + 7))"
      unfolding pb by (rule word_clear_bit [OF sign_bit_set [OF False True]])
    moreover have "le_val v - 2 ^ (?k + 7) = - sn_val v"
      using False True by (simp add: sn_val_def pow256 power_add)
    ultimately have "- (word_of_int (le_val v) AND NOT (push_bit ?k (0x80 :: uint64)))
        = word_of_int (sn_val v)"
      by (simp only: wi_hom_neg minus_minus)
    then have "sint (- (word_of_int (le_val v) AND NOT (push_bit ?k (0x80 :: uint64)))) = sn_val v"
      using range sint_small [of "sn_val v"] by simp
    then show ?thesis
      using len False hi by (simp add: makeScriptNum_def chk dec sh Let_def)
  next
    case False': False
    then have hi: "last v AND 0x80 = 0"
      using byte_high_bit by blast
    have "sint (word_of_int (le_val v) :: uint64) = sn_val v"
      using range False False' sint_small [of "le_val v"] le_val_nonneg [of v] by (simp add: sn_val_def)
    then show ?thesis
      using len False hi by (simp add: makeScriptNum_def chk dec sh Let_def)
  qed
qed


section \<open>Round trips\<close>

lemma byte_low7: "(b :: byte) AND 0x7f = 0 \<longleftrightarrow> uint b = 0 \<or> uint b = 128"
  by (rule byte_all) code_simp

lemma byte_or_sign_all: "uint (b :: byte) < 128 \<longrightarrow> uint (b OR 0x80) = uint b + 128"
  by (rule byte_all) code_simp

lemmas byte_or_sign = byte_or_sign_all [rule_format]

text \<open>The magnitude with its sign bit, as \<open>Bytes\<close> puts them together.\<close>

definition sn_sign :: "bool \<Rightarrow> bytes \<Rightarrow> bytes" where
  "sn_sign neg r =
     (if last r AND 0x80 \<noteq> 0 then r @ [if neg then 0x80 else 0x00]
      else if neg then butlast r @ [last r OR 0x80] else r)"

lemma scriptNum_Bytes_eq:
  assumes "n \<noteq> 0" and "- (2 ^ 63) < n" and "n < 2 ^ 63"
  shows "scriptNum_Bytes n = Inr (sn_sign (n < 0) (scriptNumLE \<bar>n\<bar>))"
  using assms by (cases "n < 0") (simp_all add: scriptNum_Bytes_def sn_sign_def Let_def i64_id)

lemma sn_val_sn_sign:
  assumes "r \<noteq> []"
  shows "sn_val (sn_sign neg r) = (if neg then - le_val r else le_val r)"
proof (cases "128 \<le> uint (last r)")
  case True
  then show ?thesis
    using byte_high_bit [of "last r"]
    by (simp add: sn_sign_def sn_val_def le_val_snoc)
next
  case False
  then have "le_val (butlast r @ [last r OR 0x80]) = le_val r + 128 * 256 ^ (length r - 1)"
    using assms by (simp add: le_val_snoc byte_or_sign snoc_decomp algebra_simps)
  with False assms show ?thesis
    using byte_high_bit [of "last r"]
    by (simp add: sn_sign_def sn_val_def byte_or_sign)
qed

lemma sn_sign_minimal:
  assumes "r \<noteq> []" and "0 < uint (last r)"
  shows "checkMinimalDataEncoding (sn_sign neg r) = Inr ()"
proof (cases "128 \<le> uint (last r)")
  case True
  then have "last r AND 0x80 \<noteq> 0"
    by (simp add: byte_high_bit)
  with assms(1) show ?thesis
    by (simp add: sn_sign_def checkMinimalDataEncoding_def nth_append last_conv_nth)
next
  case False
  then have hi: "last r AND 0x80 = 0"
    using byte_high_bit by blast
  have lo: "last r AND 0x7f \<noteq> 0"
    using assms(2) False by (auto simp: byte_low7)
  have lo': "(last r OR 0x80) AND 0x7f \<noteq> 0"
    using assms(2) False byte_or_sign [of "last r"] by (auto simp: byte_low7)
  show ?thesis
    using assms(1) hi lo lo'
    by (simp add: sn_sign_def checkMinimalDataEncoding_def nth_append last_conv_nth)
qed


text \<open>
  The bytes of every number but the smallest \<open>int64\<close> are a minimal encoding, and stand for it.
\<close>

lemma scriptNum_Bytes_ok:
  assumes "- (2 ^ 63) < n" and "n < 2 ^ 63"
  obtains v where "scriptNum_Bytes n = Inr v" and "sn_val v = n"
    and "checkMinimalDataEncoding v = Inr ()"
proof (cases "n = 0")
  case True
  show ?thesis
    by (rule that [of "[]"]) (simp_all add: True scriptNum_Bytes_def sn_val_def checkMinimalDataEncoding_def)
next
  case False
  then have ne: "scriptNumLE \<bar>n\<bar> \<noteq> []" and l: "0 < uint (last (scriptNumLE \<bar>n\<bar>))"
    by (simp_all add: last_scriptNumLE)
  show ?thesis
    using ne l le_val_scriptNumLE [of n] le_val_scriptNumLE [of "- n"]
    by (intro that [of "sn_sign (n < 0) (scriptNumLE \<bar>n\<bar>)"])
      (simp_all add: scriptNum_Bytes_eq [OF False assms] sn_val_sn_sign sn_sign_minimal)
qed

lemma length_scriptNumLE: "0 \<le> n \<Longrightarrow> n < 256 ^ k \<Longrightarrow> length (scriptNumLE n) \<le> k"
proof (induction k arbitrary: n)
  case (Suc k)
  show ?case
  proof (cases "0 < n")
    case True
    have "n div 256 < 256 ^ k"
      using Suc.prems by (simp add: div_less_iff_less_mult)
    with Suc.IH [of "n div 256"] True show ?thesis
      by (simp add: scriptNumLE_pos)
  qed simp
qed simp

lemma scriptNumLE_last_bound:
  assumes "0 < n" and "n < 128 * 256 ^ k"
  shows "length (scriptNumLE n) \<le> k \<or> (length (scriptNumLE n) = Suc k \<and> uint (last (scriptNumLE n)) < 128)"
proof -
  have "n < 256 ^ Suc k"
    using assms by simp
  then have le: "length (scriptNumLE n) \<le> Suc k"
    using assms(1) length_scriptNumLE [of n "Suc k"] by simp
  show ?thesis
  proof (cases "length (scriptNumLE n) = Suc k")
    case True
    have "n = le_val (butlast (scriptNumLE n)) + 256 ^ k * uint (last (scriptNumLE n))"
      using snoc_decomp [of "scriptNumLE n"] le_val_scriptNumLE [of n] assms(1) True by simp
    then have "256 ^ k * uint (last (scriptNumLE n)) \<le> n"
      using le_val_nonneg [of "butlast (scriptNumLE n)"] by linarith
    then have "256 ^ k * uint (last (scriptNumLE n)) < 256 ^ k * 128"
      using assms(2) by linarith
    then have "uint (last (scriptNumLE n)) < 128"
      by (rule mult_left_less_imp_less) simp
    with True show ?thesis by simp
  qed (use le in simp)
qed

lemma length_sn_sign:
  assumes "0 < n" and "n < 128 * 256 ^ k"
  shows "length (sn_sign neg (scriptNumLE n)) \<le> Suc k"
  using scriptNumLE_last_bound [OF assms] byte_high_bit [of "last (scriptNumLE n)"] assms(1)
  by (auto simp: sn_sign_def)

lemma scriptNum_Bytes_length:
  assumes "\<bar>n\<bar> < 128 * 256 ^ k" and "k \<le> 7" and "scriptNum_Bytes n = Inr v"
  shows "length v \<le> Suc k"
proof (cases "n = 0")
  case True
  with assms(3) show ?thesis by (simp add: scriptNum_Bytes_def)
next
  case False
  have "(256::int) ^ k \<le> 256 ^ 7"
    using assms(2) by (intro power_increasing) simp_all
  then have "\<bar>n\<bar> < 2 ^ 63"
    using assms(1) by simp
  then have "v = sn_sign (n < 0) (scriptNumLE \<bar>n\<bar>)"
    using assms(3) scriptNum_Bytes_eq [OF False] by simp
  with assms(1) False show ?thesis
    by (simp add: length_sn_sign)
qed


lemma scriptNumLE_le_val: "r \<noteq> [] \<Longrightarrow> 0 < uint (last r) \<Longrightarrow> scriptNumLE (le_val r) = r"
proof (induction r)
  case (Cons b r)
  have pos: "0 < le_val (b # r)"
  proof (cases "r = []")
    case False
    have "0 < 256 ^ (length r - 1) * uint (last r)"
      using Cons.prems False by simp
    then have "0 < le_val r"
      using snoc_decomp [OF False] le_val_nonneg [of "butlast r"] by linarith
    then show ?thesis
      using uint_byte_range(1) [of b] unfolding le_val.simps by linarith
  qed (use Cons.prems in simp)
  have "le_val (b # r) mod 256 = uint b" "le_val (b # r) div 256 = le_val r"
    using uint_byte_range [of b] by simp_all
  moreover have "scriptNumLE (le_val r) = r"
    using Cons by (cases "r = []") simp_all
  ultimately show ?case
    using scriptNumLE_pos [OF pos] by simp
qed simp

lemma byte_clear_sign_all:
  "128 \<le> uint (b :: byte) \<longrightarrow> uint (b AND 0x7f) = uint b - 128 \<and> (b AND 0x7f) OR 0x80 = b"
  by (rule byte_all) code_simp

lemma minimal_sn_sign:
  assumes "checkMinimalDataEncoding v = Inr ()" and "v \<noteq> []"
  obtains neg r where "v = sn_sign neg r" and "r \<noteq> []" and "0 < uint (last r)"
proof (cases "last v AND 0x7f = 0")
  case True
  then have len: "length v \<noteq> 1" and snd_high: "v ! (length v - 2) AND 0x80 \<noteq> 0"
    using assms by (auto simp: checkMinimalDataEncoding_def last_conv_nth split: if_splits)
  let ?r = "butlast v"
  have ne: "?r \<noteq> []"
    using assms(2) len by (cases v rule: rev_cases) auto
  have "last ?r = v ! (length v - 2)"
    using ne by (cases v rule: rev_cases) (auto simp: last_conv_nth nth_append numeral_2_eq_2)
  with snd_high have hi: "last ?r AND 0x80 \<noteq> 0" by simp
  then have pos: "0 < uint (last ?r)"
    using byte_high_bit [of "last ?r"] by simp
  from True have "uint (last v) = 0 \<or> uint (last v) = 128"
    by (simp add: byte_low7)
  then have "last v = 0 \<or> last v = 0x80"
    by (auto simp: word_uint_eq_iff)
  then have "v = sn_sign (last v = 0x80) ?r"
    using hi assms(2) by (cases v rule: rev_cases) (auto simp: sn_sign_def)
  then show ?thesis
    using ne pos by (rule that)
next
  case False
  show ?thesis
  proof (cases "128 \<le> uint (last v)")
    case True
    let ?b = "last v AND 0x7f"
    have b: "uint ?b = uint (last v) - 128" "?b OR 0x80 = last v"
      using byte_clear_sign_all True by blast+
    have "uint ?b < 128"
      using b(1) uint_byte_range(2) [of "last v"] by simp
    then have "?b AND 0x80 = 0"
      using byte_high_bit [of ?b] by linarith
    then have "v = sn_sign True (butlast v @ [?b])"
      using assms(2) b(2) by (simp add: sn_sign_def)
    moreover have "0 < uint ?b"
      using False uint_byte_range(1) [of ?b] by (metis order_le_less uint_0_iff)
    ultimately show ?thesis
      by (intro that [of True "butlast v @ [?b]"]) simp_all
  next
    case lt: False
    then have "last v AND 0x80 = 0"
      using byte_high_bit by blast
    then have "v = sn_sign False v"
      by (simp add: sn_sign_def)
    moreover have "0 < uint (last v)"
      using False uint_byte_range(1) [of "last v"] by (metis and_zero_eq order_le_less uint_0_iff and.commute)
    ultimately show ?thesis
      using assms(2) by (intro that)
  qed
qed

lemma sn_val_range: "length v \<le> Suc k \<Longrightarrow> \<bar>sn_val v\<bar> < 128 * 256 ^ k"
proof (cases "v = []")
  case False
  assume len: "length v \<le> Suc k"
  define p :: int where "p = 256 ^ (length v - 1)"
  have lo: "0 \<le> le_val (butlast v)" "le_val (butlast v) < p"
    using le_val_bound [of "butlast v"] by (simp_all add: p_def)
  have dec: "le_val v = le_val (butlast v) + p * uint (last v)"
    unfolding p_def by (rule snoc_decomp [OF False])
  have "\<bar>sn_val v\<bar> < 128 * p"
  proof (cases "128 \<le> uint (last v)")
    case True
    then have "p * 128 \<le> p * uint (last v)" "p * uint (last v) \<le> p * 255"
      using uint_byte_range(2) [of "last v"] by (intro mult_left_mono; simp add: p_def)+
    moreover have "sn_val v = 128 * p - le_val v"
      using True False by (simp add: sn_val_def p_def)
    ultimately show ?thesis
      using lo dec unfolding abs_less_iff by linarith
  next
    case lt: False
    then have "p * uint (last v) \<le> p * 127"
      by (intro mult_left_mono) (simp_all add: p_def)
    moreover have "sn_val v = le_val v"
      using lt False by (simp add: sn_val_def)
    ultimately show ?thesis
      using lo dec le_val_nonneg [of v] unfolding abs_less_iff by linarith
  qed
  also have "128 * p = 128 * 256 ^ (length v - 1)"
    by (simp add: p_def)
  also have "\<dots> \<le> 128 * 256 ^ k"
    using len by (intro mult_left_mono power_increasing) auto
  finally show ?thesis .
qed (simp add: sn_val_def)

lemma sn_val_canonical:
  assumes "checkMinimalDataEncoding v = Inr ()" and "length v \<le> 8"
  shows "scriptNum_Bytes (sn_val v) = Inr v"
proof (cases "v = []")
  case True
  then show ?thesis by (simp add: sn_val_def scriptNum_Bytes_def)
next
  case False
  obtain neg r where v: "v = sn_sign neg r" and r: "r \<noteq> []" "0 < uint (last r)"
    using minimal_sn_sign [OF assms(1) False] .
  have val: "sn_val v = (if neg then - le_val r else le_val r)"
    using v r(1) by (simp add: sn_val_sn_sign)
  have "scriptNumLE (le_val r) \<noteq> []"
    using r scriptNumLE_le_val by simp
  then have pos: "0 < le_val r" by simp
  have "\<bar>sn_val v\<bar> < 2 ^ 63"
    using sn_val_range [of v 7] assms(2) by simp
  then show ?thesis
    using val pos scriptNum_Bytes_eq [of "sn_val v"] v r scriptNumLE_le_val
    by (cases neg) simp_all
qed


section \<open>Properties\<close>

text \<open>
  C17. A script number written by \<open>Bytes\<close> is read back by \<open>makeScriptNum\<close> as the same number, with
  the minimal-encoding rule on or off and for every length limit the bytes fit in. This holds for
  every \<open>int64\<close> but the smallest one.
\<close>

theorem scriptNum_roundtrip:
  assumes "- (2 ^ 63) < n" and "n < 2 ^ 63"
  shows "\<exists>v. scriptNum_Bytes n = Inr v \<and> (\<forall>rm k. length v \<le> k \<longrightarrow> makeScriptNum v rm k = Inr n)"
proof -
  obtain v where v: "scriptNum_Bytes n = Inr v" "sn_val v = n" "checkMinimalDataEncoding v = Inr ()"
    using scriptNum_Bytes_ok [OF assms] .
  have "length v \<le> 9"
  proof (cases "n = 0")
    case False
    have "length (scriptNumLE \<bar>n\<bar>) \<le> 8"
      using assms by (intro length_scriptNumLE) auto
    with v(1) False show ?thesis
      by (auto simp: scriptNum_Bytes_eq [OF False assms] sn_sign_def split: if_splits)
  qed (use v in \<open>simp add: scriptNum_Bytes_def\<close>)
  then have "\<forall>rm k. length v \<le> k \<longrightarrow> makeScriptNum v rm k = Inr n"
    using makeScriptNum_value [of v] v assms by auto
  with v(1) show ?thesis by blast
qed

theorem scriptNum_roundtrip_witness:
  "scriptNum_Bytes (- 32768) = Inr [0x00, 0x80, 0x80] \<and>
   makeScriptNum [0x00, 0x80, 0x80] True 4 = Inr (- 32768)"
proof -
  have b: "scriptNum_Bytes (- 32768) = Inr [0x00, 0x80, 0x80]"
    by code_simp
  moreover obtain v where "scriptNum_Bytes (- 32768) = Inr v"
    and "\<forall>rm k. length v \<le> k \<longrightarrow> makeScriptNum v rm k = Inr (- 32768)"
    using scriptNum_roundtrip [of "- 32768"] by auto
  ultimately have "makeScriptNum [0x00, 0x80, 0x80] True 4 = Inr (- 32768)"
    by simp
  with b show ?thesis by simp
qed

text \<open>
  C19. Under the minimal-encoding rule an operand has one encoding only: what \<open>makeScriptNum\<close> accepts
  at the default length of four bytes is exactly what \<open>Bytes\<close> writes for the number it returns, and
  that number lies strictly between \<open>-2^31\<close> and \<open>2^31\<close>.
\<close>

theorem scriptNum_canonical:
  assumes "makeScriptNum v True defaultScriptNumLen = Inr n"
  shows "scriptNum_Bytes n = Inr v \<and> - (2 ^ 31) < n \<and> n < 2 ^ 31"
proof -
  have len: "length v \<le> 4" and min: "checkMinimalDataEncoding v = Inr ()"
    using assms by (auto simp: makeScriptNum_def defaultScriptNumLen_def split: if_splits sum.splits)
  have r: "\<bar>sn_val v\<bar> < 2 ^ 31"
    using sn_val_range [of v 3] len by simp
  then have "n = sn_val v"
    using makeScriptNum_value [of v 4 True] len min assms by (simp add: defaultScriptNumLen_def)
  with sn_val_canonical [OF min] len r show ?thesis
    by (simp add: abs_less_iff)
qed

theorem scriptNum_canonical_witness:
  "makeScriptNum [0xff, 0x80] True defaultScriptNumLen = Inr (- 255) \<and>
   scriptNum_Bytes (- 255) = Inr [0xff, 0x80]"
proof -
  have "makeScriptNum [0xff, 0x80] True defaultScriptNumLen = Inr (- 255)"
    by code_simp
  then show ?thesis
    using scriptNum_canonical [of "[0xff, 0x80]" "- 255"] by simp
qed

end
