(* ===== verification/ScriptStack.thy ===== *)
theory ScriptStack
  imports ScriptNum
begin

text \<open>
  The data and alternate stacks of the script engine:
  \<open>src/tokenengine/internal/txscript/stack.go\<close>. The slice \<open>stk\<close> keeps the top of the stack at its
  end, as in the code. Go's \<open>int32\<close> positions are integers; \<open>i32\<close> is the conversion of a slice length
  to \<open>int32\<close>.
\<close>

section \<open>Model\<close>

fun asBool :: "bytes \<Rightarrow> bool" where
  "asBool [] = False"
| "asBool (b # t) = (if b \<noteq> 0 then (if t = [] \<and> b = 0x80 then False else True) else asBool t)"

definition fromBool :: "bool \<Rightarrow> bytes" where
  "fromBool v = (if v then [1] else [])"

record stack =
  stk :: "bytes list"
  verifyMinimalData :: bool

definition Depth :: "stack \<Rightarrow> int" where
  "Depth s = i32 (int (length (stk s)))"

definition PushByteArray :: "bytes \<Rightarrow> (stack, script_error, unit) sm" where
  "PushByteArray so = modifyE (\<lambda>s. s\<lparr>stk := stk s @ [so]\<rparr>)"

definition PushInt :: "int \<Rightarrow> (stack, script_error, unit) sm" where
  "PushInt val = bindE (liftE (scriptNum_Bytes val)) PushByteArray"

definition PushBool :: "bool \<Rightarrow> (stack, script_error, unit) sm" where
  "PushBool val = PushByteArray (fromBool val)"

definition nipN :: "int \<Rightarrow> (stack, script_error, bytes) sm" where
  "nipN idx s =
     (let sz = i32 (int (length (stk s)))
      in if idx < 0 \<or> idx > sz - 1 then (Inl ErrStackUnderflow, s)
         else
           (let so = stk s ! nat (sz - idx - 1)
            in if idx = 0 then (Inr so, s\<lparr>stk := take (nat (sz - 1)) (stk s)\<rparr>)
               else if idx = sz - 1 then (Inr so, s\<lparr>stk := take (nat (sz - 1)) (drop 1 (stk s))\<rparr>)
               else
                 (let s1 = drop (nat (sz - idx)) (take (nat sz) (stk s))
                  in (Inr so, s\<lparr>stk := take (nat (sz - idx - 1)) (stk s) @ s1\<rparr>))))"

definition PopByteArray :: "(stack, script_error, bytes) sm" where
  "PopByteArray = nipN 0"

definition PopInt :: "(stack, script_error, int) sm" where
  "PopInt = bindE PopByteArray
     (\<lambda>so. bindE getE (\<lambda>s. liftE (makeScriptNum so (verifyMinimalData s) defaultScriptNumLen)))"

definition PopBool :: "(stack, script_error, bool) sm" where
  "PopBool = bindE PopByteArray (\<lambda>so. returnE (asBool so))"

definition PeekByteArray :: "int \<Rightarrow> (stack, script_error, bytes) sm" where
  "PeekByteArray idx s =
     (let sz = i32 (int (length (stk s)))
      in if idx < 0 \<or> idx \<ge> sz then (Inl ErrStackUnderflow, s)
         else (Inr (stk s ! nat (sz - idx - 1)), s))"

definition PeekInt :: "int \<Rightarrow> (stack, script_error, int) sm" where
  "PeekInt idx = bindE (PeekByteArray idx)
     (\<lambda>so. bindE getE (\<lambda>s. liftE (makeScriptNum so (verifyMinimalData s) defaultScriptNumLen)))"

definition PeekBool :: "int \<Rightarrow> (stack, script_error, bool) sm" where
  "PeekBool idx = bindE (PeekByteArray idx) (\<lambda>so. returnE (asBool so))"

definition NipN :: "int \<Rightarrow> (stack, script_error, unit) sm" where
  "NipN idx = bindE (nipN idx) (\<lambda>_. returnE ())"

definition Tuck :: "(stack, script_error, unit) sm" where
  "Tuck = bindE PopByteArray (\<lambda>so2. bindE PopByteArray (\<lambda>so1.
     bindE (PushByteArray so2) (\<lambda>_. bindE (PushByteArray so1) (\<lambda>_. PushByteArray so2))))"

text \<open>A loop \<open>for i := n; i > 0; i--\<close> over a body that may fail.\<close>

primrec repeatE :: "nat \<Rightarrow> ('s, 'e, unit) sm \<Rightarrow> ('s, 'e, unit) sm" where
  "repeatE 0 body = returnE ()"
| "repeatE (Suc n) body = bindE body (\<lambda>_. repeatE n body)"

definition DropN :: "int \<Rightarrow> (stack, script_error, unit) sm" where
  "DropN n = (if n < 1 then throwE ErrStackInvalidArgs
     else repeatE (nat n) (bindE PopByteArray (\<lambda>_. returnE ())))"

definition DupN :: "int \<Rightarrow> (stack, script_error, unit) sm" where
  "DupN n = (if n < 1 then throwE ErrStackInvalidArgs
     else repeatE (nat n) (bindE (PeekByteArray (n - 1)) PushByteArray))"

definition RotN :: "int \<Rightarrow> (stack, script_error, unit) sm" where
  "RotN n = (if n < 1 then throwE ErrStackInvalidArgs
     else (let entry = i32 (3 * n - 1) in repeatE (nat n) (bindE (nipN entry) PushByteArray)))"

definition SwapN :: "int \<Rightarrow> (stack, script_error, unit) sm" where
  "SwapN n = (if n < 1 then throwE ErrStackInvalidArgs
     else (let entry = i32 (2 * n - 1) in repeatE (nat n) (bindE (nipN entry) PushByteArray)))"

definition OverN :: "int \<Rightarrow> (stack, script_error, unit) sm" where
  "OverN n = (if n < 1 then throwE ErrStackInvalidArgs
     else (let entry = i32 (2 * n - 1) in repeatE (nat n) (bindE (PeekByteArray entry) PushByteArray)))"

definition PickN :: "int \<Rightarrow> (stack, script_error, unit) sm" where
  "PickN n = bindE (PeekByteArray n) PushByteArray"

definition RollN :: "int \<Rightarrow> (stack, script_error, unit) sm" where
  "RollN n = bindE (nipN n) PushByteArray"

section \<open>Single operations\<close>

text \<open>
  A stack of fewer than \<open>2^31\<close> items, the range in which \<open>int32\<close> lengths are exact.
\<close>

abbreviation small :: "stack \<Rightarrow> bool" where
  "small s \<equiv> length (stk s) < 2 ^ 31"

lemma i32_length: "length xs < 2 ^ 31 \<Longrightarrow> i32 (int (length xs)) = int (length xs)"
  by (rule i32_id) simp_all

lemma Depth_eq: "small s \<Longrightarrow> Depth s = int (length (stk s))"
  by (simp add: Depth_def i32_length)

lemma PushByteArray_apply [sm_simps]: "PushByteArray so s = (Inr (), s\<lparr>stk := stk s @ [so]\<rparr>)"
  by (simp add: PushByteArray_def sm_simps)

lemma PushBool_apply [sm_simps]: "PushBool v s = (Inr (), s\<lparr>stk := stk s @ [fromBool v]\<rparr>)"
  by (simp add: PushBool_def sm_simps)

lemma nipN_underflow: "small s \<Longrightarrow> idx < 0 \<or> int (length (stk s)) \<le> idx \<Longrightarrow> nipN idx s = (Inl ErrStackUnderflow, s)"
  by (auto simp: nipN_def i32_length Let_def)

lemma nipN_split:
  assumes "small s" and "stk s = xs @ x # ys"
  shows "nipN (int (length ys)) s = (Inr x, s\<lparr>stk := xs @ ys\<rparr>)"
proof -
  have len: "length (stk s) = Suc (length xs + length ys)"
    using assms(2) by simp
  have "nat (int (length (stk s)) - int (length ys) - 1) = length xs"
    "nat (int (length (stk s)) - int (length ys)) = Suc (length xs)"
    "nat (int (length (stk s)) - 1) = length xs + length ys"
    using len by simp_all
  then show ?thesis
    using assms(2) len unfolding nipN_def i32_length [OF assms(1)] Let_def by auto
qed

lemma PeekByteArray_underflow:
  "small s \<Longrightarrow> idx < 0 \<or> int (length (stk s)) \<le> idx \<Longrightarrow> PeekByteArray idx s = (Inl ErrStackUnderflow, s)"
  by (auto simp: PeekByteArray_def i32_length Let_def)

lemma PeekByteArray_split:
  assumes "small s" and "stk s = xs @ x # ys"
  shows "PeekByteArray (int (length ys)) s = (Inr x, s)"
proof -
  have "nat (int (length (stk s)) - int (length ys) - 1) = length xs"
    using assms(2) by simp
  then show ?thesis
    using assms(2) unfolding PeekByteArray_def i32_length [OF assms(1)] Let_def by simp
qed

lemma PopByteArray_snoc:
  "small s \<Longrightarrow> stk s = xs @ [x] \<Longrightarrow> PopByteArray s = (Inr x, s\<lparr>stk := xs\<rparr>)"
  using nipN_split [of s xs x "[]"] by (simp add: PopByteArray_def)

lemma PopByteArray_empty: "stk s = [] \<Longrightarrow> PopByteArray s = (Inl ErrStackUnderflow, s)"
  by (simp add: PopByteArray_def nipN_underflow)

lemma PeekByteArray_top: "small s \<Longrightarrow> stk s = xs @ [x] \<Longrightarrow> PeekByteArray 0 s = (Inr x, s)"
  using PeekByteArray_split [of s xs x "[]"] by simp

section \<open>The loops\<close>

text \<open>
  \<open>DropN\<close>, \<open>DupN\<close>, \<open>RotN\<close>, \<open>SwapN\<close> and \<open>OverN\<close> repeat one operation at a fixed depth.
\<close>

lemma repeat_drop:
  "small s \<Longrightarrow> stk s = xs @ ys \<Longrightarrow>
   repeatE (length ys) (bindE PopByteArray (\<lambda>_. returnE ())) s = (Inr (), s\<lparr>stk := xs\<rparr>)"
proof (induction ys arbitrary: s rule: rev_induct)
  case Nil
  then show ?case by (simp add: sm_simps)
next
  case (snoc y ys)
  have "PopByteArray s = (Inr y, s\<lparr>stk := xs @ ys\<rparr>)"
    using snoc.prems by (intro PopByteArray_snoc) simp_all
  with snoc.IH [of "s\<lparr>stk := xs @ ys\<rparr>"] snoc.prems show ?case
    by (simp add: sm_simps)
qed

lemma repeat_nip:
  "length (xs @ ys @ zs) < 2 ^ 31 \<Longrightarrow> stk s = xs @ ys @ zs \<Longrightarrow> int (length (ys @ zs)) = d + 1 \<Longrightarrow>
   repeatE (length ys) (bindE (nipN d) PushByteArray) s = (Inr (), s\<lparr>stk := xs @ zs @ ys\<rparr>)"
proof (induction ys arbitrary: s zs)
  case Nil
  then show ?case by (simp add: sm_simps)
next
  case (Cons y ys)
  have d: "d = int (length (ys @ zs))"
    using Cons.prems(3) by simp
  have nip: "nipN d s = (Inr y, s\<lparr>stk := xs @ (ys @ zs)\<rparr>)"
    unfolding d using Cons.prems by (intro nipN_split) simp_all
  show ?case
    using Cons.IH [of "zs @ [y]" "s\<lparr>stk := xs @ ys @ zs @ [y]\<rparr>"] Cons.prems
    by (simp add: sm_simps nip)
qed

lemma repeat_peek:
  "length (xs @ ys @ zs) + length ys < 2 ^ 31 \<Longrightarrow> stk s = xs @ ys @ zs \<Longrightarrow> int (length (ys @ zs)) = d + 1 \<Longrightarrow>
   repeatE (length ys) (bindE (PeekByteArray d) PushByteArray) s = (Inr (), s\<lparr>stk := xs @ ys @ zs @ ys\<rparr>)"
proof (induction ys arbitrary: s xs zs)
  case Nil
  then show ?case by (simp add: sm_simps)
next
  case (Cons y ys)
  have d: "d = int (length (ys @ zs))"
    using Cons.prems(3) by simp
  have peek: "PeekByteArray d s = (Inr y, s)"
    unfolding d using Cons.prems by (intro PeekByteArray_split [of s xs]) simp_all
  show ?case
    using Cons.IH [of "xs @ [y]" "zs @ [y]" "s\<lparr>stk := stk s @ [y]\<rparr>"] Cons.prems
    by (simp add: sm_simps peek)
qed

lemma not_less_one_length: "int (length xs) < 1 \<longleftrightarrow> xs = []"
  by (cases xs) auto

lemma DropN_spec:
  "small s \<Longrightarrow> stk s = xs @ ys \<Longrightarrow> ys \<noteq> [] \<Longrightarrow> DropN (int (length ys)) s = (Inr (), s\<lparr>stk := xs\<rparr>)"
  using repeat_drop [of s xs ys] by (simp add: DropN_def not_less_one_length)

lemma DupN_spec:
  assumes "length (xs @ ys) + length ys < 2 ^ 31" and "stk s = xs @ ys" and "ys \<noteq> []"
  shows "DupN (int (length ys)) s = (Inr (), s\<lparr>stk := xs @ ys @ ys\<rparr>)"
  using repeat_peek [of xs ys "[]" s "int (length ys) - 1"] assms
  by (simp add: DupN_def not_less_one_length)

lemma RotN_spec:
  assumes "length (xs @ as @ bs @ cs) < 2 ^ 31" and "stk s = xs @ as @ bs @ cs"
    and "as \<noteq> []" and "length bs = length as" and "length cs = length as"
  shows "RotN (int (length as)) s = (Inr (), s\<lparr>stk := xs @ bs @ cs @ as\<rparr>)"
proof -
  have e: "i32 (3 * int (length as) - 1) = int (length (as @ bs @ cs)) - 1"
    using assms by (subst i32_id) simp_all
  show ?thesis
    using repeat_nip [of xs as "bs @ cs" s "int (length (as @ bs @ cs)) - 1"] assms
    unfolding RotN_def Let_def e by (simp add: not_less_one_length)
qed

lemma SwapN_spec:
  assumes "length (xs @ as @ bs) < 2 ^ 31" and "stk s = xs @ as @ bs"
    and "as \<noteq> []" and "length bs = length as"
  shows "SwapN (int (length as)) s = (Inr (), s\<lparr>stk := xs @ bs @ as\<rparr>)"
proof -
  have e: "i32 (2 * int (length as) - 1) = int (length (as @ bs)) - 1"
    using assms by (subst i32_id) simp_all
  show ?thesis
    using repeat_nip [of xs as bs s "int (length (as @ bs)) - 1"] assms
    unfolding SwapN_def Let_def e by (simp add: not_less_one_length)
qed

lemma OverN_spec:
  assumes "length (xs @ as @ bs) + length as < 2 ^ 31" and "stk s = xs @ as @ bs"
    and "as \<noteq> []" and "length bs = length as"
  shows "OverN (int (length as)) s = (Inr (), s\<lparr>stk := xs @ as @ bs @ as\<rparr>)"
proof -
  have e: "i32 (2 * int (length as) - 1) = int (length (as @ bs)) - 1"
    using assms by (subst i32_id) simp_all
  show ?thesis
    using repeat_peek [of xs as bs s "int (length (as @ bs)) - 1"] assms
    unfolding OverN_def Let_def e by (simp add: not_less_one_length)
qed


section \<open>The stack as a last-in first-out store\<close>

text \<open>Popping \<open>n\<close> items into a slice, the first popped first, as the multi-signature check does.\<close>

primrec popListE :: "nat \<Rightarrow> ('s, 'e, 'a) sm \<Rightarrow> ('s, 'e, 'a list) sm" where
  "popListE 0 pop = returnE []"
| "popListE (Suc n) pop = bindE pop (\<lambda>x. bindE (popListE n pop) (\<lambda>xs. returnE (x # xs)))"

locale lifo =
  fixes push :: "'a \<Rightarrow> 's \<Rightarrow> 's"
    and pop :: "'s \<Rightarrow> ('e + 'a) \<times> 's"
    and room :: "nat \<Rightarrow> 's \<Rightarrow> bool"
  assumes pop_push: "room (Suc 0) s \<Longrightarrow> pop (push x s) = (Inr x, s)"
    and room_push: "room (Suc n) s \<Longrightarrow> room n (push x s)"
    and room_le: "m \<le> n \<Longrightarrow> room n s \<Longrightarrow> room m s"
begin

definition push_all :: "'a list \<Rightarrow> 's \<Rightarrow> 's" where
  "push_all xs s = foldl (\<lambda>t x. push x t) s xs"

lemma push_all_Nil [simp]: "push_all [] s = s"
  by (simp add: push_all_def)

lemma push_all_snoc: "push_all (xs @ [x]) s = push x (push_all xs s)"
  by (simp add: push_all_def)

lemma room_push_all: "room (length xs + n) s \<Longrightarrow> room n (push_all xs s)"
proof (induction xs arbitrary: n rule: rev_induct)
  case (snoc x xs)
  then have "room (Suc n) (push_all xs s)" by simp
  then show ?case by (simp add: push_all_snoc room_push)
qed simp

lemma popListE_push_all:
  "room (length xs) s \<Longrightarrow> popListE (length xs) pop (push_all xs s) = (Inr (rev xs), s)"
proof (induction xs rule: rev_induct)
  case Nil
  then show ?case by (simp add: sm_simps)
next
  case (snoc x xs)
  have "room (Suc 0) (push_all xs s)"
    using snoc.prems room_push_all [of xs "Suc 0"] by simp
  then have pop: "pop (push_all (xs @ [x]) s) = (Inr x, push_all xs s)"
    by (simp add: push_all_snoc pop_push)
  have "popListE (length xs) pop (push_all xs s) = (Inr (rev xs), s)"
    using snoc.prems by (intro snoc.IH) (rule room_le [of _ "length (xs @ [x])"], simp_all)
  with pop show ?case by (simp add: sm_simps)
qed

end

interpretation ds: lifo "\<lambda>x s. s\<lparr>stk := stk s @ [x]\<rparr>" PopByteArray "\<lambda>n s. length (stk s) + n < 2 ^ 31"
  by unfold_locales (simp_all add: PopByteArray_snoc)

lemma ds_push_all: "ds.push_all xs s = s\<lparr>stk := stk s @ xs\<rparr>"
  by (induction xs rule: rev_induct) (simp_all add: ds.push_all_snoc)

lemma popListE_stack:
  assumes "length (xs @ ks) < 2 ^ 31" and "stk s = xs @ rev ks"
  shows "popListE (length ks) PopByteArray s = (Inr ks, s\<lparr>stk := xs\<rparr>)"
proof -
  have "ds.push_all (rev ks) (s\<lparr>stk := xs\<rparr>) = s"
    using assms(2) by (simp add: ds_push_all)
  then show ?thesis
    using ds.popListE_push_all [where xs = "rev ks" and s = "s\<lparr>stk := xs\<rparr>"] assms(1) by simp
qed

section \<open>Properties\<close>

text \<open>
  C20. The stack manipulations do what their documentation draws: with the top \<open>n\<close>, \<open>2n\<close> or \<open>3n\<close>
  items written as blocks of \<open>n\<close> items, \<open>DropN\<close> removes the top block, \<open>DupN\<close> repeats it, \<open>SwapN\<close>
  exchanges the two top blocks, \<open>OverN\<close> copies the second block to the top, and \<open>RotN\<close> moves the
  third block to the top; \<open>PickN\<close> copies and \<open>RollN\<close> moves one item from below \<open>n\<close> items.
\<close>

theorem stack_transformations:
  assumes "as \<noteq> []" and "length bs = length as" and "length cs = length as"
    and "length xs + 4 * length as < 2 ^ 31"
  shows "DropN (int (length as)) \<lparr>stk = xs @ as, verifyMinimalData = v\<rparr>
           = (Inr (), \<lparr>stk = xs, verifyMinimalData = v\<rparr>)
    \<and> DupN (int (length as)) \<lparr>stk = xs @ as, verifyMinimalData = v\<rparr>
           = (Inr (), \<lparr>stk = xs @ as @ as, verifyMinimalData = v\<rparr>)
    \<and> SwapN (int (length as)) \<lparr>stk = xs @ as @ bs, verifyMinimalData = v\<rparr>
           = (Inr (), \<lparr>stk = xs @ bs @ as, verifyMinimalData = v\<rparr>)
    \<and> OverN (int (length as)) \<lparr>stk = xs @ as @ bs, verifyMinimalData = v\<rparr>
           = (Inr (), \<lparr>stk = xs @ as @ bs @ as, verifyMinimalData = v\<rparr>)
    \<and> RotN (int (length as)) \<lparr>stk = xs @ as @ bs @ cs, verifyMinimalData = v\<rparr>
           = (Inr (), \<lparr>stk = xs @ bs @ cs @ as, verifyMinimalData = v\<rparr>)
    \<and> PickN (int (length as)) \<lparr>stk = xs @ x # as, verifyMinimalData = v\<rparr>
           = (Inr (), \<lparr>stk = xs @ x # as @ [x], verifyMinimalData = v\<rparr>)
    \<and> RollN (int (length as)) \<lparr>stk = xs @ x # as, verifyMinimalData = v\<rparr>
           = (Inr (), \<lparr>stk = xs @ as @ [x], verifyMinimalData = v\<rparr>)"
proof (intro conjI)
  let ?s = "\<lambda>k. \<lparr>stk = k, verifyMinimalData = v\<rparr>"
  have len: "Suc (length xs + length as) < 2 ^ 31"
    using assms(1,4) by (cases as) simp_all
  show "DropN (int (length as)) (?s (xs @ as)) = (Inr (), ?s xs)"
    using DropN_spec [of "?s (xs @ as)" xs as] assms by simp
  show "DupN (int (length as)) (?s (xs @ as)) = (Inr (), ?s (xs @ as @ as))"
    using DupN_spec [of xs as "?s (xs @ as)"] assms by simp
  show "SwapN (int (length as)) (?s (xs @ as @ bs)) = (Inr (), ?s (xs @ bs @ as))"
    using SwapN_spec [of xs as bs "?s (xs @ as @ bs)"] assms by simp
  show "OverN (int (length as)) (?s (xs @ as @ bs)) = (Inr (), ?s (xs @ as @ bs @ as))"
    using OverN_spec [of xs as bs "?s (xs @ as @ bs)"] assms by simp
  show "RotN (int (length as)) (?s (xs @ as @ bs @ cs)) = (Inr (), ?s (xs @ bs @ cs @ as))"
    using RotN_spec [of xs as bs cs "?s (xs @ as @ bs @ cs)"] assms by simp
  show "PickN (int (length as)) (?s (xs @ x # as)) = (Inr (), ?s (xs @ x # as @ [x]))"
    using PeekByteArray_split [of "?s (xs @ x # as)" xs x as] len
    by (simp add: PickN_def sm_simps)
  show "RollN (int (length as)) (?s (xs @ x # as)) = (Inr (), ?s (xs @ as @ [x]))"
    using nipN_split [of "?s (xs @ x # as)" xs x as] len
    by (simp add: RollN_def sm_simps)
qed

theorem stack_transformations_witness:
  "RotN 2 \<lparr>stk = [[9], [1], [2], [3], [4], [5], [6]], verifyMinimalData = True\<rparr>
     = (Inr (), \<lparr>stk = [[9], [3], [4], [5], [6], [1], [2]], verifyMinimalData = True\<rparr>)"
  using stack_transformations [of "[[1], [2]]" "[[3], [4]]" "[[5], [6]]" "[[9]]" True "[]"] by simp

text \<open>
  C21. A manipulation that needs more items than the stack holds reports a stack underflow and
  nothing else; an argument below one is rejected as invalid before the stack is touched.
\<close>

theorem stack_underflow:
  assumes "length (stk s) < 2 ^ 31" and "1 \<le> n" and "n < 2 ^ 29"
  shows "(int (length (stk s)) < n \<longrightarrow> fst (DropN n s) = Inl ErrStackUnderflow
                               \<and> DupN n s = (Inl ErrStackUnderflow, s))
    \<and> (int (length (stk s)) < 2 * n \<longrightarrow> SwapN n s = (Inl ErrStackUnderflow, s)
                               \<and> OverN n s = (Inl ErrStackUnderflow, s))
    \<and> (int (length (stk s)) < 3 * n \<longrightarrow> RotN n s = (Inl ErrStackUnderflow, s))
    \<and> DropN (1 - n) s = (Inl ErrStackInvalidArgs, s)
    \<and> DupN (1 - n) s = (Inl ErrStackInvalidArgs, s)
    \<and> SwapN (1 - n) s = (Inl ErrStackInvalidArgs, s)
    \<and> OverN (1 - n) s = (Inl ErrStackInvalidArgs, s)
    \<and> RotN (1 - n) s = (Inl ErrStackInvalidArgs, s)"
proof (intro conjI impI)
  obtain k where k: "nat n = Suc k"
    using assms(2) by (cases "nat n") auto
  have e2: "i32 (2 * n - 1) = 2 * n - 1" and e3: "i32 (3 * n - 1) = 3 * n - 1"
    using assms by (simp_all add: i32_id)
  show "fst (DropN n s) = Inl ErrStackUnderflow" if "int (length (stk s)) < n"
  proof -
    have fails: "length (stk t) < 2 ^ 31 \<Longrightarrow> length (stk t) < m \<Longrightarrow>
      fst (repeatE m (bindE PopByteArray (\<lambda>_. returnE ())) t) = Inl ErrStackUnderflow" for m t
    proof (induction m arbitrary: t)
      case (Suc m)
      show ?case
      proof (cases "stk t" rule: rev_cases)
        case Nil
        then show ?thesis by (simp add: sm_simps PopByteArray_empty)
      next
        case (snoc ys y)
        with Suc.prems Suc.IH [of "t\<lparr>stk := ys\<rparr>"] show ?thesis
          by (simp add: sm_simps PopByteArray_snoc [OF _ snoc])
      qed
    qed simp
    show ?thesis
      using that assms fails [of s "nat n"] by (simp add: DropN_def)
  qed
  show "DupN n s = (Inl ErrStackUnderflow, s)" if "int (length (stk s)) < n"
    using that assms k PeekByteArray_underflow [of s "n - 1"] by (simp add: DupN_def sm_simps)
  show "SwapN n s = (Inl ErrStackUnderflow, s)" if "int (length (stk s)) < 2 * n"
    using that assms k nipN_underflow [of s "2 * n - 1"] by (simp add: SwapN_def sm_simps e2 Let_def)
  show "OverN n s = (Inl ErrStackUnderflow, s)" if "int (length (stk s)) < 2 * n"
    using that assms k PeekByteArray_underflow [of s "2 * n - 1"] by (simp add: OverN_def sm_simps e2 Let_def)
  show "RotN n s = (Inl ErrStackUnderflow, s)" if "int (length (stk s)) < 3 * n"
    using that assms k nipN_underflow [of s "3 * n - 1"] by (simp add: RotN_def sm_simps e3 Let_def)
qed (use assms in \<open>simp_all add: DropN_def DupN_def SwapN_def OverN_def RotN_def sm_simps\<close>)

theorem stack_underflow_witness:
  "SwapN 2 \<lparr>stk = [[1], [2], [3]], verifyMinimalData = True\<rparr>
     = (Inl ErrStackUnderflow, \<lparr>stk = [[1], [2], [3]], verifyMinimalData = True\<rparr>)"
  using stack_underflow [of "\<lparr>stk = [[1], [2], [3]], verifyMinimalData = True\<rparr>" 2] by simp

end
