(* ===== verification/Opcode.thy ===== *)
theory Opcode
  imports ScriptStack
begin

text \<open>
  The opcode table and the parsed opcodes of the script engine: the declarations and the
  \<open>parsedOpcode\<close> methods of \<open>src/tokenengine/internal/txscript/opcode.go\<close>. The table is written row by
  row as in the source, one list per commented section; \<open>opfunc\<close> names the handler of a row, whose
  behaviour is the subject of a later theory.
\<close>

section \<open>Model\<close>

subsection \<open>Opcode values\<close>

abbreviation (input) OP_0 :: byte where "OP_0 \<equiv> 0x00"
abbreviation (input) OP_DATA_1 :: byte where "OP_DATA_1 \<equiv> 0x01"
abbreviation (input) OP_DATA_20 :: byte where "OP_DATA_20 \<equiv> 0x14"
abbreviation (input) OP_DATA_75 :: byte where "OP_DATA_75 \<equiv> 0x4b"
abbreviation (input) OP_PUSHDATA1 :: byte where "OP_PUSHDATA1 \<equiv> 0x4c"
abbreviation (input) OP_PUSHDATA2 :: byte where "OP_PUSHDATA2 \<equiv> 0x4d"
abbreviation (input) OP_PUSHDATA4 :: byte where "OP_PUSHDATA4 \<equiv> 0x4e"
abbreviation (input) OP_1NEGATE :: byte where "OP_1NEGATE \<equiv> 0x4f"
abbreviation (input) OP_RESERVED :: byte where "OP_RESERVED \<equiv> 0x50"
abbreviation (input) OP_1 :: byte where "OP_1 \<equiv> 0x51"
abbreviation (input) OP_16 :: byte where "OP_16 \<equiv> 0x60"
abbreviation (input) OP_NOP :: byte where "OP_NOP \<equiv> 0x61"
abbreviation (input) OP_IF :: byte where "OP_IF \<equiv> 0x63"
abbreviation (input) OP_NOTIF :: byte where "OP_NOTIF \<equiv> 0x64"
abbreviation (input) OP_VERIF :: byte where "OP_VERIF \<equiv> 0x65"
abbreviation (input) OP_VERNOTIF :: byte where "OP_VERNOTIF \<equiv> 0x66"
abbreviation (input) OP_ELSE :: byte where "OP_ELSE \<equiv> 0x67"
abbreviation (input) OP_ENDIF :: byte where "OP_ENDIF \<equiv> 0x68"
abbreviation (input) OP_VERIFY :: byte where "OP_VERIFY \<equiv> 0x69"
abbreviation (input) OP_RETURN :: byte where "OP_RETURN \<equiv> 0x6a"
abbreviation (input) OP_DUP :: byte where "OP_DUP \<equiv> 0x76"
abbreviation (input) OP_CAT :: byte where "OP_CAT \<equiv> 0x7e"
abbreviation (input) OP_SUBSTR :: byte where "OP_SUBSTR \<equiv> 0x7f"
abbreviation (input) OP_LEFT :: byte where "OP_LEFT \<equiv> 0x80"
abbreviation (input) OP_RIGHT :: byte where "OP_RIGHT \<equiv> 0x81"
abbreviation (input) OP_INVERT :: byte where "OP_INVERT \<equiv> 0x83"
abbreviation (input) OP_AND :: byte where "OP_AND \<equiv> 0x84"
abbreviation (input) OP_OR :: byte where "OP_OR \<equiv> 0x85"
abbreviation (input) OP_XOR :: byte where "OP_XOR \<equiv> 0x86"
abbreviation (input) OP_EQUAL :: byte where "OP_EQUAL \<equiv> 0x87"
abbreviation (input) OP_EQUALVERIFY :: byte where "OP_EQUALVERIFY \<equiv> 0x88"
abbreviation (input) OP_2MUL :: byte where "OP_2MUL \<equiv> 0x8d"
abbreviation (input) OP_2DIV :: byte where "OP_2DIV \<equiv> 0x8e"
abbreviation (input) OP_MUL :: byte where "OP_MUL \<equiv> 0x95"
abbreviation (input) OP_DIV :: byte where "OP_DIV \<equiv> 0x96"
abbreviation (input) OP_MOD :: byte where "OP_MOD \<equiv> 0x97"
abbreviation (input) OP_LSHIFT :: byte where "OP_LSHIFT \<equiv> 0x98"
abbreviation (input) OP_RSHIFT :: byte where "OP_RSHIFT \<equiv> 0x99"
abbreviation (input) OP_HASH160 :: byte where "OP_HASH160 \<equiv> 0xa9"
abbreviation (input) OP_CODESEPARATOR :: byte where "OP_CODESEPARATOR \<equiv> 0xab"
abbreviation (input) OP_CHECKSIG :: byte where "OP_CHECKSIG \<equiv> 0xac"
abbreviation (input) OP_CHECKSIGVERIFY :: byte where "OP_CHECKSIGVERIFY \<equiv> 0xad"
abbreviation (input) OP_CHECKMULTISIG :: byte where "OP_CHECKMULTISIG \<equiv> 0xae"
abbreviation (input) OP_CHECKMULTISIGVERIFY :: byte where "OP_CHECKMULTISIGVERIFY \<equiv> 0xaf"
abbreviation (input) OP_NOP1 :: byte where "OP_NOP1 \<equiv> 0xb0"
abbreviation (input) OP_NOP10 :: byte where "OP_NOP10 \<equiv> 0xb9"
abbreviation (input) OP_JURY_REDEEM_EQUAL :: byte where "OP_JURY_REDEEM_EQUAL \<equiv> 0xc8"

subsection \<open>The opcode table\<close>

datatype opfunc =
    fn_nil
    | fn_opcodeFalse | fn_opcodePushData | fn_opcode1Negate | fn_opcodeReserved | fn_opcodeN
    | fn_opcodeNop | fn_opcodeIf | fn_opcodeNotIf | fn_opcodeElse | fn_opcodeEndif
    | fn_opcodeVerify | fn_opcodeCheckLockTimeVerify | fn_opcodeToAltStack
    | fn_opcodeFromAltStack | fn_opcode2Drop | fn_opcode2Dup | fn_opcode3Dup | fn_opcode2Over
    | fn_opcode2Rot | fn_opcode2Swap | fn_opcodeIfDup | fn_opcodeDepth | fn_opcodeDrop
    | fn_opcodeDup | fn_opcodeNip | fn_opcodeOver | fn_opcodePick | fn_opcodeRoll | fn_opcodeRot
    | fn_opcodeSwap | fn_opcodeTuck | fn_opcodeDisabled | fn_opcodeSize | fn_opcodeEqual
    | fn_opcodeEqualVerify | fn_opcode1Add | fn_opcode1Sub | fn_opcodeNegate | fn_opcodeAbs
    | fn_opcodeNot | fn_opcode0NotEqual | fn_opcodeAdd | fn_opcodeSub | fn_opcodeBoolAnd
    | fn_opcodeBoolOr | fn_opcodeNumEqual | fn_opcodeNumEqualVerify | fn_opcodeNumNotEqual
    | fn_opcodeLessThan | fn_opcodeGreaterThan | fn_opcodeLessThanOrEqual
    | fn_opcodeGreaterThanOrEqual | fn_opcodeMin | fn_opcodeMax | fn_opcodeWithin
    | fn_opcodeRipemd160 | fn_opcodeSha1 | fn_opcodeSha256 | fn_opcodeHash160 | fn_opcodeHash256
    | fn_opcodeCodeSeparator | fn_opcodeCheckSig | fn_opcodeCheckSigVerify
    | fn_opcodeCheckMultiSig | fn_opcodeCheckMultiSigVerify | fn_opcodeInvalid
    | fn_opcodeCheckJuryRedeemEqual

record opcode =
  ovalue :: byte
  oname :: string
  olength :: int
  opfunc :: opfunc

text \<open>A row of the keyed array literal; its key and its \<open>value\<close> field are the same constant in every row.\<close>

abbreviation row :: "byte \<Rightarrow> string \<Rightarrow> int \<Rightarrow> opfunc \<Rightarrow> byte \<times> opcode" where
  "row v n l f \<equiv> (v, \<lparr>ovalue = v, oname = n, olength = l, opfunc = f\<rparr>)"

definition opcodes_push :: "(byte \<times> opcode) list" where
  "opcodes_push = [
    row 0x00 ''OP_0'' 1 fn_opcodeFalse,
    row 0x01 ''OP_DATA_1'' 2 fn_opcodePushData,
    row 0x02 ''OP_DATA_2'' 3 fn_opcodePushData,
    row 0x03 ''OP_DATA_3'' 4 fn_opcodePushData,
    row 0x04 ''OP_DATA_4'' 5 fn_opcodePushData,
    row 0x05 ''OP_DATA_5'' 6 fn_opcodePushData,
    row 0x06 ''OP_DATA_6'' 7 fn_opcodePushData,
    row 0x07 ''OP_DATA_7'' 8 fn_opcodePushData,
    row 0x08 ''OP_DATA_8'' 9 fn_opcodePushData,
    row 0x09 ''OP_DATA_9'' 10 fn_opcodePushData,
    row 0x0a ''OP_DATA_10'' 11 fn_opcodePushData,
    row 0x0b ''OP_DATA_11'' 12 fn_opcodePushData,
    row 0x0c ''OP_DATA_12'' 13 fn_opcodePushData,
    row 0x0d ''OP_DATA_13'' 14 fn_opcodePushData,
    row 0x0e ''OP_DATA_14'' 15 fn_opcodePushData,
    row 0x0f ''OP_DATA_15'' 16 fn_opcodePushData,
    row 0x10 ''OP_DATA_16'' 17 fn_opcodePushData,
    row 0x11 ''OP_DATA_17'' 18 fn_opcodePushData,
    row 0x12 ''OP_DATA_18'' 19 fn_opcodePushData,
    row 0x13 ''OP_DATA_19'' 20 fn_opcodePushData,
    row 0x14 ''OP_DATA_20'' 21 fn_opcodePushData,
    row 0x15 ''OP_DATA_21'' 22 fn_opcodePushData,
    row 0x16 ''OP_DATA_22'' 23 fn_opcodePushData,
    row 0x17 ''OP_DATA_23'' 24 fn_opcodePushData,
    row 0x18 ''OP_DATA_24'' 25 fn_opcodePushData,
    row 0x19 ''OP_DATA_25'' 26 fn_opcodePushData,
    row 0x1a ''OP_DATA_26'' 27 fn_opcodePushData,
    row 0x1b ''OP_DATA_27'' 28 fn_opcodePushData,
    row 0x1c ''OP_DATA_28'' 29 fn_opcodePushData,
    row 0x1d ''OP_DATA_29'' 30 fn_opcodePushData,
    row 0x1e ''OP_DATA_30'' 31 fn_opcodePushData,
    row 0x1f ''OP_DATA_31'' 32 fn_opcodePushData,
    row 0x20 ''OP_DATA_32'' 33 fn_opcodePushData,
    row 0x21 ''OP_DATA_33'' 34 fn_opcodePushData,
    row 0x22 ''OP_DATA_34'' 35 fn_opcodePushData,
    row 0x23 ''OP_DATA_35'' 36 fn_opcodePushData,
    row 0x24 ''OP_DATA_36'' 37 fn_opcodePushData,
    row 0x25 ''OP_DATA_37'' 38 fn_opcodePushData,
    row 0x26 ''OP_DATA_38'' 39 fn_opcodePushData,
    row 0x27 ''OP_DATA_39'' 40 fn_opcodePushData,
    row 0x28 ''OP_DATA_40'' 41 fn_opcodePushData,
    row 0x29 ''OP_DATA_41'' 42 fn_opcodePushData,
    row 0x2a ''OP_DATA_42'' 43 fn_opcodePushData,
    row 0x2b ''OP_DATA_43'' 44 fn_opcodePushData,
    row 0x2c ''OP_DATA_44'' 45 fn_opcodePushData,
    row 0x2d ''OP_DATA_45'' 46 fn_opcodePushData,
    row 0x2e ''OP_DATA_46'' 47 fn_opcodePushData,
    row 0x2f ''OP_DATA_47'' 48 fn_opcodePushData,
    row 0x30 ''OP_DATA_48'' 49 fn_opcodePushData,
    row 0x31 ''OP_DATA_49'' 50 fn_opcodePushData,
    row 0x32 ''OP_DATA_50'' 51 fn_opcodePushData,
    row 0x33 ''OP_DATA_51'' 52 fn_opcodePushData,
    row 0x34 ''OP_DATA_52'' 53 fn_opcodePushData,
    row 0x35 ''OP_DATA_53'' 54 fn_opcodePushData,
    row 0x36 ''OP_DATA_54'' 55 fn_opcodePushData,
    row 0x37 ''OP_DATA_55'' 56 fn_opcodePushData,
    row 0x38 ''OP_DATA_56'' 57 fn_opcodePushData,
    row 0x39 ''OP_DATA_57'' 58 fn_opcodePushData,
    row 0x3a ''OP_DATA_58'' 59 fn_opcodePushData,
    row 0x3b ''OP_DATA_59'' 60 fn_opcodePushData,
    row 0x3c ''OP_DATA_60'' 61 fn_opcodePushData,
    row 0x3d ''OP_DATA_61'' 62 fn_opcodePushData,
    row 0x3e ''OP_DATA_62'' 63 fn_opcodePushData,
    row 0x3f ''OP_DATA_63'' 64 fn_opcodePushData,
    row 0x40 ''OP_DATA_64'' 65 fn_opcodePushData,
    row 0x41 ''OP_DATA_65'' 66 fn_opcodePushData,
    row 0x42 ''OP_DATA_66'' 67 fn_opcodePushData,
    row 0x43 ''OP_DATA_67'' 68 fn_opcodePushData,
    row 0x44 ''OP_DATA_68'' 69 fn_opcodePushData,
    row 0x45 ''OP_DATA_69'' 70 fn_opcodePushData,
    row 0x46 ''OP_DATA_70'' 71 fn_opcodePushData,
    row 0x47 ''OP_DATA_71'' 72 fn_opcodePushData,
    row 0x48 ''OP_DATA_72'' 73 fn_opcodePushData,
    row 0x49 ''OP_DATA_73'' 74 fn_opcodePushData,
    row 0x4a ''OP_DATA_74'' 75 fn_opcodePushData,
    row 0x4b ''OP_DATA_75'' 76 fn_opcodePushData,
    row 0x4c ''OP_PUSHDATA1'' (-1) fn_opcodePushData,
    row 0x4d ''OP_PUSHDATA2'' (-2) fn_opcodePushData,
    row 0x4e ''OP_PUSHDATA4'' (-4) fn_opcodePushData,
    row 0x4f ''OP_1NEGATE'' 1 fn_opcode1Negate,
    row 0x50 ''OP_RESERVED'' 1 fn_opcodeReserved,
    row 0x51 ''OP_1'' 1 fn_opcodeN,
    row 0x52 ''OP_2'' 1 fn_opcodeN,
    row 0x53 ''OP_3'' 1 fn_opcodeN,
    row 0x54 ''OP_4'' 1 fn_opcodeN,
    row 0x55 ''OP_5'' 1 fn_opcodeN,
    row 0x56 ''OP_6'' 1 fn_opcodeN,
    row 0x57 ''OP_7'' 1 fn_opcodeN,
    row 0x58 ''OP_8'' 1 fn_opcodeN,
    row 0x59 ''OP_9'' 1 fn_opcodeN,
    row 0x5a ''OP_10'' 1 fn_opcodeN,
    row 0x5b ''OP_11'' 1 fn_opcodeN,
    row 0x5c ''OP_12'' 1 fn_opcodeN,
    row 0x5d ''OP_13'' 1 fn_opcodeN,
    row 0x5e ''OP_14'' 1 fn_opcodeN,
    row 0x5f ''OP_15'' 1 fn_opcodeN,
    row 0x60 ''OP_16'' 1 fn_opcodeN]"

definition opcodes_control :: "(byte \<times> opcode) list" where
  "opcodes_control = [
    row 0x61 ''OP_NOP'' 1 fn_opcodeNop,
    row 0x62 ''OP_VER'' 1 fn_opcodeReserved,
    row 0x63 ''OP_IF'' 1 fn_opcodeIf,
    row 0x64 ''OP_NOTIF'' 1 fn_opcodeNotIf,
    row 0x65 ''OP_VERIF'' 1 fn_opcodeReserved,
    row 0x66 ''OP_VERNOTIF'' 1 fn_opcodeReserved,
    row 0x67 ''OP_ELSE'' 1 fn_opcodeElse,
    row 0x68 ''OP_ENDIF'' 1 fn_opcodeEndif,
    row 0x69 ''OP_VERIFY'' 1 fn_opcodeVerify,
    row 0x6a ''OP_RETURN'' 1 fn_opcodeFalse,
    row 0xb1 ''OP_CHECKLOCKTIMEVERIFY'' 1 fn_opcodeCheckLockTimeVerify]"

definition opcodes_stack :: "(byte \<times> opcode) list" where
  "opcodes_stack = [
    row 0x6b ''OP_TOALTSTACK'' 1 fn_opcodeToAltStack,
    row 0x6c ''OP_FROMALTSTACK'' 1 fn_opcodeFromAltStack,
    row 0x6d ''OP_2DROP'' 1 fn_opcode2Drop,
    row 0x6e ''OP_2DUP'' 1 fn_opcode2Dup,
    row 0x6f ''OP_3DUP'' 1 fn_opcode3Dup,
    row 0x70 ''OP_2OVER'' 1 fn_opcode2Over,
    row 0x71 ''OP_2ROT'' 1 fn_opcode2Rot,
    row 0x72 ''OP_2SWAP'' 1 fn_opcode2Swap,
    row 0x73 ''OP_IFDUP'' 1 fn_opcodeIfDup,
    row 0x74 ''OP_DEPTH'' 1 fn_opcodeDepth,
    row 0x75 ''OP_DROP'' 1 fn_opcodeDrop,
    row 0x76 ''OP_DUP'' 1 fn_opcodeDup,
    row 0x77 ''OP_NIP'' 1 fn_opcodeNip,
    row 0x78 ''OP_OVER'' 1 fn_opcodeOver,
    row 0x79 ''OP_PICK'' 1 fn_opcodePick,
    row 0x7a ''OP_ROLL'' 1 fn_opcodeRoll,
    row 0x7b ''OP_ROT'' 1 fn_opcodeRot,
    row 0x7c ''OP_SWAP'' 1 fn_opcodeSwap,
    row 0x7d ''OP_TUCK'' 1 fn_opcodeTuck]"

definition opcodes_splice :: "(byte \<times> opcode) list" where
  "opcodes_splice = [
    row 0x7e ''OP_CAT'' 1 fn_opcodeDisabled,
    row 0x7f ''OP_SUBSTR'' 1 fn_opcodeDisabled,
    row 0x80 ''OP_LEFT'' 1 fn_opcodeDisabled,
    row 0x81 ''OP_RIGHT'' 1 fn_opcodeDisabled,
    row 0x82 ''OP_SIZE'' 1 fn_opcodeSize]"

definition opcodes_bitwise :: "(byte \<times> opcode) list" where
  "opcodes_bitwise = [
    row 0x83 ''OP_INVERT'' 1 fn_opcodeDisabled,
    row 0x84 ''OP_AND'' 1 fn_opcodeDisabled,
    row 0x85 ''OP_OR'' 1 fn_opcodeDisabled,
    row 0x86 ''OP_XOR'' 1 fn_opcodeDisabled,
    row 0x87 ''OP_EQUAL'' 1 fn_opcodeEqual,
    row 0x88 ''OP_EQUALVERIFY'' 1 fn_opcodeEqualVerify,
    row 0x89 ''OP_RESERVED1'' 1 fn_opcodeReserved,
    row 0x8a ''OP_RESERVED2'' 1 fn_opcodeReserved]"

definition opcodes_numeric :: "(byte \<times> opcode) list" where
  "opcodes_numeric = [
    row 0x8b ''OP_1ADD'' 1 fn_opcode1Add,
    row 0x8c ''OP_1SUB'' 1 fn_opcode1Sub,
    row 0x8d ''OP_2MUL'' 1 fn_opcodeDisabled,
    row 0x8e ''OP_2DIV'' 1 fn_opcodeDisabled,
    row 0x8f ''OP_NEGATE'' 1 fn_opcodeNegate,
    row 0x90 ''OP_ABS'' 1 fn_opcodeAbs,
    row 0x91 ''OP_NOT'' 1 fn_opcodeNot,
    row 0x92 ''OP_0NOTEQUAL'' 1 fn_opcode0NotEqual,
    row 0x93 ''OP_ADD'' 1 fn_opcodeAdd,
    row 0x94 ''OP_SUB'' 1 fn_opcodeSub,
    row 0x95 ''OP_MUL'' 1 fn_opcodeDisabled,
    row 0x96 ''OP_DIV'' 1 fn_opcodeDisabled,
    row 0x97 ''OP_MOD'' 1 fn_opcodeDisabled,
    row 0x98 ''OP_LSHIFT'' 1 fn_opcodeDisabled,
    row 0x99 ''OP_RSHIFT'' 1 fn_opcodeDisabled,
    row 0x9a ''OP_BOOLAND'' 1 fn_opcodeBoolAnd,
    row 0x9b ''OP_BOOLOR'' 1 fn_opcodeBoolOr,
    row 0x9c ''OP_NUMEQUAL'' 1 fn_opcodeNumEqual,
    row 0x9d ''OP_NUMEQUALVERIFY'' 1 fn_opcodeNumEqualVerify,
    row 0x9e ''OP_NUMNOTEQUAL'' 1 fn_opcodeNumNotEqual,
    row 0x9f ''OP_LESSTHAN'' 1 fn_opcodeLessThan,
    row 0xa0 ''OP_GREATERTHAN'' 1 fn_opcodeGreaterThan,
    row 0xa1 ''OP_LESSTHANOREQUAL'' 1 fn_opcodeLessThanOrEqual,
    row 0xa2 ''OP_GREATERTHANOREQUAL'' 1 fn_opcodeGreaterThanOrEqual,
    row 0xa3 ''OP_MIN'' 1 fn_opcodeMin,
    row 0xa4 ''OP_MAX'' 1 fn_opcodeMax,
    row 0xa5 ''OP_WITHIN'' 1 fn_opcodeWithin]"

definition opcodes_crypto :: "(byte \<times> opcode) list" where
  "opcodes_crypto = [
    row 0xa6 ''OP_RIPEMD160'' 1 fn_opcodeRipemd160,
    row 0xa7 ''OP_SHA1'' 1 fn_opcodeSha1,
    row 0xa8 ''OP_SHA256'' 1 fn_opcodeSha256,
    row 0xa9 ''OP_HASH160'' 1 fn_opcodeHash160,
    row 0xaa ''OP_HASH256'' 1 fn_opcodeHash256,
    row 0xab ''OP_CODESEPARATOR'' 1 fn_opcodeCodeSeparator,
    row 0xac ''OP_CHECKSIG'' 1 fn_opcodeCheckSig,
    row 0xad ''OP_CHECKSIGVERIFY'' 1 fn_opcodeCheckSigVerify,
    row 0xae ''OP_CHECKMULTISIG'' 1 fn_opcodeCheckMultiSig,
    row 0xaf ''OP_CHECKMULTISIGVERIFY'' 1 fn_opcodeCheckMultiSigVerify]"

definition opcodes_reserved :: "(byte \<times> opcode) list" where
  "opcodes_reserved = [
    row 0xb0 ''OP_NOP1'' 1 fn_opcodeNop,
    row 0xb2 ''OP_NOP3'' 1 fn_opcodeNop,
    row 0xb3 ''OP_NOP4'' 1 fn_opcodeNop,
    row 0xb4 ''OP_NOP5'' 1 fn_opcodeNop,
    row 0xb5 ''OP_NOP6'' 1 fn_opcodeNop,
    row 0xb6 ''OP_NOP7'' 1 fn_opcodeNop,
    row 0xb7 ''OP_NOP8'' 1 fn_opcodeNop,
    row 0xb8 ''OP_NOP9'' 1 fn_opcodeNop,
    row 0xb9 ''OP_NOP10'' 1 fn_opcodeNop]"

definition opcodes_undefined :: "(byte \<times> opcode) list" where
  "opcodes_undefined = [
    row 0xba ''OP_UNKNOWN186'' 1 fn_opcodeInvalid,
    row 0xbb ''OP_UNKNOWN187'' 1 fn_opcodeInvalid,
    row 0xbc ''OP_UNKNOWN188'' 1 fn_opcodeInvalid,
    row 0xbd ''OP_UNKNOWN189'' 1 fn_opcodeInvalid,
    row 0xbe ''OP_UNKNOWN190'' 1 fn_opcodeInvalid,
    row 0xbf ''OP_UNKNOWN191'' 1 fn_opcodeInvalid,
    row 0xc0 ''OP_UNKNOWN192'' 1 fn_opcodeInvalid,
    row 0xc1 ''OP_UNKNOWN193'' 1 fn_opcodeInvalid,
    row 0xc2 ''OP_UNKNOWN194'' 1 fn_opcodeInvalid,
    row 0xc3 ''OP_UNKNOWN195'' 1 fn_opcodeInvalid,
    row 0xc4 ''OP_UNKNOWN196'' 1 fn_opcodeInvalid,
    row 0xc5 ''OP_UNKNOWN197'' 1 fn_opcodeInvalid,
    row 0xc6 ''OP_UNKNOWN198'' 1 fn_opcodeInvalid,
    row 0xc7 ''OP_UNKNOWN199'' 1 fn_opcodeInvalid,
    row 0xc8 ''OP_JURY_REDEEM_EQUAL'' 1 fn_opcodeCheckJuryRedeemEqual,
    row 0xc9 ''OP_UNKNOWN201'' 1 fn_opcodeInvalid,
    row 0xca ''OP_UNKNOWN202'' 1 fn_opcodeInvalid,
    row 0xcb ''OP_UNKNOWN203'' 1 fn_opcodeInvalid,
    row 0xcc ''OP_UNKNOWN204'' 1 fn_opcodeInvalid,
    row 0xcd ''OP_UNKNOWN205'' 1 fn_opcodeInvalid,
    row 0xce ''OP_UNKNOWN206'' 1 fn_opcodeInvalid,
    row 0xcf ''OP_UNKNOWN207'' 1 fn_opcodeInvalid,
    row 0xd0 ''OP_UNKNOWN208'' 1 fn_opcodeInvalid,
    row 0xd1 ''OP_UNKNOWN209'' 1 fn_opcodeInvalid,
    row 0xd2 ''OP_UNKNOWN210'' 1 fn_opcodeInvalid,
    row 0xd3 ''OP_UNKNOWN211'' 1 fn_opcodeInvalid,
    row 0xd4 ''OP_UNKNOWN212'' 1 fn_opcodeInvalid,
    row 0xd5 ''OP_UNKNOWN213'' 1 fn_opcodeInvalid,
    row 0xd6 ''OP_UNKNOWN214'' 1 fn_opcodeInvalid,
    row 0xd7 ''OP_UNKNOWN215'' 1 fn_opcodeInvalid,
    row 0xd8 ''OP_UNKNOWN216'' 1 fn_opcodeInvalid,
    row 0xd9 ''OP_UNKNOWN217'' 1 fn_opcodeInvalid,
    row 0xda ''OP_UNKNOWN218'' 1 fn_opcodeInvalid,
    row 0xdb ''OP_UNKNOWN219'' 1 fn_opcodeInvalid,
    row 0xdc ''OP_UNKNOWN220'' 1 fn_opcodeInvalid,
    row 0xdd ''OP_UNKNOWN221'' 1 fn_opcodeInvalid,
    row 0xde ''OP_UNKNOWN222'' 1 fn_opcodeInvalid,
    row 0xdf ''OP_UNKNOWN223'' 1 fn_opcodeInvalid,
    row 0xe0 ''OP_UNKNOWN224'' 1 fn_opcodeInvalid,
    row 0xe1 ''OP_UNKNOWN225'' 1 fn_opcodeInvalid,
    row 0xe2 ''OP_UNKNOWN226'' 1 fn_opcodeInvalid,
    row 0xe3 ''OP_UNKNOWN227'' 1 fn_opcodeInvalid,
    row 0xe4 ''OP_UNKNOWN228'' 1 fn_opcodeInvalid,
    row 0xe5 ''OP_UNKNOWN229'' 1 fn_opcodeInvalid,
    row 0xe6 ''OP_UNKNOWN230'' 1 fn_opcodeInvalid,
    row 0xe7 ''OP_UNKNOWN231'' 1 fn_opcodeInvalid,
    row 0xe8 ''OP_UNKNOWN232'' 1 fn_opcodeInvalid,
    row 0xe9 ''OP_UNKNOWN233'' 1 fn_opcodeInvalid,
    row 0xea ''OP_UNKNOWN234'' 1 fn_opcodeInvalid,
    row 0xeb ''OP_UNKNOWN235'' 1 fn_opcodeInvalid,
    row 0xec ''OP_UNKNOWN236'' 1 fn_opcodeInvalid,
    row 0xed ''OP_UNKNOWN237'' 1 fn_opcodeInvalid,
    row 0xee ''OP_UNKNOWN238'' 1 fn_opcodeInvalid,
    row 0xef ''OP_UNKNOWN239'' 1 fn_opcodeInvalid,
    row 0xf0 ''OP_UNKNOWN240'' 1 fn_opcodeInvalid,
    row 0xf1 ''OP_UNKNOWN241'' 1 fn_opcodeInvalid,
    row 0xf2 ''OP_UNKNOWN242'' 1 fn_opcodeInvalid,
    row 0xf3 ''OP_UNKNOWN243'' 1 fn_opcodeInvalid,
    row 0xf4 ''OP_UNKNOWN244'' 1 fn_opcodeInvalid,
    row 0xf5 ''OP_UNKNOWN245'' 1 fn_opcodeInvalid,
    row 0xf6 ''OP_UNKNOWN246'' 1 fn_opcodeInvalid,
    row 0xf7 ''OP_UNKNOWN247'' 1 fn_opcodeInvalid,
    row 0xf8 ''OP_UNKNOWN248'' 1 fn_opcodeInvalid]"

definition opcodes_internal :: "(byte \<times> opcode) list" where
  "opcodes_internal = [
    row 0xf9 ''OP_SMALLDATA'' 1 fn_opcodeInvalid,
    row 0xfa ''OP_SMALLINTEGER'' 1 fn_opcodeInvalid,
    row 0xfb ''OP_PUBKEYS'' 1 fn_opcodeInvalid,
    row 0xfc ''OP_UNKNOWN252'' 1 fn_opcodeInvalid,
    row 0xfd ''OP_PUBKEYHASH'' 1 fn_opcodeInvalid,
    row 0xfe ''OP_PUBKEY'' 1 fn_opcodeInvalid,
    row 0xff ''OP_INVALIDOPCODE'' 1 fn_opcodeInvalid]"

definition opcodeRows :: "(byte \<times> opcode) list" where
  "opcodeRows = opcodes_push @ opcodes_control @ opcodes_stack @ opcodes_splice @ opcodes_bitwise
     @ opcodes_numeric @ opcodes_crypto @ opcodes_reserved @ opcodes_undefined @ opcodes_internal"

definition zero_opcode :: opcode where
  "zero_opcode = \<lparr>ovalue = 0, oname = [], olength = 0, opfunc = fn_nil\<rparr>"

text \<open>The keyed literal stores each row at its key; a key without a row holds the zero value.\<close>

definition opcodeArray :: "opcode list" where
  "opcodeArray = foldl (\<lambda>a (k, r). a[unat k := r]) (replicate 256 zero_opcode) opcodeRows"

definition opcodeAt :: "byte \<Rightarrow> opcode" where
  "opcodeAt b = opcodeArray ! unat b"

subsection \<open>Parsed opcodes\<close>

text \<open>The data of a parsed opcode is \<^const>\<open>None\<close> for Go's nil slice.\<close>

record parsedOpcode =
  popcode :: opcode
  pdata :: "bytes option"

definition pop_data :: "parsedOpcode \<Rightarrow> bytes" where
  "pop_data pop = (case pdata pop of None \<Rightarrow> [] | Some d \<Rightarrow> d)"

abbreviation pvalue :: "parsedOpcode \<Rightarrow> byte" where
  "pvalue pop \<equiv> ovalue (popcode pop)"

definition isDisabled :: "parsedOpcode \<Rightarrow> bool" where
  "isDisabled pop = (pvalue pop \<in> {OP_CAT, OP_SUBSTR, OP_LEFT, OP_RIGHT, OP_INVERT, OP_AND, OP_OR,
     OP_XOR, OP_2MUL, OP_2DIV, OP_MUL, OP_DIV, OP_MOD, OP_LSHIFT, OP_RSHIFT})"

definition alwaysIllegal :: "parsedOpcode \<Rightarrow> bool" where
  "alwaysIllegal pop = (pvalue pop \<in> {OP_VERIF, OP_VERNOTIF})"

definition isConditional :: "parsedOpcode \<Rightarrow> bool" where
  "isConditional pop = (pvalue pop \<in> {OP_IF, OP_NOTIF, OP_ELSE, OP_ENDIF})"

definition checkMinimalDataPush :: "parsedOpcode \<Rightarrow> script_error + unit" where
  "checkMinimalDataPush pop =
     (let data = pop_data pop; dataLen = length data; opcode = pvalue pop
      in if dataLen = 0 \<and> opcode \<noteq> OP_0 then Inl ErrStackMinimalData
         else if dataLen = 1 \<and> data ! 0 \<ge> 1 \<and> data ! 0 \<le> 16 then
           (if opcode \<noteq> OP_1 + data ! 0 - 1 then Inl ErrStackMinimalData else Inr ())
         else if dataLen = 1 \<and> data ! 0 = 0x81 then
           (if opcode \<noteq> OP_1NEGATE then Inl ErrStackMinimalData else Inr ())
         else if dataLen \<le> 75 then
           (if unat opcode \<noteq> dataLen then Inl ErrStackMinimalData else Inr ())
         else if dataLen \<le> 255 then
           (if opcode \<noteq> OP_PUSHDATA1 then Inl ErrStackMinimalData else Inr ())
         else if dataLen \<le> 65535 then
           (if opcode \<noteq> OP_PUSHDATA2 then Inl ErrStackMinimalData else Inr ())
         else Inr ())"

text \<open>The low \<open>k\<close> bytes of a length, least significant first.\<close>

primrec le_bytes :: "nat \<Rightarrow> nat \<Rightarrow> bytes" where
  "le_bytes 0 n = []"
| "le_bytes (Suc k) n = word_of_nat (n AND 0xff) # le_bytes k (drop_bit 8 n)"

definition pop_bytes :: "parsedOpcode \<Rightarrow> script_error + bytes" where
  "pop_bytes pop =
     (let op = popcode pop; data = pop_data pop
      in if olength op = 1 then
           (if data \<noteq> [] then Inl ErrStackInvalidOpcode else Inr [ovalue op])
         else
           (let l = length data;
                pre = (if olength op = -1 then ovalue op # le_bytes 1 l
                       else if olength op = -2 then ovalue op # le_bytes 2 l
                       else if olength op = -4 then ovalue op # le_bytes 4 l
                       else [ovalue op]);
                nbytes = (if olength op \<in> {-1, -2, -4} then le_val (tl pre) + int (length pre)
                          else olength op);
                retbytes = pre @ data
            in if int (length retbytes) \<noteq> nbytes then Inl ErrStackInvalidOpcode else Inr retbytes))"

section \<open>Facts about the table\<close>

lemma foldl_update_length: "length (foldl (\<lambda>a (k, r). a[f k := r]) a rs) = length a"
  by (induction rs arbitrary: a) (auto split: prod.splits)

lemma foldl_update_other:
  "n \<notin> f ` fst ` set rs \<Longrightarrow> foldl (\<lambda>a (k, r). a[f k := r]) a rs ! n = a ! n"
  by (induction rs arbitrary: a) (auto split: prod.splits)

lemma foldl_update_nth:
  assumes "distinct (map (f \<circ> fst) rs)" and "(k, r) \<in> set rs" and "f k < length a"
  shows "foldl (\<lambda>a (k, r). a[f k := r]) a rs ! f k = r"
  using assms
proof (induction rs arbitrary: a)
  case (Cons x rs)
  show ?case
  proof (cases "x = (k, r)")
    case True
    with Cons.prems show ?thesis
      by (auto simp: foldl_update_other image_image o_def)
  next
    case False
    with Cons.prems Cons.IH show ?thesis by (auto split: prod.splits)
  qed
qed simp

lemmas opcodeRows_simps = opcodeRows_def opcodes_push_def opcodes_control_def opcodes_stack_def
  opcodes_splice_def opcodes_bitwise_def opcodes_numeric_def opcodes_crypto_def
  opcodes_reserved_def opcodes_undefined_def opcodes_internal_def

lemma opcodeRows_keys:
  "map (unat \<circ> fst) opcodeRows = [0..<107] @ [177] @ [107..<177] @ [178..<256]"
  by (simp add: opcodeRows_simps upt_rec)

lemma opcodeRows_distinct: "distinct (map (unat \<circ> fst) opcodeRows)"
  unfolding opcodeRows_keys distinct_append set_append set_upt by auto

lemma opcodeArray_row: "(k, r) \<in> set opcodeRows \<Longrightarrow> opcodeAt k = r"
  unfolding opcodeAt_def opcodeArray_def
  by (rule foldl_update_nth) (simp_all add: unat_byte_less opcodeRows_distinct del: upt_rec_numeral)

lemma opcodeRows_complete: "\<exists>r. (k, r) \<in> set opcodeRows"
proof -
  have "unat k \<in> set (map (unat \<circ> fst) opcodeRows)"
    unfolding opcodeRows_keys set_append set_upt using unat_byte_less [of k] by auto
  then obtain a r where "(a, r) \<in> set opcodeRows" and "unat a = unat k"
    by auto
  then show ?thesis by (auto simp flip: word_unat_eq_iff)
qed

text \<open>A fact about every row of the table is a fact about every opcode.\<close>

lemma opcodeAt_all:
  assumes "list_all (\<lambda>(k, r). P k r) opcodeRows"
  shows "P b (opcodeAt b)"
proof -
  obtain r where r: "(b, r) \<in> set opcodeRows"
    using opcodeRows_complete by blast
  with assms have "P b r"
    by (auto simp: list_all_iff)
  with opcodeArray_row [OF r] show ?thesis by simp
qed

lemma ovalue_opcodeAt [simp]: "ovalue (opcodeAt b) = b"
  by (rule opcodeAt_all [where P = "\<lambda>b r. ovalue r = b"]) (simp add: opcodeRows_simps)

lemma olength_opcodeAt:
  "olength (opcodeAt b) =
     (if 1 \<le> b \<and> b \<le> OP_DATA_75 then uint b + 1
      else if b = OP_PUSHDATA1 then -1 else if b = OP_PUSHDATA2 then -2
      else if b = OP_PUSHDATA4 then -4 else 1)"
  by (rule opcodeAt_all [where P = "\<lambda>b r. olength r =
        (if 1 \<le> b \<and> b \<le> OP_DATA_75 then uint b + 1
         else if b = OP_PUSHDATA1 then -1 else if b = OP_PUSHDATA2 then -2
         else if b = OP_PUSHDATA4 then -4 else 1)"]) (simp add: opcodeRows_simps)

lemma opfunc_not_nil: "opfunc (opcodeAt b) \<noteq> fn_nil"
  by (rule opcodeAt_all [where P = "\<lambda>b r. opfunc r \<noteq> fn_nil"]) (simp add: opcodeRows_simps)

lemma opfunc_opcodeAt [simp]:
  "opfunc (opcodeAt OP_0) = fn_opcodeFalse"
  "opfunc (opcodeAt OP_PUSHDATA1) = fn_opcodePushData"
  "opfunc (opcodeAt OP_PUSHDATA2) = fn_opcodePushData"
  "opfunc (opcodeAt OP_PUSHDATA4) = fn_opcodePushData"
  "opfunc (opcodeAt OP_1NEGATE) = fn_opcode1Negate"
  "opfunc (opcodeAt OP_RETURN) = fn_opcodeFalse"
  "opfunc (opcodeAt OP_NOP) = fn_opcodeNop"
  "opfunc (opcodeAt OP_IF) = fn_opcodeIf"
  "opfunc (opcodeAt OP_NOTIF) = fn_opcodeNotIf"
  "opfunc (opcodeAt OP_ELSE) = fn_opcodeElse"
  "opfunc (opcodeAt OP_ENDIF) = fn_opcodeEndif"
  "opfunc (opcodeAt OP_VERIFY) = fn_opcodeVerify"
  "opfunc (opcodeAt OP_DUP) = fn_opcodeDup"
  "opfunc (opcodeAt OP_EQUAL) = fn_opcodeEqual"
  "opfunc (opcodeAt OP_EQUALVERIFY) = fn_opcodeEqualVerify"
  "opfunc (opcodeAt OP_HASH160) = fn_opcodeHash160"
  "opfunc (opcodeAt OP_CODESEPARATOR) = fn_opcodeCodeSeparator"
  "opfunc (opcodeAt OP_CHECKSIG) = fn_opcodeCheckSig"
  "opfunc (opcodeAt OP_CHECKSIGVERIFY) = fn_opcodeCheckSigVerify"
  "opfunc (opcodeAt OP_CHECKMULTISIG) = fn_opcodeCheckMultiSig"
  "opfunc (opcodeAt OP_CHECKMULTISIGVERIFY) = fn_opcodeCheckMultiSigVerify"
  "opfunc (opcodeAt OP_JURY_REDEEM_EQUAL) = fn_opcodeCheckJuryRedeemEqual"
  by (rule opcodeAt_all [where b = b and P = "\<lambda>b r. b = b0 \<longrightarrow> opfunc r = f" for b b0 f, rule_format, OF _ refl],
      simp add: opcodeRows_simps)+

lemma opfunc_push:
  "1 \<le> b \<Longrightarrow> b \<le> OP_PUSHDATA4 \<Longrightarrow> opfunc (opcodeAt b) = fn_opcodePushData"
  by (rule opcodeAt_all [where P = "\<lambda>b r. 1 \<le> b \<longrightarrow> b \<le> OP_PUSHDATA4 \<longrightarrow> opfunc r = fn_opcodePushData", rule_format])
    (simp_all add: opcodeRows_simps)

lemma opfunc_small_int:
  "OP_1 \<le> b \<Longrightarrow> b \<le> OP_16 \<Longrightarrow> opfunc (opcodeAt b) = fn_opcodeN"
  by (rule opcodeAt_all [where P = "\<lambda>b r. OP_1 \<le> b \<longrightarrow> b \<le> OP_16 \<longrightarrow> opfunc r = fn_opcodeN", rule_format])
    (simp_all add: opcodeRows_simps word_le_nat_alt)

end
