(* ===== verification/Script.thy ===== *)
theory Script
  imports Opcode
begin

text \<open>
  Parsing and inspection of scripts: \<open>src/tokenengine/internal/txscript/script.go\<close>, apart from the
  signature hash, which needs the transaction model. The parser runs over the rest of the script
  instead of an index into it. The source passes the opcode table as an argument for its tests only;
  here it is the table of the program, in which no opcode has length zero, so that the loop ends.
\<close>

section \<open>Model\<close>

definition isSmallInt :: "opcode \<Rightarrow> bool" where
  "isSmallInt op = (ovalue op = OP_0 \<or> (ovalue op \<ge> OP_1 \<and> ovalue op \<le> OP_16))"

definition isScriptHash :: "parsedOpcode list \<Rightarrow> bool" where
  "isScriptHash pops = (length pops = 3 \<and> pvalue (pops ! 0) = OP_HASH160
     \<and> pvalue (pops ! 1) = OP_DATA_20 \<and> pvalue (pops ! 2) = OP_EQUAL)"

definition isContractHash :: "parsedOpcode list \<Rightarrow> bool" where
  "isContractHash pops = (length pops = 2 \<and> pvalue (pops ! 0) = OP_DATA_20
     \<and> pvalue (pops ! 1) = OP_JURY_REDEEM_EQUAL)"

text \<open>The length operand of the three \<open>OP_PUSHDATA\<close> opcodes, assembled from little-endian bytes.\<close>

definition pushLen :: "int \<Rightarrow> bytes \<Rightarrow> int option" where
  "pushLen oplen r =
     (if oplen = -1 then Some (uint (r ! 0))
      else if oplen = -2 then Some (push_bit 8 (uint (r ! 1)) OR uint (r ! 0))
      else if oplen = -4 then
        Some (push_bit 24 (uint (r ! 3)) OR push_bit 16 (uint (r ! 2)) OR push_bit 8 (uint (r ! 1))
              OR uint (r ! 0))
      else None)"

type_synonym parse_result = "parsedOpcode list \<times> script_error option"

definition consPop :: "parsedOpcode \<Rightarrow> parse_result \<Rightarrow> parse_result" where
  "consPop pop r = (pop # fst r, snd r)"

function parseScript :: "bytes \<Rightarrow> parse_result" where
  "parseScript [] = ([], None)"
| "parseScript (instr # rest) =
     (let op = opcodeAt instr
      in if olength op = 1 then consPop \<lparr>popcode = op, pdata = None\<rparr> (parseScript rest)
         else if olength op > 1 then
           (if int (length (instr # rest)) < olength op then ([], Some ErrStackShortScript)
            else consPop \<lparr>popcode = op, pdata = Some (take (nat (olength op - 1)) rest)\<rparr>
                   (parseScript (drop (nat (olength op - 1)) rest)))
         else
           (if int (length rest) < - olength op then ([], Some ErrStackShortScript)
            else (case pushLen (olength op) rest of
                None \<Rightarrow> ([], Some (ErrOther ''invalid opcode length''))
              | Some l \<Rightarrow>
                  (let after = drop (nat (- olength op)) rest
                   in if l > int (length after) \<or> l < 0 then ([], Some ErrStackShortScript)
                      else consPop \<lparr>popcode = op, pdata = Some (take (nat l) after)\<rparr>
                             (parseScript (drop (nat l) after))))))"
  by pat_completeness auto
termination
  by (relation "measure length") auto

definition IsPayToScriptHash :: "bytes \<Rightarrow> bool" where
  "IsPayToScriptHash script = (case parseScript script of (pops, None) \<Rightarrow> isScriptHash pops | _ \<Rightarrow> False)"

definition isPushOnly :: "parsedOpcode list \<Rightarrow> bool" where
  "isPushOnly pops = list_all (\<lambda>pop. \<not> pvalue pop > OP_16) pops"

definition IsPushOnlyScript :: "bytes \<Rightarrow> bool" where
  "IsPushOnlyScript script = (case parseScript script of (pops, None) \<Rightarrow> isPushOnly pops | _ \<Rightarrow> False)"

fun unparseScript :: "parsedOpcode list \<Rightarrow> script_error + bytes" where
  "unparseScript [] = Inr []"
| "unparseScript (pop # pops) =
     (case pop_bytes pop of
        Inl e \<Rightarrow> Inl e
      | Inr b \<Rightarrow> (case unparseScript pops of Inl e \<Rightarrow> Inl e | Inr bs \<Rightarrow> Inr (b @ bs)))"

definition removeOpcode :: "parsedOpcode list \<Rightarrow> byte \<Rightarrow> parsedOpcode list" where
  "removeOpcode pkscript opcode = filter (\<lambda>pop. pvalue pop \<noteq> opcode) pkscript"

definition canonicalPush :: "parsedOpcode \<Rightarrow> bool" where
  "canonicalPush pop =
     (let opcode = pvalue pop; data = pop_data pop; dataLen = length data
      in if opcode > OP_16 then True
         else if opcode < OP_PUSHDATA1 \<and> opcode > OP_0 \<and> (dataLen = 1 \<and> data ! 0 \<le> 16) then False
         else if opcode = OP_PUSHDATA1 \<and> dataLen < 0x4c then False
         else if opcode = OP_PUSHDATA2 \<and> dataLen \<le> 0xff then False
         else if opcode = OP_PUSHDATA4 \<and> dataLen \<le> 0xffff then False
         else True)"

text \<open>\<open>bytes.Contains\<close> of the Go library.\<close>

definition bytesContains :: "bytes \<Rightarrow> bytes \<Rightarrow> bool" where
  "bytesContains b sub = list_ex (\<lambda>i. take (length sub) (drop i b) = sub) [0..<Suc (length b)]"

definition removeOpcodeByData :: "parsedOpcode list \<Rightarrow> bytes \<Rightarrow> parsedOpcode list" where
  "removeOpcodeByData pkscript data =
     filter (\<lambda>pop. \<not> canonicalPush pop \<or> \<not> bytesContains (pop_data pop) data) pkscript"

definition asSmallInt :: "opcode \<Rightarrow> int" where
  "asSmallInt op = (if ovalue op = OP_0 then 0 else uint (ovalue op - (OP_1 - 1)))"

abbreviation MaxPubKeysPerMultiSig :: int where
  "MaxPubKeysPerMultiSig \<equiv> 20"

text \<open>
  The body and the loop of \<open>getSigOpCount\<close>; \<open>prev\<close> is the opcode before the current one.
\<close>

definition sigOpsOf :: "bool \<Rightarrow> parsedOpcode option \<Rightarrow> parsedOpcode \<Rightarrow> int" where
  "sigOpsOf precise prev pop =
     (if pvalue pop \<in> {OP_CHECKSIG, OP_CHECKSIGVERIFY} then 1
      else if pvalue pop \<in> {OP_CHECKMULTISIG, OP_CHECKMULTISIGVERIFY} then
        (case prev of
           Some q \<Rightarrow> (if precise \<and> pvalue q \<ge> OP_1 \<and> pvalue q \<le> OP_16 then asSmallInt (popcode q)
                     else MaxPubKeysPerMultiSig)
         | None \<Rightarrow> MaxPubKeysPerMultiSig)
      else 0)"

fun sigOpCount :: "bool \<Rightarrow> parsedOpcode option \<Rightarrow> parsedOpcode list \<Rightarrow> int" where
  "sigOpCount precise prev [] = 0"
| "sigOpCount precise prev (pop # pops) = sigOpsOf precise prev pop + sigOpCount precise (Some pop) pops"

definition getSigOpCount :: "parsedOpcode list \<Rightarrow> bool \<Rightarrow> int" where
  "getSigOpCount pops precise = sigOpCount precise None pops"

definition GetSigOpCount :: "bytes \<Rightarrow> int" where
  "GetSigOpCount script = getSigOpCount (fst (parseScript script)) False"

definition GetPreciseSigOpCount :: "bytes \<Rightarrow> bytes \<Rightarrow> bool \<Rightarrow> int" where
  "GetPreciseSigOpCount scriptSig scriptPubKey bip16 =
     (let pops = fst (parseScript scriptPubKey)
      in if \<not> (bip16 \<and> isScriptHash pops) then getSigOpCount pops True
         else (case parseScript scriptSig of
             (sigPops, Some e) \<Rightarrow> 0
           | (sigPops, None) \<Rightarrow>
               (if \<not> isPushOnly sigPops \<or> sigPops = [] then 0
                else (let shScript = pop_data (last sigPops)
                      in if shScript = [] then 0
                         else getSigOpCount (fst (parseScript shScript)) True))))"

definition IsUnspendable :: "bytes \<Rightarrow> bool" where
  "IsUnspendable pkScript =
     (case parseScript pkScript of
        (pops, Some e) \<Rightarrow> True
      | (pops, None) \<Rightarrow> pops \<noteq> [] \<and> pvalue (hd pops) = OP_RETURN)"

section \<open>Little-endian lengths\<close>

lemma le_bytes_length [simp]: "length (le_bytes k n) = k"
  by (induction k arbitrary: n) simp_all

lemma and_0xff_nat: "n AND 0xff = (n mod 256 :: nat)"
proof -
  have "n AND mask 8 = n mod 256"
    by (simp flip: take_bit_eq_mask add: take_bit_eq_mod)
  then show ?thesis by (simp add: mask_eq_exp_minus_1)
qed

lemma le_val_le_bytes: "le_val (le_bytes k n) = int (n mod 256 ^ k)"
proof (induction k arbitrary: n)
  case (Suc k)
  have "int (n mod 256) + 256 * int (n div 256 mod 256 ^ k) = int (n mod (256 * 256 ^ k))"
    by (simp add: mod_mult2_eq)
  with Suc.IH show ?case
    by (simp add: and_0xff_nat drop_bit_eq_div uint_nat unat_of_nat)
qed simp

lemma le_bytes_le_val: "length v = k \<Longrightarrow> le_bytes k (nat (le_val v)) = v"
proof (induction k arbitrary: v)
  case (Suc k)
  then obtain b w where v: "v = b # w" and w: "length w = k"
    by (cases v) auto
  have n: "nat (le_val v) = unat b + 256 * nat (le_val w)"
    by (simp add: v nat_add_distrib nat_mult_distrib uint_byte_range)
  have lt: "unat b < 256"
    by (rule unat_byte_less)
  have hd: "nat (le_val v) AND 0xff = unat b"
    using lt by (simp add: n and_0xff_nat)
  have tl: "drop_bit 8 (nat (le_val v)) = nat (le_val w)"
    using lt by (simp add: n drop_bit_eq_div)
  have "le_bytes (Suc k) (nat (le_val v)) = word_of_nat (unat b) # le_bytes k (nat (le_val w))"
    by (simp only: le_bytes.simps hd tl)
  with Suc.IH [OF w] v show ?case by simp
qed simp

lemma or_push_disjoint:
  assumes "0 \<le> a" and "a < 2 ^ n"
  shows "push_bit n (b :: int) OR a = a + 2 ^ n * b"
proof -
  have "take_bit n a = a"
    using assms by (simp add: take_bit_int_eq_self_iff)
  then have "push_bit n b AND a = (push_bit n b AND mask n) AND a"
    by (metis and.assoc and.commute take_bit_eq_mask)
  moreover have "push_bit n b AND mask n = 0"
    by (simp add: take_bit_push_bit flip: take_bit_eq_mask)
  ultimately have "push_bit n b AND a = 0"
    by simp
  then show ?thesis
    by (simp add: disjunctive_add_eq_or [symmetric] push_bit_eq_mult algebra_simps)
qed

lemma pushLen_le_val:
  assumes "oplen \<in> {-1, -2, -4}" and "int (length r) \<ge> - oplen"
  shows "pushLen oplen r = Some (le_val (take (nat (- oplen)) r))"
proof -
  consider "oplen = -1" | "oplen = -2" | "oplen = -4"
    using assms(1) by auto
  then show ?thesis
  proof cases
    case 1
    with assms(2) obtain a t where "r = a # t" by (cases r) auto
    with 1 show ?thesis by (simp add: pushLen_def)
  next
    case 2
    with assms(2) obtain a b t where "r = a # b # t" by (cases r; cases "tl r") auto
    with 2 uint_byte_range [of a] show ?thesis by (simp add: pushLen_def or_push_disjoint)
  next
    case 3
    with assms(2) obtain a b c d t where r: "r = a # b # c # d # t"
      by (cases r; cases "tl r"; cases "tl (tl r)"; cases "tl (tl (tl r))") auto
    have "push_bit 8 (uint b) OR uint a = uint a + 256 * uint b"
      using uint_byte_range [of a] by (simp add: or_push_disjoint)
    moreover have "push_bit 16 (uint c) OR (uint a + 256 * uint b) = uint a + 256 * uint b + 65536 * uint c"
      using uint_byte_range [of a] uint_byte_range [of b] by (simp add: or_push_disjoint)
    moreover have "push_bit 24 (uint d) OR (uint a + 256 * uint b + 65536 * uint c)
        = uint a + 256 * uint b + 65536 * uint c + 16777216 * uint d"
      using uint_byte_range [of a] uint_byte_range [of b] uint_byte_range [of c]
      by (simp add: or_push_disjoint)
    ultimately show ?thesis
      using 3 r by (simp add: pushLen_def)
  qed
qed

section \<open>Parsing and unparsing\<close>

text \<open>A parsed opcode that carries its row of the table, with data exactly when the row takes data.\<close>

definition wf_pop :: "parsedOpcode \<Rightarrow> bool" where
  "wf_pop pop \<longleftrightarrow> popcode pop = opcodeAt (pvalue pop) \<and> (pdata pop = None \<longleftrightarrow> olength (popcode pop) = 1)"

lemma olength_cases:
  obtains "olength (opcodeAt b) = 1" | "olength (opcodeAt b) > 1"
  | "olength (opcodeAt b) \<in> {-1, -2, -4}"
proof -
  have "1 < uint b + 1" if "1 \<le> b"
    using that by (simp add: word_le_def)
  then have "olength (opcodeAt b) = 1 \<or> olength (opcodeAt b) > 1 \<or> olength (opcodeAt b) \<in> {-1, -2, -4}"
    by (simp add: olength_opcodeAt)
  then show ?thesis
    using that by blast
qed

lemma pop_bytes_var:
  assumes "olength (popcode p) = - int k" and "k \<in> {1, 2, 4}"
  shows "pop_bytes p =
    (if length (pop_data p) < 256 ^ k then Inr (pvalue p # le_bytes k (length (pop_data p)) @ pop_data p)
     else Inl ErrStackInvalidOpcode)"
proof -
  have "int (length (pop_data p) mod 256 ^ k) = int (length (pop_data p)) \<longleftrightarrow> length (pop_data p) < 256 ^ k"
    unfolding of_nat_eq_iff by (simp add: mod_eq_self_iff_div_eq_0 div_eq_0_iff)
  then have "le_val (le_bytes k (length (pop_data p))) = int (length (pop_data p))
      \<longleftrightarrow> length (pop_data p) < 256 ^ k"
    by (simp only: le_val_le_bytes)
  with assms show ?thesis
    by (auto simp: pop_bytes_def Let_def simp del: le_bytes.simps)
qed

lemma pop_bytes_wf:
  assumes "wf_pop p" and "pop_bytes p = Inr bs"
  shows "parseScript (bs @ t) = consPop p (parseScript t)"
proof -
  obtain op d where p: "p = \<lparr>popcode = op, pdata = d\<rparr>"
    by (cases p)
  have op: "opcodeAt (ovalue op) = op"
    using assms(1) by (simp add: p wf_pop_def)
  consider (one) "olength op = 1" | (fixed) "olength op > 1" | (var) "olength op \<in> {-1, -2, -4}"
    using olength_cases [of "ovalue op"] op by metis
  then show ?thesis
  proof cases
    case one
    with assms op show ?thesis
      by (auto simp: p wf_pop_def pop_bytes_def pop_data_def Let_def split: if_splits)
  next
    case fixed
    then obtain data where d: "d = Some data"
      using assms(1) by (auto simp: p wf_pop_def)
    from assms(2) fixed have "bs = ovalue op # data" and "int (length data) = olength op - 1"
      by (auto simp: p d pop_bytes_def pop_data_def Let_def split: if_splits)
    with fixed op show ?thesis
      by (simp add: p d Let_def)
  next
    case var
    then obtain data where d: "d = Some data"
      using assms(1) by (auto simp: p wf_pop_def)
    define k where "k = nat (- olength op)"
    have k: "olength op = - int k" "k \<in> {1, 2, 4}"
      using var by (auto simp: k_def)
    from assms(2) pop_bytes_var [of p k] k
    have bs: "bs = ovalue op # le_bytes k (length data) @ data" and "length data < 256 ^ k"
      by (auto simp: p d pop_data_def split: if_splits)
    then have "pushLen (olength op) (le_bytes k (length data) @ data @ t) = Some (int (length data))"
      using var k by (subst pushLen_le_val) (auto simp: le_val_le_bytes simp del: le_bytes.simps)
    with bs k op show ?thesis
      by (auto simp: p d Let_def)
  qed
qed

lemma parseScript_step:
  assumes "parseScript (instr # rest) = (p # ps, e)"
  shows "\<exists>bs t. instr # rest = bs @ t \<and> wf_pop p \<and> pop_bytes p = Inr bs \<and> parseScript t = (ps, e)"
proof -
  let ?op = "opcodeAt instr"
  show ?thesis
  proof (cases rule: olength_cases [of instr])
    case 1
    with assms have "p = \<lparr>popcode = ?op, pdata = None\<rparr>" "parseScript rest = (ps, e)"
      by (auto simp: Let_def consPop_def)
    with 1 show ?thesis
      by (intro exI [of _ "[instr]"] exI [of _ rest]) (simp add: wf_pop_def pop_bytes_def pop_data_def)
  next
    case 2
    define n where "n = nat (olength ?op - 1)"
    from 2 assms have p: "p = \<lparr>popcode = ?op, pdata = Some (take n rest)\<rparr>" "parseScript (drop n rest) = (ps, e)"
      and n: "olength ?op = int n + 1" "n \<le> length rest"
      by (auto simp: Let_def consPop_def n_def split: if_splits)
    with 2 show ?thesis
      by (intro exI [of _ "instr # take n rest"] exI [of _ "drop n rest"])
        (simp add: wf_pop_def pop_bytes_def pop_data_def)
  next
    case 3
    define k where "k = nat (- olength ?op)"
    have k: "olength ?op = - int k" "k \<in> {1, 2, 4}"
      using 3 by (auto simp: k_def)
    have len: "k \<le> length rest"
      using assms k by (auto simp: Let_def split: if_splits)
    define l where "l = nat (le_val (take k rest))"
    have pl: "pushLen (olength ?op) rest = Some (int l)"
      using pushLen_le_val [OF 3, of rest] len k by (auto simp: l_def)
    have lb: "le_bytes k l = take k rest" and lv: "le_val (take k rest) = int l"
      using len by (auto simp: l_def le_bytes_le_val)
    from assms k pl have p: "p = \<lparr>popcode = ?op, pdata = Some (take l (drop k rest))\<rparr>"
      and ps: "parseScript (drop l (drop k rest)) = (ps, e)" and l: "l \<le> length (drop k rest)"
      by (auto simp: Let_def consPop_def split: if_splits)
    have "l < 256 ^ k"
      using le_val_bound [of "take k rest"] len lv by simp
    then have "pop_bytes p = Inr (instr # take k rest @ take l (drop k rest))"
      using pop_bytes_var [of p k] k lb l by (simp add: p pop_data_def min_absorb1)
    moreover have "wf_pop p"
      using k by (auto simp: p wf_pop_def)
    moreover have "instr # rest = (instr # take k rest @ take l (drop k rest)) @ drop l (drop k rest)"
      by (simp only: append_Cons append_assoc append_take_drop_id)
    ultimately show ?thesis
      using ps by blast
  qed
qed

lemma unparse_parse_prefix:
  "parseScript s = (pops, e) \<Longrightarrow>
     list_all wf_pop pops \<and> (\<exists>u t. s = u @ t \<and> unparseScript pops = Inr u \<and> (e = None \<longrightarrow> t = []))"
proof (induction pops arbitrary: s)
  case Nil
  then show ?case
    by (cases s) (auto simp: Let_def consPop_def split: if_splits option.splits)
next
  case (Cons p ps)
  then obtain instr rest where s: "s = instr # rest"
    by (cases s) auto
  obtain bs t where bt: "instr # rest = bs @ t" "wf_pop p" "pop_bytes p = Inr bs" "parseScript t = (ps, e)"
    using parseScript_step Cons.prems unfolding s by blast
  with Cons.IH [OF bt(4)] s show ?case by fastforce
qed

lemma parse_unparse:
  "list_all wf_pop pops \<Longrightarrow> unparseScript pops = Inr s \<Longrightarrow> parseScript (s @ t) =
     (pops @ fst (parseScript t), snd (parseScript t))"
proof (induction pops arbitrary: s)
  case (Cons p ps)
  then obtain b bs where "pop_bytes p = Inr b" "unparseScript ps = Inr bs" "s = b @ bs"
    by (auto split: sum.splits)
  with Cons show ?case
    using pop_bytes_wf [of p b "bs @ t"] by (simp add: consPop_def)
qed simp

lemma parseScript_iff:
  "parseScript s = (pops, None) \<longleftrightarrow> list_all wf_pop pops \<and> unparseScript pops = Inr s"
proof
  assume "parseScript s = (pops, None)"
  from unparse_parse_prefix [OF this]
  show "list_all wf_pop pops \<and> unparseScript pops = Inr s" by auto
next
  assume "list_all wf_pop pops \<and> unparseScript pops = Inr s"
  then show "parseScript s = (pops, None)"
    using parse_unparse [of pops s "[]"] by simp
qed

lemma parseScript_append:
  "parseScript s = (pops, None) \<Longrightarrow>
     parseScript (s @ t) = (pops @ fst (parseScript t), snd (parseScript t))"
  by (simp add: parseScript_iff parse_unparse)

lemma unparseScript_filter:
  "unparseScript pops = Inr s \<Longrightarrow> \<exists>u. unparseScript (filter P pops) = Inr u"
proof (induction pops arbitrary: s)
  case (Cons p ps)
  then obtain b bs where "pop_bytes p = Inr b" and "unparseScript ps = Inr bs"
    by (auto split: sum.splits)
  with Cons.IH [of bs] show ?case by auto
qed simp

lemma parse_filter:
  assumes "parseScript s = (pops, None)"
  obtains u where "unparseScript (filter P pops) = Inr u" and "parseScript u = (filter P pops, None)"
proof -
  from assms have "list_all wf_pop (filter P pops)"
    unfolding parseScript_iff list_all_iff by auto
  with assms show ?thesis
    using that unparseScript_filter [of pops s P] by (auto simp: parseScript_iff)
qed

lemma bytesContains_iff: "bytesContains b sub \<longleftrightarrow> (\<exists>xs ys. b = xs @ sub @ ys)"
proof
  assume "bytesContains b sub"
  then obtain i where "take (length sub) (drop i b) = sub"
    by (auto simp: bytesContains_def list_ex_iff)
  then have "b = take i b @ sub @ drop (length sub) (drop i b)"
    by (metis append_take_drop_id)
  then show "\<exists>xs ys. b = xs @ sub @ ys" by blast
next
  assume "\<exists>xs ys. b = xs @ sub @ ys"
  then obtain xs ys where b: "b = xs @ sub @ ys" by blast
  then have "length xs < Suc (length b)" and "take (length sub) (drop (length xs) b) = sub"
    by auto
  then show "bytesContains b sub"
    unfolding bytesContains_def list_ex_iff by (intro bexI [of _ "length xs"]) (simp_all del: upt_Suc)
qed

lemma asSmallInt_range:
  assumes "OP_1 \<le> ovalue op" and "ovalue op \<le> OP_16"
  shows "1 \<le> asSmallInt op \<and> asSmallInt op \<le> 16"
proof -
  have "uint (ovalue op - 0x50) = uint (ovalue op) - 80"
    using assms(1) uint_sub_lem [of "0x50" "ovalue op"] by (simp add: word_le_def)
  moreover have "ovalue op \<noteq> 0"
    using assms(1) by (auto simp: word_le_def)
  ultimately show ?thesis
    using assms by (simp add: asSmallInt_def word_le_def)
qed

lemma sigOpsOf_bounds:
  "0 \<le> sigOpsOf precise prev p \<and> sigOpsOf precise prev p \<le> sigOpsOf False prev' p \<and> sigOpsOf False prev' p \<le> 20"
proof (cases prev)
  case None
  then show ?thesis by (cases prev') (simp_all add: sigOpsOf_def)
next
  case (Some q)
  with asSmallInt_range [of "popcode q"] show ?thesis
    by (cases prev'; cases precise; cases "OP_1 \<le> pvalue q"; cases "pvalue q \<le> OP_16")
      (simp_all add: sigOpsOf_def)
qed

lemma sigOpCount_bounds:
  "0 \<le> sigOpCount precise prev pops \<and> sigOpCount precise prev pops \<le> sigOpCount False prev' pops
     \<and> sigOpCount False prev' pops \<le> 20 * int (length pops)"
proof (induction pops arbitrary: prev prev')
  case (Cons p ps)
  from Cons.IH [of "Some p" "Some p"] sigOpsOf_bounds [of precise prev p prev'] show ?case
    by simp
qed simp

section \<open>Properties\<close>

text \<open>
  C16. Parsing and unparsing are inverse to each other: a script parses without error into a list of
  opcodes exactly when that list is well formed (every opcode is a row of the table and carries
  data exactly when its row says so) and unparses to the script. In particular a script that
  parses is reproduced byte for byte, and no two well-formed lists unparse to the same script.
\<close>

theorem script_roundtrip:
  "(parseScript s = (pops, None)) = (list_all wf_pop pops \<and> unparseScript pops = Inr s)"
  by (rule parseScript_iff)



text \<open>
  C23. The number of signature operations is never negative, counting precisely never gives more than
  counting twenty for each multi-signature check, and that is at most twenty for each opcode.
\<close>

theorem sigop_count_bounds:
  "0 \<le> getSigOpCount pops True
    \<and> getSigOpCount pops True \<le> getSigOpCount pops False
    \<and> getSigOpCount pops False \<le> MaxPubKeysPerMultiSig * int (length pops)"
  unfolding getSigOpCount_def by (rule sigOpCount_bounds)

end
