(* ===== verification/ScriptBuilder.thy ===== *)
theory ScriptBuilder
  imports Script
begin

text \<open>
  Building scripts: \<open>src/tokenengine/internal/txscript/scriptbuilder.go\<close>. The methods of the source
  return their receiver for chaining; here they map a builder to a builder. An integer whose
  encoding panics makes the result an \<open>Inl\<close>.
\<close>

section \<open>Model\<close>

abbreviation maxScriptSize :: nat where "maxScriptSize \<equiv> 10000"
abbreviation MaxScriptElementSize :: nat where "MaxScriptElementSize \<equiv> 520"

record script_builder =
  bscript :: bytes
  berr :: "script_error option"

definition AddOp :: "byte \<Rightarrow> script_builder \<Rightarrow> script_builder" where
  "AddOp opcode b =
     (if berr b \<noteq> None then b
      else if length (bscript b) + 1 > maxScriptSize then b\<lparr>berr := Some ErrScriptNotCanonical\<rparr>
      else b\<lparr>bscript := bscript b @ [opcode]\<rparr>)"

definition canonicalDataSize :: "bytes \<Rightarrow> nat" where
  "canonicalDataSize data =
     (let dataLen = length data
      in if dataLen = 0 then 1
         else if dataLen = 1 \<and> data ! 0 \<le> 16 then 1
         else if dataLen = 1 \<and> data ! 0 = 0x81 then 1
         else if dataLen < 0x4c then 1 + dataLen
         else if dataLen \<le> 0xff then 2 + dataLen
         else if dataLen \<le> 0xffff then 3 + dataLen
         else 5 + dataLen)"

text \<open>The bytes \<open>addData\<close> appends for a piece of data.\<close>

definition dataPush :: "bytes \<Rightarrow> bytes" where
  "dataPush data =
     (let dataLen = length data
      in if dataLen = 0 \<or> dataLen = 1 \<and> data ! 0 = 0 then [OP_0]
         else if dataLen = 1 \<and> data ! 0 \<le> 16 then [(OP_1 - 1) + data ! 0]
         else if dataLen = 1 \<and> data ! 0 = 0x81 then [OP_1NEGATE]
         else (if dataLen < 0x4c then [word_of_nat ((1 - 1) + dataLen)]
               else if dataLen \<le> 0xff then [OP_PUSHDATA1, word_of_nat dataLen]
               else if dataLen \<le> 0xffff then OP_PUSHDATA2 # le_bytes 2 dataLen
               else OP_PUSHDATA4 # le_bytes 4 dataLen) @ data)"

definition addData :: "bytes \<Rightarrow> script_builder \<Rightarrow> script_builder" where
  "addData data b = b\<lparr>bscript := bscript b @ dataPush data\<rparr>"

definition AddFullData :: "bytes \<Rightarrow> script_builder \<Rightarrow> script_builder" where
  "AddFullData data b = (if berr b \<noteq> None then b else addData data b)"

definition AddData :: "bytes \<Rightarrow> script_builder \<Rightarrow> script_builder" where
  "AddData data b =
     (if berr b \<noteq> None then b
      else (let dataSize = canonicalDataSize data
            in if length (bscript b) + dataSize > maxScriptSize
               then b\<lparr>berr := Some ErrScriptNotCanonical\<rparr>
               else if length data > MaxScriptElementSize
               then b\<lparr>berr := Some ErrScriptNotCanonical\<rparr>
               else addData data b))"

definition AddInt64 :: "int \<Rightarrow> script_builder \<Rightarrow> script_error + script_builder" where
  "AddInt64 val b =
     (if berr b \<noteq> None then Inr b
      else if length (bscript b) + 1 > maxScriptSize then Inr (b\<lparr>berr := Some ErrScriptNotCanonical\<rparr>)
      else if val = 0 then Inr (b\<lparr>bscript := bscript b @ [OP_0]\<rparr>)
      else if val = -1 \<or> (val \<ge> 1 \<and> val \<le> 16)
      then Inr (b\<lparr>bscript := bscript b @ [word_of_int (0x51 - 1 + val)]\<rparr>)
      else (case scriptNum_Bytes val of Inl e \<Rightarrow> Inl e | Inr bs \<Rightarrow> Inr (AddData bs b)))"

definition Reset :: "script_builder \<Rightarrow> script_builder" where
  "Reset b = b\<lparr>bscript := [], berr := None\<rparr>"

definition BuilderScript :: "script_builder \<Rightarrow> bytes \<times> script_error option" where
  "BuilderScript b = (bscript b, berr b)"

definition NewScriptBuilder :: script_builder where
  "NewScriptBuilder = \<lparr>bscript = [], berr = None\<rparr>"

section \<open>Pushes\<close>

text \<open>
  The parsed opcode of a canonical push, and the value an opcode up to \<open>OP_16\<close> stands for.
\<close>

definition pushPop :: "bytes \<Rightarrow> parsedOpcode" where
  "pushPop data =
     (if data = [] \<or> data = [0] then \<lparr>popcode = opcodeAt OP_0, pdata = None\<rparr>
      else if length data = 1 \<and> data ! 0 \<le> 16 then \<lparr>popcode = opcodeAt (0x50 + data ! 0), pdata = None\<rparr>
      else if data = [0x81] then \<lparr>popcode = opcodeAt OP_1NEGATE, pdata = None\<rparr>
      else if length data < 0x4c then \<lparr>popcode = opcodeAt (word_of_nat (length data)), pdata = Some data\<rparr>
      else if length data \<le> 0xff then \<lparr>popcode = opcodeAt OP_PUSHDATA1, pdata = Some data\<rparr>
      else if length data \<le> 0xffff then \<lparr>popcode = opcodeAt OP_PUSHDATA2, pdata = Some data\<rparr>
      else \<lparr>popcode = opcodeAt OP_PUSHDATA4, pdata = Some data\<rparr>)"

definition pushValue :: "parsedOpcode \<Rightarrow> bytes" where
  "pushValue pop =
     (if pvalue pop = OP_1NEGATE then [0x81]
      else if OP_1 \<le> pvalue pop \<and> pvalue pop \<le> OP_16 then [pvalue pop - 0x50]
      else pop_data pop)"

text \<open>The cases of a push: a small number, or data behind an opcode that gives its length.\<close>

lemma push_cases:
  fixes data :: bytes
  obtains (empty) "data = [] \<or> data = [0]"
  | (small) d where "data = [d]" "1 \<le> d" "d \<le> 16"
  | (neg) "data = [0x81]"
  | (direct) "1 \<le> length data" "length data < 76" "length data = 1 \<Longrightarrow> data ! 0 \<noteq> 0 \<and> \<not> data ! 0 \<le> 16 \<and> data ! 0 \<noteq> 0x81"
  | (push1) "76 \<le> length data" "length data \<le> 255"
  | (push2) "255 < length data" "length data \<le> 65535"
  | (push4) "65535 < length data"
proof (cases "length data = 1")
  case True
  then obtain d where d: "data = [d]"
    by (cases data) auto
  have "d = 0 \<or> (1 \<le> d \<and> d \<le> 16) \<or> d = 0x81 \<or> (d \<noteq> 0 \<and> \<not> d \<le> 16 \<and> d \<noteq> 0x81)"
    by (auto simp: byte_arith)
  with d that(1-4) show ?thesis by auto
next
  case False
  then have "data = [] \<or> 1 \<le> length data"
    by (cases data) auto
  with False that show ?thesis by fastforce
qed

lemma small_byte:
  assumes "1 \<le> d" and "d \<le> 16"
  shows "d \<noteq> 0" "OP_1 \<le> 0x50 + d" "0x50 + d \<le> OP_16" "0x50 + d \<noteq> OP_1NEGATE" "olength (opcodeAt (0x50 + d)) = 1"
proof -
  have "1 \<le> d \<longrightarrow> d \<le> 16 \<longrightarrow> d \<noteq> 0 \<and> OP_1 \<le> 0x50 + d \<and> 0x50 + d \<le> OP_16 \<and> 0x50 + d \<noteq> OP_1NEGATE
      \<and> \<not> (0x50 + d \<le> 75) \<and> 0x50 + d \<noteq> OP_PUSHDATA1 \<and> 0x50 + d \<noteq> OP_PUSHDATA2 \<and> 0x50 + d \<noteq> OP_PUSHDATA4"
    by (auto simp: byte_arith)
  with assms show "d \<noteq> 0" "OP_1 \<le> 0x50 + d" "0x50 + d \<le> OP_16" "0x50 + d \<noteq> OP_1NEGATE"
    "olength (opcodeAt (0x50 + d)) = 1"
    by (auto simp: olength_opcodeAt)
qed

lemma direct_opcode:
  assumes "1 \<le> n" and "n < 76"
  shows "unat (word_of_nat n :: byte) = n" "1 \<le> (word_of_nat n :: byte)" "word_of_nat n \<le> OP_DATA_75"
    "olength (opcodeAt (word_of_nat n)) = int n + 1"
proof -
  show u: "unat (word_of_nat n :: byte) = n"
    using assms by (simp add: unat_of_nat)
  show l: "1 \<le> (word_of_nat n :: byte)" "word_of_nat n \<le> OP_DATA_75"
    using assms u by (simp_all add: word_le_nat_alt)
  then show "olength (opcodeAt (word_of_nat n)) = int n + 1"
    using u by (simp add: olength_opcodeAt uint_nat)
qed

lemma pushPop_direct:
  assumes "1 \<le> length data" and "length data < 76"
    and "length data = 1 \<Longrightarrow> data ! 0 \<noteq> 0 \<and> \<not> data ! 0 \<le> 16 \<and> data ! 0 \<noteq> 0x81"
  shows "pushPop data = \<lparr>popcode = opcodeAt (word_of_nat (length data)), pdata = Some data\<rparr>"
    "dataPush data = word_of_nat (length data) # data" "data \<noteq> [0]"
proof -
  have "\<not> (data = [] \<or> data = [0])" "\<not> (length data = 1 \<and> data ! 0 \<le> 16)" "data \<noteq> [0x81]"
    using assms by (auto simp: length_Suc_conv)
  then show "pushPop data = \<lparr>popcode = opcodeAt (word_of_nat (length data)), pdata = Some data\<rparr>"
    "dataPush data = word_of_nat (length data) # data" "data \<noteq> [0]"
    using assms by (auto simp: pushPop_def dataPush_def Let_def)
qed

lemmas pushPop_simps = pushPop_def pop_data_def wf_pop_def pushValue_def checkMinimalDataPush_def
  canonicalPush_def Let_def

lemma dataPush_pop:
  assumes "length data < 2 ^ 32"
  shows "pop_bytes (pushPop data) = Inr (dataPush data)"
proof (cases rule: push_cases [of data])
  case (small d)
  with small_byte [of d] show ?thesis
    by (simp add: pushPop_def dataPush_def pop_bytes_def pop_data_def)
next
  case direct
  with direct_opcode [of "length data"] show ?thesis
    by (auto simp: pushPop_direct pop_bytes_def pop_data_def Let_def)
qed (use assms in \<open>auto simp: pushPop_def dataPush_def pop_bytes_def pop_data_def Let_def olength_opcodeAt
   le_val_le_bytes and_0xff_nat uint_nat unat_of_nat\<close>)

lemma pushPop_wf: "wf_pop (pushPop data)"
proof (cases rule: push_cases [of data])
  case (small d)
  with small_byte [of d] show ?thesis by (simp add: pushPop_simps)
next
  case direct
  with direct_opcode [of "length data"] show ?thesis
    by (auto simp: pushPop_direct wf_pop_def)
qed (auto simp: pushPop_simps olength_opcodeAt)

lemma pushPop_value: "pushValue (pushPop data) = (if data = [0] then [] else data)"
proof (cases rule: push_cases [of data])
  case (small d)
  with small_byte [of d] show ?thesis by (simp add: pushPop_simps)
next
  case direct
  then have "word_of_nat (length data) \<noteq> OP_1NEGATE" "\<not> OP_1 \<le> word_of_nat (length data)"
    using direct_opcode [of "length data"] by (simp_all add: word_le_nat_alt word_unat_eq_iff)
  with direct show ?thesis
    by (simp add: pushPop_direct pushValue_def pop_data_def)
qed (auto simp: pushPop_simps)

lemma pushPop_minimal:
  assumes "pvalue (pushPop data) \<le> OP_PUSHDATA4"
  shows "checkMinimalDataPush (pushPop data) = Inr ()"
proof (cases rule: push_cases [of data])
  case (small d)
  have "1 \<le> d \<longrightarrow> d \<le> 16 \<longrightarrow> \<not> 0x50 + d \<le> OP_PUSHDATA4"
    by (auto simp: byte_arith)
  with small small_byte [of d] assms show ?thesis by (simp add: pushPop_def)
next
  case direct
  with direct_opcode [of "length data"] show ?thesis
    by (auto simp: pushPop_direct checkMinimalDataPush_def pop_data_def Let_def)
qed (use assms in \<open>auto simp: pushPop_simps\<close>)

lemma pushPop_push_opcode: "pvalue (pushPop data) \<le> OP_16 \<and> pvalue (pushPop data) \<noteq> OP_RESERVED"
proof (cases rule: push_cases [of data])
  case (small d)
  have "1 \<le> d \<longrightarrow> d \<le> 16 \<longrightarrow> 0x50 + d \<noteq> OP_RESERVED"
    by (auto simp: byte_arith)
  with small small_byte [of d] show ?thesis by (simp add: pushPop_simps)
next
  case direct
  with direct_opcode [of "length data"] show ?thesis
    by (simp add: pushPop_direct word_le_nat_alt word_unat_eq_iff)
qed (auto simp: pushPop_simps)

lemma dataPush_parse:
  "length data < 2 ^ 32 \<Longrightarrow> parseScript (dataPush data @ t) = consPop (pushPop data) (parseScript t)"
  by (simp add: pop_bytes_wf pushPop_wf dataPush_pop)

lemma dataPush_size: "length (dataPush data) = canonicalDataSize data"
  by (auto simp: dataPush_def canonicalDataSize_def Let_def)

lemma parse_op: "olength (opcodeAt op) = 1 \<Longrightarrow> parseScript (op # t) = consPop \<lparr>popcode = opcodeAt op, pdata = None\<rparr> (parseScript t)"
  by simp

text \<open>
  The contract clients of the builder use: a builder without an error whose script has a given
  length and parses to a given list of opcodes.
\<close>

definition builds :: "nat \<Rightarrow> script_builder \<Rightarrow> parsedOpcode list \<Rightarrow> bool" where
  "builds n b pops \<longleftrightarrow> length (bscript b) = n \<and> berr b = None \<and> parseScript (bscript b) = (pops, None)"

lemma builds_new: "builds 0 NewScriptBuilder []"
  by (simp add: builds_def NewScriptBuilder_def)

lemma builds_op:
  "builds n b pops \<Longrightarrow> olength (opcodeAt op) = 1 \<Longrightarrow> n < maxScriptSize \<Longrightarrow>
     builds (Suc n) (AddOp op b) (pops @ [\<lparr>popcode = opcodeAt op, pdata = None\<rparr>])"
  using parseScript_append [of "bscript b" pops "[op]"]
  by (simp add: builds_def AddOp_def Let_def consPop_def)

lemma builds_data:
  assumes "builds n b pops" and "length data \<le> MaxScriptElementSize" and "n + canonicalDataSize data \<le> maxScriptSize"
  shows "builds (n + canonicalDataSize data) (AddData data b) (pops @ [pushPop data])"
  using parseScript_append [of "bscript b" pops "dataPush data"] dataPush_parse [of data "[]"] assms
  by (simp add: builds_def AddData_def addData_def consPop_def dataPush_size)

lemma canonicalDataSize_bounds: "canonicalDataSize data \<le> 5 + length data"
  by (simp add: canonicalDataSize_def Let_def)

lemma small_int_byte:
  assumes "1 \<le> val" and "val \<le> 16"
  shows "uint (80 + word_of_int val :: byte) = 80 + val"
proof -
  have "uint (word_of_int (80 + val) :: byte) = 80 + val"
    using assms by (subst uint_word_of_int) simp
  then show ?thesis by simp
qed

lemma AddInt64_small:
  assumes "builds n b pops" and "n < maxScriptSize" and "1 \<le> val" and "val \<le> 16"
  shows "\<exists>b'. AddInt64 val b = Inr b' \<and>
    builds (Suc n) b' (pops @ [\<lparr>popcode = opcodeAt (80 + word_of_int val), pdata = None\<rparr>])"
proof -
  have "olength (opcodeAt (80 + word_of_int val)) = 1"
    using small_int_byte [OF assms(3,4)] assms(3,4)
    by (auto simp: olength_opcodeAt word_le_def word_uint_eq_iff)
  with parseScript_append [of "bscript b" pops "[80 + word_of_int val]"] assms show ?thesis
    by (simp add: builds_def AddInt64_def Let_def consPop_def)
qed

section \<open>Properties\<close>

text \<open>
  C24. What the builder appends for a piece of data is one canonical push instruction: it takes the
  announced number of bytes, the script still parses and has exactly that one opcode more, the
  opcode is a push that passes the engine's minimal-push rule wherever the engine applies it, and it
  stands for the data itself, except that the single byte zero becomes the empty string.
\<close>

theorem builder_push_canonical:
  assumes "parseScript (bscript b) = (pops, None)" and "berr b = None"
    and "length (bscript b) + canonicalDataSize data \<le> maxScriptSize"
    and "length data \<le> MaxScriptElementSize"
  shows "\<exists>p. parseScript (bscript (AddData data b)) = (pops @ [p], None)
    \<and> length (bscript (AddData data b)) = length (bscript b) + canonicalDataSize data
    \<and> berr (AddData data b) = None
    \<and> isPushOnly [p]
    \<and> (\<not> OP_PUSHDATA4 < pvalue p \<longrightarrow> checkMinimalDataPush p = Inr ())
    \<and> pushValue p = (if data = [0] then [] else data)"
proof -
  have "bscript (AddData data b) = bscript b @ dataPush data" "berr (AddData data b) = None"
    using assms by (simp_all add: AddData_def addData_def)
  moreover have "parseScript (dataPush data) = ([pushPop data], None)"
    using dataPush_parse [of data "[]"] assms(4) by (simp add: consPop_def)
  moreover have "checkMinimalDataPush (pushPop data) = Inr ()" if "\<not> OP_PUSHDATA4 < pvalue (pushPop data)"
    using that by (intro pushPop_minimal) simp
  ultimately show ?thesis
    using parseScript_append [OF assms(1)] pushPop_push_opcode [of data]
    by (intro exI [of _ "pushPop data"]) (simp add: dataPush_size pushPop_value isPushOnly_def not_less)
qed

theorem builder_push_canonical_witness:
  "\<exists>p. parseScript (bscript (AddData [7, 9] NewScriptBuilder)) = ([p], None) \<and> pushValue p = [7, 9]"
  using builder_push_canonical [of NewScriptBuilder "[]" "[7, 9]"]
  by (auto simp: NewScriptBuilder_def canonicalDataSize_def)

text \<open>
  C25. A builder within the script size limit stays within it: no method except the one documented as
  unchecked makes a script longer than the limit, an error keeps the script as it was, and once an
  error is recorded no method changes the builder again.
\<close>

theorem builder_size_limit:
  assumes "length (bscript b) \<le> maxScriptSize"
  shows "length (bscript (AddOp op b)) \<le> maxScriptSize
    \<and> length (bscript (AddData data b)) \<le> maxScriptSize
    \<and> (case AddInt64 val b of Inl e \<Rightarrow> e = GoPanic | Inr b' \<Rightarrow> length (bscript b') \<le> maxScriptSize)
    \<and> (berr (AddOp op b) \<noteq> None \<longrightarrow> bscript (AddOp op b) = bscript b)
    \<and> (berr (AddData data b) \<noteq> None \<longrightarrow> bscript (AddData data b) = bscript b)
    \<and> (berr b \<noteq> None \<longrightarrow> AddOp op b = b \<and> AddData data b = b \<and> AddFullData data b = b \<and> AddInt64 val b = Inr b)"
proof (intro conjI)
  have data: "length (bscript (AddData d b)) \<le> maxScriptSize" for d
    using assms by (simp add: AddData_def addData_def dataPush_size Let_def)
  then show "length (bscript (AddData data b)) \<le> maxScriptSize" .
  show "case AddInt64 val b of Inl e \<Rightarrow> e = GoPanic | Inr b' \<Rightarrow> length (bscript b') \<le> maxScriptSize"
    using assms data by (auto simp: AddInt64_def scriptNum_Bytes_def Let_def split: sum.splits if_splits)
qed (use assms in \<open>auto simp: AddOp_def AddData_def AddFullData_def AddInt64_def addData_def Let_def\<close>)

theorem builder_size_limit_witness:
  "length (bscript (AddData (replicate 100 7) (AddOp OP_DUP NewScriptBuilder))) \<le> maxScriptSize"
  using builder_size_limit [of "AddOp OP_DUP NewScriptBuilder" OP_DUP "replicate 100 7" 5]
  by (simp add: AddOp_def NewScriptBuilder_def)

end
