(* ===== verification/Address.thy ===== *)
theory Address
  imports Prelude
begin

text \<open>
  Account, script and contract addresses: \<open>src/common/address.go\<close>. An \<open>Address\<close> is an array of 21
  bytes, the 20 bytes of a hash followed by the address type; it is a byte list here, and
  \<open>wf_addr\<close> is its length. The base58 codec is a third-party package and enters as a parameter.
\<close>

section \<open>Model\<close>

abbreviation AddressLength :: nat where "AddressLength \<equiv> 21"

type_synonym address = bytes

definition wf_addr :: "address \<Rightarrow> bool" where
  "wf_addr a \<longleftrightarrow> length a = AddressLength"

definition DestroyAddress :: address where
  "DestroyAddress = replicate AddressLength 0"

abbreviation (input) ErrorAddress :: byte where "ErrorAddress \<equiv> 0xff"
abbreviation (input) PublicKeyHash :: byte where "PublicKeyHash \<equiv> 0"
abbreviation (input) ScriptHash :: byte where "ScriptHash \<equiv> 5"
abbreviation (input) ContractHash :: byte where "ContractHash \<equiv> 28"

definition GetType :: "address \<Rightarrow> byte" where
  "GetType a = a ! 20"

text \<open>\<open>bytes.Compare\<close>: the sign of the lexicographic comparison.\<close>

fun bytesCompare :: "bytes \<Rightarrow> bytes \<Rightarrow> int" where
  "bytesCompare [] [] = 0"
| "bytesCompare [] (_ # _) = -1"
| "bytesCompare (_ # _) [] = 1"
| "bytesCompare (a # as) (b # bs) = (if a < b then -1 else if a > b then 1 else bytesCompare as bs)"

definition IsSystemContractId :: "bytes \<Rightarrow> bool" where
  "IsSystemContractId contractId =
     (if length contractId \<noteq> 20 then False
      else if contractId ! 18 = 0 \<and> contractId ! 19 = 0 then False
      else (let bb = replicate 18 0 @ [0xff, 0xff] in bytesCompare contractId bb < 0))"

definition IsUserContractId :: "bytes \<Rightarrow> bool" where
  "IsUserContractId contractId =
     (if length contractId \<noteq> 20 then False
      else (let bb = replicate 18 0 @ [0xff, 0xff] in bytesCompare contractId bb > 0))"

text \<open>
  \<open>copy(dst[off:], src)\<close> of Go: the bytes of the source that fit, then the rest of the destination.
\<close>

definition copyAt :: "nat \<Rightarrow> bytes \<Rightarrow> bytes \<Rightarrow> bytes" where
  "copyAt off src dst = take off dst @ take (length dst - off) src @ drop (off + length src) dst"

definition SetBytes :: "bytes \<Rightarrow> address \<Rightarrow> address" where
  "SetBytes b a =
     (let b' = (if length b > length a then drop (length b - AddressLength) b else b)
      in copyAt (AddressLength - length b') b' a)"

definition BytesToAddress :: "bytes \<Rightarrow> address" where
  "BytesToAddress b = SetBytes b (replicate AddressLength 0)"

definition NewAddress :: "bytes \<Rightarrow> byte \<Rightarrow> address" where
  "NewAddress hash160 ty = BytesToAddress ((copyAt 0 hash160 (replicate 21 0))[20 := ty])"

definition addrBytes :: "address \<Rightarrow> bytes" where
  "addrBytes a = take 20 a"

definition Bytes21 :: "address \<Rightarrow> bytes" where
  "Bytes21 a = a"

definition IsSystemContractAddress :: "address \<Rightarrow> bool" where
  "IsSystemContractAddress a = IsSystemContractId (addrBytes a)"

datatype address_error = AddressNull | AddressPrefix | AddressBase58 | AddressTypeInvalid

text \<open>
  \<open>CheckDecode\<close> and \<open>CheckEncode\<close> of the base58 package: a payload and a version byte to and from a
  string with a checksum.
\<close>

definition StringToAddress :: "(string \<Rightarrow> (bytes \<times> byte) option) \<Rightarrow> string \<Rightarrow> address_error + address" where
  "StringToAddress CheckDecode a =
     (if length a \<le> 0 then Inl AddressNull
      else if a ! 0 \<noteq> CHR ''P'' then Inl AddressPrefix
      else (case CheckDecode (drop 1 a) of
          None \<Rightarrow> Inl AddressBase58
        | Some (addrb, version) \<Rightarrow>
            (if version = 0 then Inr (BytesToAddress (addrb @ [PublicKeyHash]))
             else if version = 5 then Inr (BytesToAddress (addrb @ [ScriptHash]))
             else if version = 28 then Inr (BytesToAddress (addrb @ [ContractHash]))
             else Inl AddressTypeInvalid)))"

definition StringToAddressGodBlessMe :: "(string \<Rightarrow> (bytes \<times> byte) option) \<Rightarrow> string \<Rightarrow> address" where
  "StringToAddressGodBlessMe CheckDecode a =
     (case StringToAddress CheckDecode a of Inl e \<Rightarrow> replicate AddressLength 0 | Inr addr \<Rightarrow> addr)"

definition IsValidAddress :: "(string \<Rightarrow> (bytes \<times> byte) option) \<Rightarrow> string \<Rightarrow> bool" where
  "IsValidAddress CheckDecode s = (case StringToAddress CheckDecode s of Inl e \<Rightarrow> False | Inr a \<Rightarrow> True)"

definition addrStr :: "(bytes \<Rightarrow> byte \<Rightarrow> string) \<Rightarrow> address \<Rightarrow> string" where
  "addrStr CheckEncode a = ''P'' @ CheckEncode (take 20 a) (a ! 20)"

fun addrEqual :: "address \<Rightarrow> address \<Rightarrow> bool" where
  "addrEqual [] bs = True"
| "addrEqual (v # as) bs = (case bs of [] \<Rightarrow> False | b # bs' \<Rightarrow> if v \<noteq> b then False else addrEqual as bs')"

definition addrIsZero :: "address \<Rightarrow> bool" where
  "addrIsZero a = list_all (\<lambda>v. v = 0) a"

fun addrLess :: "address \<Rightarrow> address \<Rightarrow> bool" where
  "addrLess (v # as) (b # bs) = (if v < b then True else if v > b then False else addrLess as bs)"
| "addrLess as bs = False"

section \<open>Lemmas\<close>

lemma copyAt_length [simp]: "off \<le> length dst \<Longrightarrow> length (copyAt off src dst) = length dst"
  by (simp add: copyAt_def)

lemma SetBytes_wf: "wf_addr a \<Longrightarrow> wf_addr (SetBytes b a)"
  by (simp add: wf_addr_def SetBytes_def Let_def)

lemma BytesToAddress_wf [simp]: "wf_addr (BytesToAddress b)"
  by (simp add: BytesToAddress_def SetBytes_wf wf_addr_def [of "replicate _ _"])

lemma BytesToAddress_21: "length b = 21 \<Longrightarrow> BytesToAddress b = b"
  by (simp add: BytesToAddress_def SetBytes_def copyAt_def)

lemma NewAddress_20: "length h = 20 \<Longrightarrow> NewAddress h ty = h @ [ty]"
  by (simp add: NewAddress_def copyAt_def BytesToAddress_21 list_update_append)

lemma NewAddress_wf [simp]: "wf_addr (NewAddress h ty)"
  by (simp add: NewAddress_def)

lemma NewAddress_parts:
  "length h = 20 \<Longrightarrow> addrBytes (NewAddress h ty) = h \<and> GetType (NewAddress h ty) = ty"
  by (simp add: NewAddress_20 addrBytes_def GetType_def nth_append)

lemma addr_split: "wf_addr a \<Longrightarrow> a = addrBytes a @ [GetType a]"
  unfolding wf_addr_def addrBytes_def GetType_def
  by (metis Suc_numeral lessI take_Suc_conv_app_nth semiring_norm(5) semiring_norm(2) take_all order_refl)

lemma bytesCompare_sym: "bytesCompare a b = - bytesCompare b a"
  by (induction a b rule: bytesCompare.induct) auto

lemma addrEqual_iff: "length a = length b \<Longrightarrow> addrEqual a b \<longleftrightarrow> a = b"
  by (induction a arbitrary: b) (auto split: list.splits)

lemma addrLess_irrefl: "\<not> addrLess a a"
  by (induction a) simp_all

lemma addrLess_trans: "addrLess a b \<Longrightarrow> addrLess b c \<Longrightarrow> addrLess a c"
proof (induction a b arbitrary: c rule: addrLess.induct)
  case (1 v as b bs)
  then show ?case by (cases c) (auto split: if_splits)
qed simp_all

lemma addrLess_total: "length a = length b \<Longrightarrow> addrLess a b \<or> a = b \<or> addrLess b a"
  by (induction a b rule: list_induct2) (auto split: if_splits)

section \<open>Properties\<close>

text \<open>
  If base58 decodes what it encodes, then the
  string of every address of a known type is read back as that address, and the string of an address
  of any other type is refused.
\<close>

lemma StringToAddress_addrStr:
  assumes base58: "\<And>payload version. CheckDecode (CheckEncode payload version) = Some (payload, version)"
    and "wf_addr a"
  shows "StringToAddress CheckDecode (addrStr CheckEncode a) =
    (if GetType a \<in> {PublicKeyHash, ScriptHash, ContractHash} then Inr a else Inl AddressTypeInvalid)"
proof -
  have "length (take 20 a @ [t]) = 21" for t
    using assms(2) by (simp add: wf_addr_def)
  then have "BytesToAddress (take 20 a @ [t]) = take 20 a @ [t]" for t
    by (rule BytesToAddress_21)
  moreover have "a = take 20 a @ [GetType a]"
    using addr_split [OF assms(2)] by (simp only: addrBytes_def)
  ultimately show ?thesis
    by (auto simp: StringToAddress_def addrStr_def base58 GetType_def)
qed

text \<open>
  C28. \<open>Less\<close> orders addresses strictly and totally, and \<open>Equal\<close> is equality of addresses, so that
  sorting addresses gives every node the same order.
\<close>

theorem address_order:
  assumes "wf_addr a" and "wf_addr b" and "wf_addr c"
  shows "(addrLess a b \<and> addrLess b c \<longrightarrow> addrLess a c)
    \<and> \<not> addrLess a a
    \<and> (addrLess a b \<longrightarrow> \<not> addrLess b a)
    \<and> (addrLess a b \<or> addrEqual a b \<or> addrLess b a)
    \<and> (addrEqual a b \<longleftrightarrow> a = b)"
  using assms addrLess_trans addrLess_irrefl addrLess_total [of a b] addrEqual_iff [of a b]
  unfolding wf_addr_def by metis

theorem address_order_witness:
  "addrLess (replicate 20 1 @ [5]) (replicate 20 2 @ [0]) \<and> \<not> addrLess (replicate 20 2 @ [0]) (replicate 20 1 @ [5])"
  using address_order [of "replicate 20 1 @ [5]" "replicate 20 2 @ [0]" "replicate 20 1 @ [5]"]
  by (simp add: wf_addr_def numeral_eq_Suc)

end
