(* ===== verification/Standard.thy ===== *)
theory Standard
  imports ScriptBuilder Address
begin

text \<open>
  Standard scripts: \<open>src/tokenengine/internal/txscript/standard.go\<close>, the address data of \<open>types.go\<close> in the
  same package, and \<open>src/common/crypto/hash160.go\<close>. The hash functions of the Go library and of
  \<open>golang.org/x/crypto\<close> are fields of a record that every definition takes.
\<close>

section \<open>Model\<close>

record hash_lib =
  sha1Sum :: "bytes \<Rightarrow> bytes"
  sha256Sum :: "bytes \<Rightarrow> bytes"
  ripemd160Sum :: "bytes \<Rightarrow> bytes"
  keccak256Sum :: "bytes \<Rightarrow> bytes"

definition Hash160 :: "'a hash_lib_scheme \<Rightarrow> bytes \<Rightarrow> bytes" where
  "Hash160 L buf = ripemd160Sum L (sha256Sum L buf)"

abbreviation MaxDataCarrierSize :: nat where "MaxDataCarrierSize \<equiv> 80"

datatype ScriptClass = NonStandardTy | PubKeyTy | PubKeyHashTy | ScriptHashTy | MultiSigTy | NullDataTy
  | ContractHashTy

definition scriptClassToName :: "string list" where
  "scriptClassToName = [''nonstandard'', ''pubkey'', ''pubkeyhash'', ''scripthash'', ''multisig'',
     ''nulldata'', ''contracthash'']"

text \<open>A \<open>ScriptClass\<close> is a byte in the source, so that \<open>String\<close> can be asked about any of 256 values.\<close>

definition ScriptClass_String :: "byte \<Rightarrow> script_error + string" where
  "ScriptClass_String t =
     (if int (unat t) > int (length scriptClassToName) \<or> int (unat t) < 0 then Inr ''Invalid''
      else if unat t < length scriptClassToName then Inr (scriptClassToName ! unat t)
      else Inl GoPanic)"

definition isPubkey :: "parsedOpcode list \<Rightarrow> bool" where
  "isPubkey pops = (length pops = 2
     \<and> (length (pop_data (pops ! 0)) = 33 \<or> length (pop_data (pops ! 0)) = 65)
     \<and> pvalue (pops ! 1) = OP_CHECKSIG)"

definition isPubkeyHash :: "parsedOpcode list \<Rightarrow> bool" where
  "isPubkeyHash pops = (length pops = 5 \<and> pvalue (pops ! 0) = OP_DUP \<and> pvalue (pops ! 1) = OP_HASH160
     \<and> pvalue (pops ! 2) = OP_DATA_20 \<and> pvalue (pops ! 3) = OP_EQUALVERIFY \<and> pvalue (pops ! 4) = OP_CHECKSIG)"

definition isMultiSig :: "parsedOpcode list \<Rightarrow> bool" where
  "isMultiSig pops =
     (let l = length pops
      in if l < 4 then False
         else if \<not> isSmallInt (popcode (pops ! 0)) then False
         else if \<not> isSmallInt (popcode (pops ! (l - 2))) then False
         else if pvalue (pops ! (l - 1)) \<noteq> OP_CHECKMULTISIG then False
         else if int l - 2 - 1 \<noteq> asSmallInt (popcode (pops ! (l - 2))) then False
         else list_all (\<lambda>pop. \<not> (length (pop_data pop) \<noteq> 33 \<and> length (pop_data pop) \<noteq> 65))
                (drop 1 (take (l - 2) pops)))"

definition isNullData :: "parsedOpcode list \<Rightarrow> bool" where
  "isNullData pops =
     (let l = length pops
      in if l = 1 \<and> pvalue (pops ! 0) = OP_RETURN then True
         else l = 2 \<and> pvalue (pops ! 0) = OP_RETURN \<and> pvalue (pops ! 1) \<le> OP_PUSHDATA4
              \<and> length (pop_data (pops ! 1)) \<le> MaxDataCarrierSize)"

definition typeOfScript :: "parsedOpcode list \<Rightarrow> ScriptClass" where
  "typeOfScript pops =
     (if isPubkey pops then PubKeyTy
      else if isPubkeyHash pops then PubKeyHashTy
      else if isScriptHash pops then ScriptHashTy
      else if isContractHash pops then ContractHashTy
      else if isMultiSig pops then MultiSigTy
      else if isNullData pops then NullDataTy
      else NonStandardTy)"

definition GetScriptClass :: "bytes \<Rightarrow> ScriptClass" where
  "GetScriptClass script = (case parseScript script of (pops, None) \<Rightarrow> typeOfScript pops | _ \<Rightarrow> NonStandardTy)"

definition expectedInputs :: "parsedOpcode list \<Rightarrow> ScriptClass \<Rightarrow> int" where
  "expectedInputs pops cls =
     (case cls of PubKeyTy \<Rightarrow> 1 | PubKeyHashTy \<Rightarrow> 2 | ScriptHashTy \<Rightarrow> 1
      | MultiSigTy \<Rightarrow> asSmallInt (popcode (pops ! 0)) + 1
      | _ \<Rightarrow> -1)"

record ScriptInfo =
  PkScriptClass :: ScriptClass
  NumInputs :: int
  ExpectedInputs :: int
  SigOps :: int

definition CalcScriptInfo :: "bytes \<Rightarrow> bytes \<Rightarrow> bool \<Rightarrow> script_error + ScriptInfo" where
  "CalcScriptInfo sigScript pkScript bip16 =
     (case parseScript sigScript of
        (_, Some e) \<Rightarrow> Inl e
      | (sigPops, None) \<Rightarrow> (case parseScript pkScript of
          (_, Some e) \<Rightarrow> Inl e
        | (pkPops, None) \<Rightarrow>
            (let cls = typeOfScript pkPops
             in if \<not> isPushOnly sigPops then Inl ErrStackNonPushOnly
                else
                  (let exp = expectedInputs pkPops cls; num = int (length sigPops)
                   in if cls = ScriptHashTy \<and> bip16 then
                        (if sigPops = [] then Inl GoPanic
                         else (case parseScript (pop_data (last sigPops)) of
                             (_, Some e) \<Rightarrow> Inl e
                           | (shPops, None) \<Rightarrow>
                               (let shInputs = expectedInputs shPops (typeOfScript shPops)
                                in Inr \<lparr>PkScriptClass = cls, NumInputs = num,
                                        ExpectedInputs = (if shInputs = -1 then -1 else exp + shInputs),
                                        SigOps = getSigOpCount shPops True\<rparr>)))
                      else Inr \<lparr>PkScriptClass = cls, NumInputs = num, ExpectedInputs = exp,
                                SigOps = getSigOpCount pkPops True\<rparr>))))"

definition CalcMultiSigStats :: "bytes \<Rightarrow> script_error + int \<times> int" where
  "CalcMultiSigStats script =
     (case parseScript script of
        (_, Some e) \<Rightarrow> Inl e
      | (pops, None) \<Rightarrow>
          (if length pops < 4 then Inl ErrStackUnderflow
           else Inr (asSmallInt (popcode (pops ! (length pops - 2))), asSmallInt (popcode (pops ! 0)))))"

text \<open>The result of \<open>Script()\<close>: callers that return both components return the script and the error.\<close>

definition payToPubKeyHashScript :: "bytes \<Rightarrow> bytes \<times> script_error option" where
  "payToPubKeyHashScript pubKeyHash =
     BuilderScript (AddOp OP_CHECKSIG (AddOp OP_EQUALVERIFY (AddData pubKeyHash
       (AddOp OP_HASH160 (AddOp OP_DUP NewScriptBuilder)))))"

definition payToScriptHashScript :: "bytes \<Rightarrow> bytes \<times> script_error option" where
  "payToScriptHashScript scriptHash =
     BuilderScript (AddOp OP_EQUAL (AddData scriptHash (AddOp OP_HASH160 NewScriptBuilder)))"

definition payToContractHash :: "bytes \<Rightarrow> bytes \<times> script_error option" where
  "payToContractHash serializedPubKey =
     BuilderScript (AddOp OP_JURY_REDEEM_EQUAL (AddData serializedPubKey NewScriptBuilder))"

definition PayToAddrScript :: "address \<Rightarrow> bytes \<times> script_error option" where
  "PayToAddrScript addr =
     (if GetType addr = PublicKeyHash then payToPubKeyHashScript (addrBytes addr)
      else if GetType addr = ScriptHash then payToScriptHashScript (addrBytes addr)
      else if GetType addr = ContractHash then payToContractHash (addrBytes addr)
      else ([], Some ErrUnsupportedAddress))"

definition MultiSigScript :: "bytes list \<Rightarrow> int \<Rightarrow> script_error + bytes \<times> script_error option" where
  "MultiSigScript pubkeys nrequired =
     (if int (length pubkeys) < nrequired then Inr ([], Some ErrBadNumRequired)
      else (case AddInt64 nrequired NewScriptBuilder of
          Inl e \<Rightarrow> Inl e
        | Inr b \<Rightarrow> (case AddInt64 (int (length pubkeys)) (fold AddData pubkeys b) of
            Inl e \<Rightarrow> Inl e
          | Inr b' \<Rightarrow> Inr (BuilderScript (AddOp OP_CHECKMULTISIG b')))))"

definition PushedData :: "bytes \<Rightarrow> script_error + bytes option list" where
  "PushedData script =
     (case parseScript script of
        (_, Some e) \<Rightarrow> Inl e
      | (pops, None) \<Rightarrow>
          Inr (concat (map (\<lambda>pop. case pdata pop of
                 Some d \<Rightarrow> [Some d]
               | None \<Rightarrow> (if pvalue pop = OP_0 then [None] else [])) pops)))"

record AddressOriginalData =
  aodAddress :: address
  aodOriginal :: bytes

definition NewAddressOriginalData :: "'a hash_lib_scheme \<Rightarrow> bytes \<Rightarrow> ScriptClass \<Rightarrow> AddressOriginalData" where
  "NewAddressOriginalData L data at =
     (let hash160 = (if length data \<noteq> 20 then Hash160 L data else data)
      in case at of
           PubKeyHashTy \<Rightarrow> \<lparr>aodAddress = NewAddress hash160 PublicKeyHash, aodOriginal = data\<rparr>
         | ScriptHashTy \<Rightarrow> \<lparr>aodAddress = NewAddress hash160 ScriptHash, aodOriginal = data\<rparr>
         | ContractHashTy \<Rightarrow> \<lparr>aodAddress = NewAddress hash160 ContractHash, aodOriginal = data\<rparr>
         | PubKeyTy \<Rightarrow> \<lparr>aodAddress = NewAddress hash160 PublicKeyHash, aodOriginal = data\<rparr>
         | _ \<Rightarrow> \<lparr>aodAddress = replicate AddressLength 0, aodOriginal = data\<rparr>)"

record pk_addrs =
  pkClass :: ScriptClass
  pkAddrs :: "AddressOriginalData list"
  pkSigs :: int

definition ExtractPkScriptAddrs :: "'a hash_lib_scheme \<Rightarrow> bytes \<Rightarrow> pk_addrs \<times> script_error option" where
  "ExtractPkScriptAddrs L pkScript =
     (case parseScript pkScript of
        (_, Some e) \<Rightarrow> (\<lparr>pkClass = NonStandardTy, pkAddrs = [], pkSigs = 0\<rparr>, Some e)
      | (pops, None) \<Rightarrow>
          (let cls = typeOfScript pops;
               one = (\<lambda>i. \<lparr>pkClass = cls, pkAddrs = [NewAddressOriginalData L (pop_data (pops ! i)) cls], pkSigs = 1\<rparr>)
           in (case cls of
                 PubKeyHashTy \<Rightarrow> one 2
               | PubKeyTy \<Rightarrow> one 0
               | ScriptHashTy \<Rightarrow> one 1
               | ContractHashTy \<Rightarrow> one 0
               | MultiSigTy \<Rightarrow>
                   (let numPubKeys = asSmallInt (popcode (pops ! (length pops - 2)))
                    in \<lparr>pkClass = cls,
                        pkAddrs = map (\<lambda>i. NewAddressOriginalData L (pop_data (pops ! (i + 1))) PubKeyTy)
                                    [0..<nat numPubKeys],
                        pkSigs = asSmallInt (popcode (pops ! 0))\<rparr>)
               | _ \<Rightarrow> \<lparr>pkClass = cls, pkAddrs = [], pkSigs = 0\<rparr>, None)))"

section \<open>The standard scripts\<close>

abbreviation op0 :: "byte \<Rightarrow> parsedOpcode" where
  "op0 b \<equiv> \<lparr>popcode = opcodeAt b, pdata = None\<rparr>"

abbreviation opD :: "byte \<Rightarrow> bytes \<Rightarrow> parsedOpcode" where
  "opD b d \<equiv> \<lparr>popcode = opcodeAt b, pdata = Some d\<rparr>"

definition p2pkhPops :: "bytes \<Rightarrow> parsedOpcode list" where
  "p2pkhPops h = [op0 OP_DUP, op0 OP_HASH160, opD OP_DATA_20 h, op0 OP_EQUALVERIFY, op0 OP_CHECKSIG]"

definition p2shPops :: "bytes \<Rightarrow> parsedOpcode list" where
  "p2shPops h = [op0 OP_HASH160, opD OP_DATA_20 h, op0 OP_EQUAL]"

definition p2chPops :: "bytes \<Rightarrow> parsedOpcode list" where
  "p2chPops h = [opD OP_DATA_20 h, op0 OP_JURY_REDEEM_EQUAL]"

lemma olength_op [simp]:
  "olength (opcodeAt OP_DUP) = 1" "olength (opcodeAt OP_HASH160) = 1" "olength (opcodeAt OP_EQUALVERIFY) = 1"
  "olength (opcodeAt OP_CHECKSIG) = 1" "olength (opcodeAt OP_EQUAL) = 1" "olength (opcodeAt OP_0) = 1"
  "olength (opcodeAt OP_JURY_REDEEM_EQUAL) = 1" "olength (opcodeAt OP_CHECKMULTISIG) = 1"
  "olength (opcodeAt OP_RETURN) = 1"
  by (simp_all add: olength_opcodeAt word_le_nat_alt)

lemma pushPop_20: "length h = 20 \<Longrightarrow> pushPop h = opD OP_DATA_20 h \<and> canonicalDataSize h = 21"
  using pushPop_direct(1) [of h] by (simp add: canonicalDataSize_def)

lemma builds_hash:
  "builds n b pops \<Longrightarrow> length h = 20 \<Longrightarrow> n \<le> 9900 \<Longrightarrow> builds (n + 21) (AddData h b) (pops @ [opD OP_DATA_20 h])"
  using builds_data [of n b pops h] pushPop_20 [of h] by simp

lemma builds_script: "builds n b pops \<Longrightarrow> \<exists>s. BuilderScript b = (s, None) \<and> parseScript s = (pops, None)"
  by (simp add: builds_def BuilderScript_def)

lemma p2pkh_builds:
  assumes "length h = 20"
  shows "builds 25 (AddOp OP_CHECKSIG (AddOp OP_EQUALVERIFY (AddData h
           (AddOp OP_HASH160 (AddOp OP_DUP NewScriptBuilder))))) (p2pkhPops h)"
proof -
  have "builds 2 (AddOp OP_HASH160 (AddOp OP_DUP NewScriptBuilder)) [op0 OP_DUP, op0 OP_HASH160]"
    using builds_op [OF builds_op [OF builds_new, of OP_DUP], of OP_HASH160] by (simp add: numeral_2_eq_2)
  from builds_op [OF builds_op [OF builds_hash [OF this assms], of OP_EQUALVERIFY], of OP_CHECKSIG]
  show ?thesis by (simp add: p2pkhPops_def)
qed

lemma p2sh_builds:
  assumes "length h = 20"
  shows "builds 23 (AddOp OP_EQUAL (AddData h (AddOp OP_HASH160 NewScriptBuilder))) (p2shPops h)"
proof -
  have "builds 1 (AddOp OP_HASH160 NewScriptBuilder) [op0 OP_HASH160]"
    using builds_op [OF builds_new, of OP_HASH160] by simp
  from builds_op [OF builds_hash [OF this assms], of OP_EQUAL]
  show ?thesis by (simp add: p2shPops_def)
qed

lemma p2ch_builds:
  assumes "length h = 20"
  shows "builds 22 (AddOp OP_JURY_REDEEM_EQUAL (AddData h NewScriptBuilder)) (p2chPops h)"
  using builds_op [OF builds_hash [OF builds_new assms], of OP_JURY_REDEEM_EQUAL] by (simp add: p2chPops_def)

lemma type_p2pkh: "typeOfScript (p2pkhPops h) = PubKeyHashTy"
  by (simp add: typeOfScript_def isPubkey_def isPubkeyHash_def p2pkhPops_def)

lemma type_p2sh: "typeOfScript (p2shPops h) = ScriptHashTy"
  by (simp add: typeOfScript_def isPubkey_def isPubkeyHash_def isScriptHash_def p2shPops_def)

lemma type_p2ch: "typeOfScript (p2chPops h) = ContractHashTy"
  by (simp add: typeOfScript_def isPubkey_def isPubkeyHash_def isScriptHash_def isContractHash_def p2chPops_def)

lemma pops_hash:
  "pop_data (p2pkhPops h ! 2) = h" "pop_data (p2shPops h ! 1) = h" "pop_data (p2chPops h ! 0) = h"
  by (simp_all add: p2pkhPops_def p2shPops_def p2chPops_def pop_data_def)

lemma addrBytes_length [simp]: "wf_addr a \<Longrightarrow> length (addrBytes a) = 20"
  by (simp add: wf_addr_def addrBytes_def)

lemma NewAddress_addr: "wf_addr a \<Longrightarrow> NewAddress (addrBytes a) (GetType a) = a"
  using addr_split [of a] by (simp add: NewAddress_20)

definition classOfType :: "byte \<Rightarrow> ScriptClass" where
  "classOfType t = (if t = PublicKeyHash then PubKeyHashTy else if t = ScriptHash then ScriptHashTy
     else if t = ContractHash then ContractHashTy else NonStandardTy)"

lemma PayToAddrScript_cases:
  assumes "wf_addr a" and "GetType a \<in> {PublicKeyHash, ScriptHash, ContractHash}"
  obtains s pops where "PayToAddrScript a = (s, None)" and "parseScript s = (pops, None)"
    and "pops = (if GetType a = PublicKeyHash then p2pkhPops (addrBytes a)
                 else if GetType a = ScriptHash then p2shPops (addrBytes a) else p2chPops (addrBytes a))"
proof -
  note b = builds_script [OF p2pkh_builds [OF addrBytes_length [OF assms(1)]]]
    builds_script [OF p2sh_builds [OF addrBytes_length [OF assms(1)]]]
    builds_script [OF p2ch_builds [OF addrBytes_length [OF assms(1)]]]
  have "\<exists>s pops. PayToAddrScript a = (s, None) \<and> parseScript s = (pops, None) \<and>
      pops = (if GetType a = PublicKeyHash then p2pkhPops (addrBytes a)
              else if GetType a = ScriptHash then p2shPops (addrBytes a) else p2chPops (addrBytes a))"
    using b assms(2)
    unfolding PayToAddrScript_def payToPubKeyHashScript_def payToScriptHashScript_def payToContractHash_def
    by auto
  then show ?thesis using that by blast
qed

subsection \<open>Multi-signature scripts\<close>

definition multiSigPops :: "bytes list \<Rightarrow> int \<Rightarrow> parsedOpcode list" where
  "multiSigPops keys n = op0 (80 + word_of_int n) # map pushPop keys
     @ [op0 (80 + word_of_int (int (length keys))), op0 OP_CHECKMULTISIG]"

abbreviation pubkeyLen :: "bytes \<Rightarrow> bool" where
  "pubkeyLen key \<equiv> length key = 33 \<or> length key = 65"

lemma pushPop_pubkey: "pubkeyLen key \<Longrightarrow> pop_data (pushPop key) = key \<and> canonicalDataSize key \<le> 66"
  using pushPop_direct(1) [of key] by (auto simp: pop_data_def canonicalDataSize_def)

lemma builds_keys:
  assumes "builds n b pops" and "list_all pubkeyLen keys" and "n + 66 * length keys \<le> maxScriptSize"
  shows "\<exists>m \<le> n + 66 * length keys. builds m (fold AddData keys b) (pops @ map pushPop keys)"
  using assms
proof (induction keys arbitrary: n b pops)
  case Nil
  then show ?case by auto
next
  case (Cons k ks)
  have k: "pubkeyLen k" "canonicalDataSize k \<le> 66"
    using Cons.prems(2) pushPop_pubkey by auto
  have "builds (n + canonicalDataSize k) (AddData k b) (pops @ [pushPop k])"
    using Cons.prems k by (intro builds_data) auto
  from Cons.IH [OF this] Cons.prems k
  obtain m where "m \<le> n + canonicalDataSize k + 66 * length ks"
    and "builds m (fold AddData ks (AddData k b)) ((pops @ [pushPop k]) @ map pushPop ks)"
    by auto
  with k show ?case
    by (intro exI [of _ m]) auto
qed

lemma MultiSigScript_builds:
  assumes "list_all pubkeyLen keys" and "length keys \<le> 16" and "1 \<le> n" and "n \<le> int (length keys)"
  shows "\<exists>s. MultiSigScript keys n = Inr (s, None) \<and> parseScript s = (multiSigPops keys n, None)"
proof -
  obtain b1 where b1: "AddInt64 n NewScriptBuilder = Inr b1" "builds 1 b1 [op0 (80 + word_of_int n)]"
    using AddInt64_small [OF builds_new, of n] assms by auto
  obtain m where m: "m \<le> 1 + 66 * length keys"
    "builds m (fold AddData keys b1) (op0 (80 + word_of_int n) # map pushPop keys)"
    using builds_keys [OF b1(2) assms(1)] assms(2) by auto
  obtain b2 where b2: "AddInt64 (int (length keys)) (fold AddData keys b1) = Inr b2"
    "builds (Suc m) b2 ((op0 (80 + word_of_int n) # map pushPop keys) @ [op0 (80 + word_of_int (int (length keys)))])"
    using AddInt64_small [OF m(2), of "int (length keys)"] m(1) assms by auto
  have "builds (Suc (Suc m)) (AddOp OP_CHECKMULTISIG b2) (multiSigPops keys n)"
    using builds_op [OF b2(2), of OP_CHECKMULTISIG] m(1) assms(2) by (simp add: multiSigPops_def)
  from builds_script [OF this] b1(1) b2(1) assms show ?thesis
    by (auto simp: MultiSigScript_def)
qed

lemma asSmallInt_byte: "1 \<le> k \<Longrightarrow> k \<le> 16 \<Longrightarrow> asSmallInt (opcodeAt (80 + word_of_int k)) = k"
  using small_int_byte [of k] uint_sub_lem [of "0x50 :: byte" "80 + word_of_int k"]
  by (auto simp: asSmallInt_def word_uint_eq_iff)

lemma isSmallInt_byte: "1 \<le> k \<Longrightarrow> k \<le> 16 \<Longrightarrow> isSmallInt (opcodeAt (80 + word_of_int k))"
  using small_int_byte [of k] by (simp add: isSmallInt_def word_le_def)

lemma smallInt_nat:
  "1 \<le> k \<Longrightarrow> k \<le> 16 \<Longrightarrow> asSmallInt (opcodeAt (80 + word_of_nat k)) = int k"
  "1 \<le> k \<Longrightarrow> k \<le> 16 \<Longrightarrow> isSmallInt (opcodeAt (80 + word_of_nat k))"
  using asSmallInt_byte [of "int k"] isSmallInt_byte [of "int k"] by simp_all

lemma type_multiSig:
  assumes "list_all pubkeyLen keys" and "length keys \<le> 16" and "1 \<le> n" and "n \<le> int (length keys)"
  shows "typeOfScript (multiSigPops keys n) = MultiSigTy"
proof -
  let ?p = "multiSigPops keys n"
  have len: "length ?p = length keys + 3" and "1 \<le> length keys"
    using assms by (auto simp: multiSigPops_def)
  have last: "?p ! (length keys + 2) = op0 OP_CHECKMULTISIG"
    "?p ! (length keys + 1) = op0 (80 + word_of_int (int (length keys)))"
    "drop 1 (take (length keys + 1) ?p) = map pushPop keys"
    by (simp_all add: multiSigPops_def nth_append)
  have "pvalue (?p ! 0) \<noteq> OP_DUP"
    using small_int_byte [of n] assms by (auto simp: multiSigPops_def word_uint_eq_iff)
  then have "\<not> isPubkey ?p" "\<not> isPubkeyHash ?p" "\<not> isScriptHash ?p" "\<not> isContractHash ?p"
    using len \<open>1 \<le> length keys\<close> by (auto simp: isPubkey_def isPubkeyHash_def isScriptHash_def isContractHash_def)
  moreover have "isMultiSig ?p"
    using assms last \<open>1 \<le> length keys\<close> pushPop_pubkey
    by (auto simp: isMultiSig_def len Let_def multiSigPops_def [of keys n, THEN arg_cong [where f = "\<lambda>l. l ! 0"]]
        isSmallInt_byte smallInt_nat list_all_iff)
  ultimately show ?thesis
    by (simp add: typeOfScript_def)
qed

section \<open>Properties\<close>

text \<open>
  C29. The lock script made for an address of a known type pays to that address and to no other: it
  is built without error, it has the script class of the address type, and the addresses read from it
  are exactly that address with one required signature. Any other address type is refused.
\<close>

theorem pay_to_address_roundtrip:
  assumes "wf_addr a"
  shows "(if GetType a \<in> {PublicKeyHash, ScriptHash, ContractHash}
          then \<exists>s. PayToAddrScript a = (s, None)
                 \<and> GetScriptClass s = classOfType (GetType a)
                 \<and> ExtractPkScriptAddrs L s =
                     (\<lparr>pkClass = classOfType (GetType a),
                       pkAddrs = [\<lparr>aodAddress = a, aodOriginal = addrBytes a\<rparr>], pkSigs = 1\<rparr>, None)
          else PayToAddrScript a = ([], Some ErrUnsupportedAddress))"
proof (cases "GetType a \<in> {PublicKeyHash, ScriptHash, ContractHash}")
  case True
  obtain s pops where s: "PayToAddrScript a = (s, None)" "parseScript s = (pops, None)"
    and pops: "pops = (if GetType a = PublicKeyHash then p2pkhPops (addrBytes a)
                 else if GetType a = ScriptHash then p2shPops (addrBytes a) else p2chPops (addrBytes a))"
    using PayToAddrScript_cases [OF assms True] by blast
  have "typeOfScript pops = classOfType (GetType a)"
    using True by (auto simp: pops type_p2pkh type_p2sh type_p2ch classOfType_def)
  moreover have "ExtractPkScriptAddrs L s =
      (\<lparr>pkClass = classOfType (GetType a), pkAddrs = [\<lparr>aodAddress = a, aodOriginal = addrBytes a\<rparr>], pkSigs = 1\<rparr>, None)"
    using True s(2) NewAddress_addr [OF assms]
    by (auto simp: ExtractPkScriptAddrs_def pops type_p2pkh type_p2sh type_p2ch classOfType_def Let_def
        NewAddressOriginalData_def pops_hash [unfolded One_nat_def] assms)
  ultimately show ?thesis
    using True s by (auto simp: GetScriptClass_def)
qed (auto simp: PayToAddrScript_def)

theorem pay_to_address_roundtrip_witness:
  "\<exists>s. PayToAddrScript (replicate 20 7 @ [ContractHash]) = (s, None) \<and> GetScriptClass s = ContractHashTy"
  using pay_to_address_roundtrip
    [of "replicate 20 7 @ [ContractHash]" "\<lparr>sha1Sum = id, sha256Sum = id, ripemd160Sum = id, keccak256Sum = id\<rparr>"]
  by (auto simp: wf_addr_def GetType_def nth_append classOfType_def)

text \<open>
  C30. A multi-signature script for up to sixteen public keys is recognised as one: the script made
  for \<open>n\<close> of the given keys parses, has the multi-signature class, requires \<open>n\<close> signatures, and its
  addresses are those of the keys, in order. Requiring more signatures than keys is refused.
\<close>

theorem multisig_script_roundtrip:
  assumes "list_all pubkeyLen keys" and "length keys \<le> 16" and "1 \<le> n"
  shows "(if n \<le> int (length keys)
          then \<exists>s. MultiSigScript keys n = Inr (s, None)
                 \<and> ExtractPkScriptAddrs L s =
                     (\<lparr>pkClass = MultiSigTy,
                       pkAddrs = map (\<lambda>key. \<lparr>aodAddress = NewAddress (Hash160 L key) PublicKeyHash, aodOriginal = key\<rparr>) keys,
                       pkSigs = n\<rparr>, None)
                 \<and> CalcMultiSigStats s = Inr (int (length keys), n)
          else MultiSigScript keys n = Inr ([], Some ErrBadNumRequired))"
proof (cases "n \<le> int (length keys)")
  case True
  obtain s where s: "MultiSigScript keys n = Inr (s, None)" "parseScript s = (multiSigPops keys n, None)"
    using MultiSigScript_builds [OF assms True] by blast
  let ?p = "multiSigPops keys n"
  have len: "length ?p = length keys + 3"
    and ends: "popcode (?p ! 0) = opcodeAt (80 + word_of_int n)"
      "popcode (?p ! (length keys + 1)) = opcodeAt (80 + word_of_int (int (length keys)))"
    by (simp_all add: multiSigPops_def nth_append)
  have sizes: "asSmallInt (popcode (?p ! 0)) = n"
    "asSmallInt (popcode (?p ! (length keys + 1))) = int (length keys)"
    using assms True by (simp_all add: ends [simplified] asSmallInt_byte smallInt_nat)
  have keys: "map (\<lambda>i. f (pop_data (?p ! (i + 1)))) [0..<length keys] = map f keys" for f :: "bytes \<Rightarrow> AddressOriginalData"
    using assms(1) pushPop_pubkey
    by (intro nth_equalityI) (auto simp: multiSigPops_def nth_append list_all_length)
  have "map (\<lambda>key. NewAddressOriginalData L key PubKeyTy) keys =
      map (\<lambda>key. \<lparr>aodAddress = NewAddress (Hash160 L key) PublicKeyHash, aodOriginal = key\<rparr>) keys"
    using assms(1) by (auto simp: NewAddressOriginalData_def list_all_iff)
  with keys [of "\<lambda>d. NewAddressOriginalData L d PubKeyTy"]
  have "ExtractPkScriptAddrs L s =
      (\<lparr>pkClass = MultiSigTy,
        pkAddrs = map (\<lambda>key. \<lparr>aodAddress = NewAddress (Hash160 L key) PublicKeyHash, aodOriginal = key\<rparr>) keys,
        pkSigs = n\<rparr>, None)"
    using sizes by (simp add: ExtractPkScriptAddrs_def s(2) type_multiSig [OF assms True] len)
  moreover have "CalcMultiSigStats s = Inr (int (length keys), n)"
    using sizes True assms(3) by (auto simp: CalcMultiSigStats_def s(2) len)
  ultimately show ?thesis
    using True s(1) by simp
qed (simp add: MultiSigScript_def)

theorem multisig_script_roundtrip_witness:
  "\<exists>s. MultiSigScript [replicate 33 2, replicate 65 4] 2 = Inr (s, None) \<and> CalcMultiSigStats s = Inr (2, 2)"
  using multisig_script_roundtrip
    [of "[replicate 33 2, replicate 65 4]" 2 "\<lparr>sha1Sum = id, sha256Sum = id, ripemd160Sum = id, keccak256Sum = id\<rparr>"]
  by auto

end
