(* ===== verification/TxModel.thy ===== *)
theory TxModel
  imports ScriptNum Address
begin

text \<open>
  Transactions: \<open>src/dag/modules/payment.go\<close>, \<open>utxo.go\<close>, \<open>asset.go\<close>, \<open>message.go\<close>, \<open>transaction.go\<close> and
  \<open>transaction_rlp.go\<close>. Pointers that the code dereferences without a test are values; the pointer
  \<open>PreviousOutPoint\<close>, for which nil means a newly created token, is an option. Byte slices are lists, so
  that the deep copy of a slice is the identity; the version of a read is a pointer that may be nil and is an option.
  The RLP codec and the hash function are third-party code and are fields of a
  record of functions; an RLP encoding does not fail here.
\<close>

section \<open>Data\<close>

record asset =
  AssetId :: bytes
  UniqueId :: bytes

record outPoint =
  TxHash :: bytes
  MessageIndex :: uint32
  OutIndex :: uint32

record txInput =
  SignatureScript :: bytes
  Extra :: bytes
  PreviousOutPoint :: "outPoint option"

record txOutput =
  Value :: uint64
  PkScript :: bytes
  outAsset :: asset

record paymentPayload =
  Inputs :: "txInput list"
  Outputs :: "txOutput list"
  LockTime :: uint32

record signatureSet =
  sigPubKey :: bytes
  sigSignature :: bytes

record chainIndex =
  ciAssetId :: bytes
  ciIndex :: uint64

record stateVersion =
  svHeight :: "chainIndex option"
  svTxIndex :: uint32

record contractReadSet =
  rsKey :: string
  rsVersion :: "stateVersion option"
  rsContractId :: bytes

record contractWriteSet =
  wsIsDelete :: bool
  wsKey :: string
  wsValue :: bytes
  wsContractId :: bytes

record contractError =
  ceCode :: uint32
  ceMessage :: string

record electionInf =
  eiType :: byte
  eiAddrHash :: bytes
  eiProof :: bytes
  eiPublicKey :: bytes

record electionNode =
  JuryCount :: uint64
  EleList :: "electionInf list"

record contractTplPayload =
  tplTemplateId :: bytes
  tplSize :: "16 word"
  tplByteCode :: bytes
  tplErrMsg :: contractError

record contractDeployPayload =
  depTemplateId :: bytes
  depContractId :: bytes
  depName :: string
  depArgs :: "bytes list"
  depEleNode :: electionNode
  depReadSet :: "contractReadSet list"
  depWriteSet :: "contractWriteSet list"
  depDuringTime :: uint64
  depErrMsg :: contractError

record contractInvokePayload =
  invContractId :: bytes
  invArgs :: "bytes list"
  invReadSet :: "contractReadSet list"
  invWriteSet :: "contractWriteSet list"
  invPayload :: bytes
  invErrMsg :: contractError

record contractStopPayload =
  stpContractId :: bytes
  stpReadSet :: "contractReadSet list"
  stpWriteSet :: "contractWriteSet list"
  stpErrMsg :: contractError

record installRequestPayload =
  irTplName :: string
  irTplDescription :: string
  irPath :: string
  irVersion :: string
  irAbi :: string
  irLanguage :: string
  irAddrHash :: "bytes list"
  irCreator :: string

record deployRequestPayload =
  drTemplateId :: bytes
  drArgs :: "bytes list"
  drExtData :: bytes
  drTimeout :: uint32

record accountStateWriteSet =
  aswIsDelete :: bool
  aswKey :: string
  aswValue :: bytes

datatype payload =
    PayPayment paymentPayload
  | PayTpl contractTplPayload
  | PayDeploy contractDeployPayload
  | PayInvoke contractInvokePayload
  | PayStop contractStopPayload
  | PaySignature "signatureSet list"
  | PayData (MainData: bytes) (ExtraData: bytes) (Reference: bytes)
  | PayAccountUpdate "accountStateWriteSet list"
  | PayInstallRequest installRequestPayload
  | PayDeployRequest deployRequestPayload
  | PayInvokeRequest (reqContractId: bytes) (reqArgs: "bytes list") (reqTimeout: uint32)
  | PayStopRequest (stopContractId: bytes) (stopTxid: string) (stopDeleteImage: bool)
  | PayNil

record message =
  App :: byte
  Payload :: payload

record transaction =
  TxMessages :: "message list"
  CertId :: bytes
  Illegal :: bool
  txHash :: "bytes option"

record utxo =
  Amount :: uint64
  utxoAsset :: asset
  utxoPkScript :: bytes
  utxoLockTime :: uint32
  Timestamp :: uint64
  Flags :: byte

record amountAsset =
  aaAmount :: uint64
  aaAsset :: "asset option"

abbreviation (input) APP_PAYMENT :: byte where "APP_PAYMENT \<equiv> 0"
abbreviation (input) APP_CONTRACT_TPL :: byte where "APP_CONTRACT_TPL \<equiv> 1"
abbreviation (input) APP_CONTRACT_DEPLOY :: byte where "APP_CONTRACT_DEPLOY \<equiv> 2"
abbreviation (input) APP_CONTRACT_INVOKE :: byte where "APP_CONTRACT_INVOKE \<equiv> 3"
abbreviation (input) APP_CONTRACT_STOP :: byte where "APP_CONTRACT_STOP \<equiv> 4"
abbreviation (input) APP_SIGNATURE :: byte where "APP_SIGNATURE \<equiv> 5"
abbreviation (input) APP_DATA :: byte where "APP_DATA \<equiv> 6"
abbreviation (input) APP_ACCOUNT_UPDATE :: byte where "APP_ACCOUNT_UPDATE \<equiv> 7"
abbreviation (input) APP_UNKNOW :: byte where "APP_UNKNOW \<equiv> 99"
abbreviation (input) APP_CONTRACT_TPL_REQUEST :: byte where "APP_CONTRACT_TPL_REQUEST \<equiv> 100"
abbreviation (input) APP_CONTRACT_DEPLOY_REQUEST :: byte where "APP_CONTRACT_DEPLOY_REQUEST \<equiv> 101"
abbreviation (input) APP_CONTRACT_INVOKE_REQUEST :: byte where "APP_CONTRACT_INVOKE_REQUEST \<equiv> 102"
abbreviation (input) APP_CONTRACT_STOP_REQUEST :: byte where "APP_CONTRACT_STOP_REQUEST \<equiv> 103"

section \<open>Payments, outputs and assets\<close>

definition IsCoinbase :: "paymentPayload \<Rightarrow> bool" where
  "IsCoinbase pay = (Inputs pay = [] \<or> list_ex (\<lambda>input. PreviousOutPoint input = None) (Inputs pay))"

definition NewPaymentPayload :: "txInput list \<Rightarrow> txOutput list \<Rightarrow> paymentPayload" where
  "NewPaymentPayload inputs outputs = \<lparr>Inputs = inputs, Outputs = outputs, LockTime = 0\<rparr>"

definition AddTxIn :: "txInput \<Rightarrow> paymentPayload \<Rightarrow> paymentPayload" where
  "AddTxIn ti pld = pld\<lparr>Inputs := Inputs pld @ [ti]\<rparr>"

definition AddTxOut :: "txOutput \<Rightarrow> paymentPayload \<Rightarrow> paymentPayload" where
  "AddTxOut to pld = pld\<lparr>Outputs := Outputs pld @ [to]\<rparr>"

definition PTNCOIN :: bytes where
  "PTNCOIN = [0x40, 0x00, 0x82, 0xBB, 0x08, 0, 0, 0, 0, 0, 0, 0, 0, 0, 0, 0]"

definition assetBytes :: "asset \<Rightarrow> bytes" where
  "assetBytes a = AssetId a @ UniqueId a"

definition assetEqual :: "asset \<Rightarrow> asset \<Rightarrow> bool" where
  "assetEqual a b = (assetBytes a = assetBytes b)"

definition IsSameAssetId :: "asset \<Rightarrow> asset \<Rightarrow> bool" where
  "IsSameAssetId a b = (AssetId a = AssetId b)"

definition IsSimilar :: "asset \<Rightarrow> asset \<Rightarrow> bool" where
  "IsSimilar a b = (if AssetId a \<noteq> AssetId b then False else if UniqueId a \<noteq> UniqueId b then False else True)"

text \<open>The flags of an unspent output, with the operators the code applies to them.\<close>

abbreviation (input) tfCoinBase :: byte where "tfCoinBase \<equiv> 1"
abbreviation (input) tfSpent :: byte where "tfSpent \<equiv> 2"
abbreviation (input) tfModified :: byte where "tfModified \<equiv> 4"

definition IsModified :: "utxo \<Rightarrow> bool" where
  "IsModified u = (Flags u * tfModified = tfModified)"

definition IsSpent :: "utxo \<Rightarrow> bool" where
  "IsSpent u = (Flags u AND tfSpent = tfSpent)"

definition IsCoinBase :: "utxo \<Rightarrow> bool" where
  "IsCoinBase u = (Flags u AND tfCoinBase = tfCoinBase)"

definition Spend :: "utxo \<Rightarrow> utxo" where
  "Spend u = (if IsSpent u then u else u\<lparr>Flags := Flags u OR (tfSpent OR tfModified)\<rparr>)"

definition SetCoinBase :: "utxo \<Rightarrow> utxo" where
  "SetCoinBase u = u\<lparr>Flags := Flags u OR tfCoinBase\<rparr>"

definition NewUtxo :: "txOutput \<Rightarrow> uint32 \<Rightarrow> int \<Rightarrow> utxo" where
  "NewUtxo output lockTime timestamp =
     \<lparr>Amount = Value output, utxoAsset = outAsset output, utxoPkScript = PkScript output,
      utxoLockTime = lockTime, Timestamp = word_of_int timestamp, Flags = 0\<rparr>"

text \<open>The database key of an outpoint, and its inverse; numbers are big-endian.\<close>

definition EncodeNumberUint32 :: "uint32 \<Rightarrow> bytes" where
  "EncodeNumberUint32 n = map (\<lambda>k. ucast (drop_bit k n)) [24, 16, 8, 0]"

definition DecodeNumberUint32 :: "bytes \<Rightarrow> script_error + uint32" where
  "DecodeNumberUint32 key =
     (if length key < 4 then Inl GoPanic
      else Inr (push_bit 24 (ucast (key ! 0)) OR push_bit 16 (ucast (key ! 1)) OR push_bit 8 (ucast (key ! 2))
                OR ucast (key ! 3)))"

definition UTXO_PREFIX :: bytes where
  "UTXO_PREFIX = [0x75, 0x6f]"

definition outPointBytes :: "outPoint \<Rightarrow> bytes" where
  "outPointBytes pt = TxHash pt @ EncodeNumberUint32 (MessageIndex pt) @ EncodeNumberUint32 (OutIndex pt)"

definition outPointToKey :: "outPoint \<Rightarrow> bytes" where
  "outPointToKey pt = UTXO_PREFIX @ outPointBytes pt"

text \<open>\<open>Hash.SetBytes\<close> of \<open>src/common/hash.go\<close> on a zero hash.\<close>

definition BytesToHash :: "bytes \<Rightarrow> bytes" where
  "BytesToHash b =
     (let b' = (if length b > 32 then drop (length b - 32) b else b)
      in copyAt (32 - length b') b' (replicate 32 0))"

definition KeyToOutpoint :: "bytes \<Rightarrow> script_error + outPoint" where
  "KeyToOutpoint key =
     (let preLen = length UTXO_PREFIX
      in if length key < preLen + 32 + 4 \<or> length key < preLen + 8 then Inl GoPanic
         else (case DecodeNumberUint32 (take (length key - 4 - (preLen + 32)) (drop (preLen + 32) key)) of
             Inl e \<Rightarrow> Inl e
           | Inr mi \<Rightarrow> (case DecodeNumberUint32 (drop (preLen + 32 + 4) key) of
               Inl e \<Rightarrow> Inl e
             | Inr oi \<Rightarrow>
                 Inr \<lparr>TxHash = BytesToHash (take (length key - 8 - preLen) (drop preLen key)),
                      MessageIndex = mi, OutIndex = oi\<rparr>)))"

definition IsSelfHash :: "bytes \<Rightarrow> bool" where
  "IsSelfHash h = list_all (\<lambda>v. v = 0xff) h"

definition EmptyHash :: "bytes \<Rightarrow> bool" where
  "EmptyHash h = (h = replicate 32 0)"

section \<open>The wire form of a transaction\<close>

text \<open>
  Inputs are flattened before they are encoded: a missing outpoint becomes an all-zero one, and an
  all-zero transaction hash is read back as a missing outpoint.
\<close>

record inputTemp =
  itSignatureScript :: bytes
  itExtra :: bytes
  itTxHash :: bytes
  itMessageIndex :: uint32
  itOutIndex :: uint32

text \<open>
  A deploy payload has two wire forms: the one of a system contract has no jury count and no running time.
\<close>

record contractDeployPayloadV1 =
  v1TemplateId :: bytes
  v1ContractId :: bytes
  v1Name :: string
  v1Args :: "bytes list"
  v1EleList :: "electionInf list"
  v1ReadSet :: "contractReadSet list"
  v1WriteSet :: "contractWriteSet list"
  v1ErrMsg :: contractError

datatype wirePayload =
    WPayment "inputTemp list" "txOutput list" uint32
  | WDeployV1 contractDeployPayloadV1
  | WDeployV2 contractDeployPayload
  | WOther payload

record messageTemp =
  mtApp :: byte
  mtData :: bytes

record transactionTemp =
  ttMessages :: "messageTemp list"
  ttCertId :: bytes
  ttIllegal :: bool

record rlp_lib =
  encPayload :: "wirePayload \<Rightarrow> bytes"
  decPayload :: "byte \<Rightarrow> bytes \<Rightarrow> wirePayload option"
  encTx :: "transactionTemp \<Rightarrow> bytes"
  decTx :: "bytes \<Rightarrow> transactionTemp option"
  sha3Sum :: "bytes \<Rightarrow> bytes"

definition inputEncode :: "txInput \<Rightarrow> inputTemp" where
  "inputEncode input =
     (case PreviousOutPoint input of
        None \<Rightarrow> \<lparr>itSignatureScript = SignatureScript input, itExtra = Extra input,
                 itTxHash = replicate 32 0, itMessageIndex = 0, itOutIndex = 0\<rparr>
      | Some pt \<Rightarrow> \<lparr>itSignatureScript = SignatureScript input, itExtra = Extra input,
                   itTxHash = TxHash pt, itMessageIndex = MessageIndex pt, itOutIndex = OutIndex pt\<rparr>)"

definition inputDecode :: "inputTemp \<Rightarrow> txInput" where
  "inputDecode temp =
     \<lparr>SignatureScript = itSignatureScript temp, Extra = itExtra temp,
      PreviousOutPoint =
        (if \<not> EmptyHash (itTxHash temp)
         then Some \<lparr>TxHash = itTxHash temp, MessageIndex = itMessageIndex temp, OutIndex = itOutIndex temp\<rparr>
         else None)\<rparr>"

definition deployEncode :: "contractDeployPayload \<Rightarrow> wirePayload" where
  "deployEncode input =
     (if IsSystemContractId (depContractId input)
      then WDeployV1 \<lparr>v1TemplateId = depTemplateId input, v1ContractId = depContractId input, v1Name = depName input,
             v1Args = depArgs input, v1EleList = EleList (depEleNode input), v1ReadSet = depReadSet input,
             v1WriteSet = depWriteSet input, v1ErrMsg = depErrMsg input\<rparr>
      else WDeployV2 input)"

definition deployOfV1 :: "contractDeployPayloadV1 \<Rightarrow> contractDeployPayload" where
  "deployOfV1 temp =
     \<lparr>depTemplateId = v1TemplateId temp, depContractId = v1ContractId temp, depName = v1Name temp, depArgs = v1Args temp,
      depEleNode = \<lparr>JuryCount = 0, EleList = v1EleList temp\<rparr>, depReadSet = v1ReadSet temp, depWriteSet = v1WriteSet temp,
      depDuringTime = 0, depErrMsg = v1ErrMsg temp\<rparr>"

definition payloadEncode :: "payload \<Rightarrow> wirePayload" where
  "payloadEncode p =
     (case p of PayPayment pay \<Rightarrow> WPayment (map inputEncode (Inputs pay)) (Outputs pay) (LockTime pay)
      | PayDeploy d \<Rightarrow> deployEncode d
      | _ \<Rightarrow> WOther p)"

definition payloadDecode :: "wirePayload \<Rightarrow> payload" where
  "payloadDecode w =
     (case w of WPayment ins outs lt \<Rightarrow> PayPayment \<lparr>Inputs = map inputDecode ins, Outputs = outs, LockTime = lt\<rparr>
      | WDeployV1 d \<Rightarrow> PayDeploy (deployOfV1 d)
      | WDeployV2 d \<Rightarrow> PayDeploy d
      | WOther p \<Rightarrow> p)"

definition tx2Temp :: "'a rlp_lib_scheme \<Rightarrow> transaction \<Rightarrow> transactionTemp" where
  "tx2Temp L tx =
     \<lparr>ttMessages = map (\<lambda>m. \<lparr>mtApp = App m, mtData = encPayload L (payloadEncode (Payload m))\<rparr>) (TxMessages tx),
      ttCertId = CertId tx, ttIllegal = Illegal tx\<rparr>"

definition knownApp :: "byte \<Rightarrow> bool" where
  "knownApp app = (app \<in> {APP_PAYMENT, APP_CONTRACT_TPL, APP_CONTRACT_DEPLOY, APP_CONTRACT_INVOKE,
     APP_CONTRACT_STOP, APP_SIGNATURE, APP_DATA, APP_ACCOUNT_UPDATE, APP_CONTRACT_TPL_REQUEST,
     APP_CONTRACT_DEPLOY_REQUEST, APP_CONTRACT_INVOKE_REQUEST, APP_CONTRACT_STOP_REQUEST})"

fun temp2Msgs :: "'a rlp_lib_scheme \<Rightarrow> messageTemp list \<Rightarrow> message list option" where
  "temp2Msgs L [] = Some []"
| "temp2Msgs L (m # ms) =
     (case (if knownApp (mtApp m) then map_option payloadDecode (decPayload L (mtApp m) (mtData m))
            else Some PayNil) of
        None \<Rightarrow> None
      | Some p \<Rightarrow> map_option (\<lambda>ms'. \<lparr>App = mtApp m, Payload = p\<rparr> # ms') (temp2Msgs L ms))"

definition temp2Tx :: "'a rlp_lib_scheme \<Rightarrow> transactionTemp \<Rightarrow> transaction option" where
  "temp2Tx L temp =
     map_option (\<lambda>ms. \<lparr>TxMessages = ms, CertId = ttCertId temp, Illegal = ttIllegal temp, txHash = None\<rparr>)
       (temp2Msgs L (ttMessages temp))"

definition emptyTx :: transaction where
  "emptyTx = \<lparr>TxMessages = [], CertId = [], Illegal = False, txHash = None\<rparr>"

definition encodeTx :: "'a rlp_lib_scheme \<Rightarrow> transaction \<Rightarrow> bytes" where
  "encodeTx L tx = encTx L (tx2Temp L tx)"

definition decodeTx :: "'a rlp_lib_scheme \<Rightarrow> bytes \<Rightarrow> transaction option" where
  "decodeTx L b = (case decTx L b of None \<Rightarrow> None | Some temp \<Rightarrow> temp2Tx L temp)"

text \<open>\<open>Clone\<close> ignores the errors of both directions: a copy that cannot be decoded is empty.\<close>

definition txClone :: "'a rlp_lib_scheme \<Rightarrow> transaction \<Rightarrow> transaction" where
  "txClone L tx = (case decodeTx L (encodeTx L tx) of None \<Rightarrow> emptyTx | Some tx' \<Rightarrow> tx')"

section \<open>Messages\<close>

definition IsRequest :: "byte \<Rightarrow> bool" where
  "IsRequest mt = (mt > APP_UNKNOW)"

text \<open>Which payload the code expects under a message type; any other makes a type assertion panic.\<close>

definition payloadMatches :: "byte \<Rightarrow> payload \<Rightarrow> bool" where
  "payloadMatches app p =
     (if knownApp app then
        (case p of
           PayPayment _ \<Rightarrow> app = APP_PAYMENT
         | PayTpl _ \<Rightarrow> app = APP_CONTRACT_TPL
         | PayDeploy _ \<Rightarrow> app = APP_CONTRACT_DEPLOY
         | PayInvoke _ \<Rightarrow> app = APP_CONTRACT_INVOKE
         | PayStop _ \<Rightarrow> app = APP_CONTRACT_STOP
         | PaySignature _ \<Rightarrow> app = APP_SIGNATURE
         | PayData _ _ _ \<Rightarrow> app = APP_DATA
         | PayAccountUpdate _ \<Rightarrow> app = APP_ACCOUNT_UPDATE
         | PayInstallRequest _ \<Rightarrow> app = APP_CONTRACT_TPL_REQUEST
         | PayDeployRequest _ \<Rightarrow> app = APP_CONTRACT_DEPLOY_REQUEST
         | PayInvokeRequest _ _ _ \<Rightarrow> app = APP_CONTRACT_INVOKE_REQUEST
         | PayStopRequest _ _ _ \<Rightarrow> app = APP_CONTRACT_STOP_REQUEST
         | PayNil \<Rightarrow> False)
      else True)"

definition wf_tx :: "transaction \<Rightarrow> bool" where
  "wf_tx tx \<longleftrightarrow> list_all (\<lambda>m. payloadMatches (App m) (Payload m)) (TxMessages tx)"

text \<open>
  \<open>CopyMessage\<close> copies the reads of a contract: a nil version is dereferenced in a deploy or stop payload, and
  becomes the zero version in an invoke payload.
\<close>

definition zeroVersion :: stateVersion where
  "zeroVersion = \<lparr>svHeight = None, svTxIndex = 0\<rparr>"

definition derefVersions :: "contractReadSet list \<Rightarrow> bool" where
  "derefVersions rs = list_all (\<lambda>r. rsVersion r \<noteq> None) rs"

definition fillVersion :: "contractReadSet \<Rightarrow> contractReadSet" where
  "fillVersion r = r\<lparr>rsVersion := Some (case rsVersion r of None \<Rightarrow> zeroVersion | Some v \<Rightarrow> v)\<rparr>"

definition CopyMessage :: "message \<Rightarrow> script_error + message" where
  "CopyMessage m =
     (if \<not> payloadMatches (App m) (Payload m) then Inl GoPanic
      else if \<not> knownApp (App m) then Inr m
      else (case Payload m of
          PayDeploy d \<Rightarrow> (if derefVersions (depReadSet d) then Inr m else Inl GoPanic)
        | PayStop d \<Rightarrow> (if derefVersions (stpReadSet d) then Inr m else Inl GoPanic)
        | PayInvoke d \<Rightarrow> Inr (m\<lparr>Payload := PayInvoke (d\<lparr>invReadSet := map fillVersion (invReadSet d)\<rparr>)\<rparr>)
        | _ \<Rightarrow> Inr m))"

fun mapSum :: "('a \<Rightarrow> 'e + 'b) \<Rightarrow> 'a list \<Rightarrow> 'e + 'b list" where
  "mapSum f [] = Inr []"
| "mapSum f (x # xs) =
     (case f x of Inl e \<Rightarrow> Inl e
      | Inr y \<Rightarrow> (case mapSum f xs of Inl e \<Rightarrow> Inl e | Inr ys \<Rightarrow> Inr (y # ys)))"

definition payment :: "message \<Rightarrow> script_error + paymentPayload" where
  "payment m = (case Payload m of PayPayment pay \<Rightarrow> Inr pay | _ \<Rightarrow> Inl GoPanic)"

definition TxMessagesCopy :: "transaction \<Rightarrow> script_error + message list" where
  "TxMessagesCopy tx = mapSum CopyMessage (TxMessages tx)"

section \<open>Transactions\<close>

definition newTransaction :: "message list \<Rightarrow> transaction" where
  "newTransaction msg = \<lparr>TxMessages = msg, CertId = [], Illegal = False, txHash = None\<rparr>"

text \<open>\<open>Hash\<close> returns the cached hash, or computes it without the \<open>Illegal\<close> flag and caches it.\<close>

definition RlpHashTx :: "'a rlp_lib_scheme \<Rightarrow> transaction \<Rightarrow> bytes" where
  "RlpHashTx L tx = sha3Sum L (encodeTx L tx)"

definition HashTx :: "'a rlp_lib_scheme \<Rightarrow> transaction \<Rightarrow> bytes \<times> transaction" where
  "HashTx L tx =
     (case txHash tx of
        Some h \<Rightarrow> (h, tx)
      | None \<Rightarrow> (let v = RlpHashTx L (tx\<lparr>Illegal := False\<rparr>) in (v, tx\<lparr>txHash := Some v\<rparr>)))"

abbreviation hashOf :: "'a rlp_lib_scheme \<Rightarrow> transaction \<Rightarrow> bytes" where
  "hashOf L tx \<equiv> fst (HashTx L tx)"

fun uptoRequest :: "message list \<Rightarrow> message list" where
  "uptoRequest [] = []"
| "uptoRequest (m # ms) = (if IsRequest (App m) then [m] else m # uptoRequest ms)"

text \<open>\<open>RequestHash\<close> tests \<open>App >= APP_CONTRACT_TPL_REQUEST\<close>, \<open>GetRequestTx\<close> tests \<open>App > APP_UNKNOW\<close>.\<close>

fun uptoTplRequest :: "message list \<Rightarrow> message list" where
  "uptoTplRequest [] = []"
| "uptoTplRequest (m # ms) = (if App m \<ge> APP_CONTRACT_TPL_REQUEST then [m] else m # uptoTplRequest ms)"

definition RequestHash :: "'a rlp_lib_scheme \<Rightarrow> transaction \<Rightarrow> script_error + bytes" where
  "RequestHash L tx =
     (case TxMessagesCopy tx of Inl e \<Rightarrow> Inl e
      | Inr ms \<Rightarrow> Inr (RlpHashTx L (newTransaction (uptoTplRequest ms))))"

definition SetMessages :: "'a rlp_lib_scheme \<Rightarrow> message list \<Rightarrow> transaction \<Rightarrow> transaction" where
  "SetMessages L msgs tx =
     (if length msgs > 0
      then (let d = \<lparr>TxMessages = msgs, CertId = CertId tx, Illegal = Illegal tx, txHash = None\<rparr>
            in d\<lparr>txHash := Some (hashOf L d)\<rparr>)
      else tx)"

definition AddMessage :: "'a rlp_lib_scheme \<Rightarrow> message \<Rightarrow> transaction \<Rightarrow> script_error + transaction" where
  "AddMessage L msg tx =
     (case CopyMessage msg of Inl e \<Rightarrow> Inl e | Inr m \<Rightarrow> Inr (SetMessages L (TxMessages tx @ [m]) tx))"

definition SetCertId :: "'a rlp_lib_scheme \<Rightarrow> bytes \<Rightarrow> transaction \<Rightarrow> transaction" where
  "SetCertId L certid tx =
     (let d = \<lparr>TxMessages = TxMessages tx, CertId = certid, Illegal = Illegal tx, txHash = None\<rparr>
      in d\<lparr>txHash := Some (hashOf L d)\<rparr>)"

definition SetIllegal :: "'a rlp_lib_scheme \<Rightarrow> bool \<Rightarrow> transaction \<Rightarrow> transaction" where
  "SetIllegal L illegal tx =
     (let d = \<lparr>TxMessages = TxMessages tx, CertId = CertId tx, Illegal = illegal, txHash = None\<rparr>
      in d\<lparr>txHash := Some (hashOf L d)\<rparr>)"

definition ModifiedMsg :: "'a rlp_lib_scheme \<Rightarrow> nat \<Rightarrow> message \<Rightarrow> transaction \<Rightarrow> transaction" where
  "ModifiedMsg L index msg tx =
     (if length (TxMessages tx) < index then tx
      else (let d = \<lparr>TxMessages = (TxMessages tx)[index := msg], CertId = CertId tx, Illegal = Illegal tx, txHash = None\<rparr>
            in d\<lparr>txHash := Some (hashOf L d)\<rparr>))"

definition GetRequestTx :: "transaction \<Rightarrow> script_error + transaction" where
  "GetRequestTx tx =
     (case TxMessagesCopy tx of Inl e \<Rightarrow> Inl e
      | Inr ms \<Rightarrow> Inr \<lparr>TxMessages = uptoRequest ms, CertId = CertId tx, Illegal = False, txHash = None\<rparr>)"

fun resultRawMsgs :: "bool \<Rightarrow> message list \<Rightarrow> script_error + message list" where
  "resultRawMsgs isResultMsg [] = Inr []"
| "resultRawMsgs isResultMsg (m # ms) =
     (let isResultMsg' = (if IsRequest (App m) then True else isResultMsg)
      in if App m = APP_SIGNATURE then resultRawMsgs isResultMsg' ms
         else (case (if isResultMsg' \<and> App m = APP_PAYMENT
                     then (case payment m of
                             Inl e \<Rightarrow> Inl e
                           | Inr pay \<Rightarrow> Inr (m\<lparr>Payload := PayPayment
                               (pay\<lparr>Inputs := map (\<lambda>i. i\<lparr>SignatureScript := []\<rparr>) (Inputs pay)\<rparr>)\<rparr>))
                     else Inr m) of
                 Inl e \<Rightarrow> Inl e
               | Inr m' \<Rightarrow> (case resultRawMsgs isResultMsg' ms of Inl e \<Rightarrow> Inl e | Inr ms' \<Rightarrow> Inr (m' # ms'))))"

definition GetResultRawTx :: "transaction \<Rightarrow> script_error + transaction" where
  "GetResultRawTx tx =
     (case TxMessagesCopy tx of Inl e \<Rightarrow> Inl e
      | Inr ms \<Rightarrow> (case resultRawMsgs False ms of Inl e \<Rightarrow> Inl e
          | Inr ms' \<Rightarrow> Inr \<lparr>TxMessages = ms', CertId = CertId tx, Illegal = Illegal tx, txHash = None\<rparr>))"

definition GetResultTx :: "transaction \<Rightarrow> script_error + transaction" where
  "GetResultTx tx =
     (case TxMessagesCopy tx of Inl e \<Rightarrow> Inl e
      | Inr ms \<Rightarrow> Inr \<lparr>TxMessages = filter (\<lambda>m. App m \<noteq> APP_SIGNATURE) ms, CertId = CertId tx,
                     Illegal = False, txHash = None\<rparr>)"

fun findIdx :: "('a \<Rightarrow> bool) \<Rightarrow> int \<Rightarrow> 'a list \<Rightarrow> int" where
  "findIdx P i [] = -1"
| "findIdx P i (x # xs) = (if P x then i else findIdx P (i + 1) xs)"

definition GetRequestMsgIndex :: "transaction \<Rightarrow> int" where
  "GetRequestMsgIndex tx = findIdx (\<lambda>m. IsRequest (App m)) 0 (TxMessages tx)"

definition GetContractInvokeReqMsgIdx :: "transaction \<Rightarrow> int" where
  "GetContractInvokeReqMsgIdx tx = findIdx (\<lambda>m. App m = APP_CONTRACT_INVOKE_REQUEST) 0 (TxMessages tx)"

definition IsContractTx :: "transaction \<Rightarrow> bool" where
  "IsContractTx tx = list_ex (\<lambda>m. App m \<ge> APP_CONTRACT_TPL \<and> App m \<le> APP_SIGNATURE) (TxMessages tx)"

fun isSystemContractMsgs :: "message list \<Rightarrow> script_error + bool" where
  "isSystemContractMsgs [] = Inr True"
| "isSystemContractMsgs (m # ms) =
     (if App m = APP_CONTRACT_INVOKE_REQUEST then
        (case Payload m of
           PayInvokeRequest cid _ _ \<Rightarrow> Inr (IsSystemContractAddress (NewAddress cid ContractHash))
         | _ \<Rightarrow> Inl GoPanic)
      else if App m = APP_CONTRACT_TPL_REQUEST then Inr True
      else if App m \<ge> APP_CONTRACT_DEPLOY_REQUEST then Inr False
      else isSystemContractMsgs ms)"

definition IsSystemContract :: "transaction \<Rightarrow> script_error + bool" where
  "IsSystemContract tx = isSystemContractMsgs (TxMessages tx)"

definition IsNewContractInvokeRequest :: "transaction \<Rightarrow> script_error + bool" where
  "IsNewContractInvokeRequest tx =
     (if TxMessages tx = [] then Inl GoPanic else Inr (IsRequest (App (last (TxMessages tx)))))"

text \<open>
  The unspent outputs a transaction makes. The result is a Go map; entries are written in the order of
  the loops, so that a later entry replaces an earlier one under the same outpoint.
\<close>

definition newUtxo :: "paymentPayload \<Rightarrow> txOutput \<Rightarrow> utxo" where
  "newUtxo pay out = \<lparr>Amount = Value out, utxoAsset = outAsset out, utxoPkScript = PkScript out,
     utxoLockTime = LockTime pay, Timestamp = 0, Flags = 0\<rparr>"

fun newUtxosMsg :: "bytes \<Rightarrow> nat \<Rightarrow> nat \<Rightarrow> paymentPayload \<Rightarrow> txOutput list \<Rightarrow> (outPoint \<times> utxo) list" where
  "newUtxosMsg h msgIndex outIndex pay [] = []"
| "newUtxosMsg h msgIndex outIndex pay (out # outs) =
     (\<lparr>TxHash = h, MessageIndex = word_of_nat msgIndex, OutIndex = word_of_nat outIndex\<rparr>, newUtxo pay out)
       # newUtxosMsg h msgIndex (Suc outIndex) pay outs"

fun newUtxosMsgs :: "bytes \<Rightarrow> nat \<Rightarrow> message list \<Rightarrow> script_error + (outPoint \<times> utxo) list" where
  "newUtxosMsgs h msgIndex [] = Inr []"
| "newUtxosMsgs h msgIndex (m # ms) =
     (if App m \<noteq> APP_PAYMENT then newUtxosMsgs h (Suc msgIndex) ms
      else (case payment m of Inl e \<Rightarrow> Inl e
          | Inr pay \<Rightarrow> (case newUtxosMsgs h (Suc msgIndex) ms of Inl e \<Rightarrow> Inl e
              | Inr us \<Rightarrow> Inr (newUtxosMsg h msgIndex 0 pay (Outputs pay) @ us))))"

fun putAll :: "('k \<rightharpoonup> 'v) \<Rightarrow> ('k \<times> 'v) list \<Rightarrow> ('k \<rightharpoonup> 'v)" where
  "putAll m [] = m"
| "putAll m ((k, v) # kvs) = putAll (m(k \<mapsto> v)) kvs"

definition GetNewUtxos :: "'a rlp_lib_scheme \<Rightarrow> transaction \<Rightarrow> script_error + (outPoint \<rightharpoonup> utxo)" where
  "GetNewUtxos L tx =
     (case newUtxosMsgs (hashOf L tx) 0 (TxMessages tx) of Inl e \<Rightarrow> Inl e
      | Inr us \<Rightarrow> Inr (putAll Map.empty us))"

definition spendOutpoint :: "bytes \<Rightarrow> txInput \<Rightarrow> outPoint list" where
  "spendOutpoint h input =
     (case PreviousOutPoint input of
        None \<Rightarrow> []
      | Some pt \<Rightarrow> (if IsSelfHash (TxHash pt) then [pt\<lparr>TxHash := h\<rparr>] else [pt]))"

fun spendOutpoints :: "bytes \<Rightarrow> message list \<Rightarrow> script_error + outPoint list" where
  "spendOutpoints h [] = Inr []"
| "spendOutpoints h (m # ms) =
     (if App m \<noteq> APP_PAYMENT then spendOutpoints h ms
      else (case payment m of Inl e \<Rightarrow> Inl e
          | Inr pay \<Rightarrow> (case spendOutpoints h ms of Inl e \<Rightarrow> Inl e
              | Inr pts \<Rightarrow> Inr (concat (map (spendOutpoint h) (Inputs pay)) @ pts))))"

definition GetSpendOutpoints :: "'a rlp_lib_scheme \<Rightarrow> transaction \<Rightarrow> script_error + outPoint list" where
  "GetSpendOutpoints L tx = spendOutpoints (hashOf L tx) (TxMessages tx)"

fun hasPayout :: "bool \<Rightarrow> nat \<Rightarrow> message list \<Rightarrow> script_error + (nat \<times> message) option" where
  "hasPayout isInvokeResult i [] = Inr None"
| "hasPayout isInvokeResult i (m # ms) =
     (if IsRequest (App m) then hasPayout True (Suc i) ms
      else if isInvokeResult \<and> App m = APP_PAYMENT then
        (case payment m of Inl e \<Rightarrow> Inl e
         | Inr pay \<Rightarrow> (if \<not> IsCoinbase pay then Inr (Some (i, m)) else hasPayout isInvokeResult (Suc i) ms))
      else hasPayout isInvokeResult (Suc i) ms)"

definition HasContractPayoutMsg :: "transaction \<Rightarrow> script_error + (nat \<times> message) option" where
  "HasContractPayoutMsg tx = hasPayout False 0 (TxMessages tx)"

text \<open>
  The fee of a transaction. The overflow tests compare a 64-bit sum, which has already wrapped, with
  the largest 64-bit number, as the code does. \<open>queryUtxo\<close> looks an outpoint up in the database, and
  \<open>ptn\<close> is the gas asset.
\<close>

fun feeInputs :: "(outPoint \<Rightarrow> script_error + utxo) \<Rightarrow> uint64 \<Rightarrow> asset option \<Rightarrow> txInput list
    \<Rightarrow> script_error + uint64 \<times> asset option" where
  "feeInputs queryUtxo inAmount feeAsset [] = Inr (inAmount, feeAsset)"
| "feeInputs queryUtxo inAmount feeAsset (txin # ins) =
     (case PreviousOutPoint txin of
        None \<Rightarrow> Inl GoPanic
      | Some pt \<Rightarrow> (case queryUtxo pt of
          Inl e \<Rightarrow> Inl (ErrOther ''utxo is empty'')
        | Inr u \<Rightarrow>
            (if uint (inAmount + Amount u) > 2 ^ 64 - 1 then Inl (ErrOther ''txin total overflow'')
             else feeInputs queryUtxo (inAmount + Amount u) (Some (utxoAsset u)) ins)))"

fun feeOutputs :: "uint64 \<Rightarrow> txOutput list \<Rightarrow> script_error + uint64" where
  "feeOutputs outAmount [] = Inr outAmount"
| "feeOutputs outAmount (txout # outs) =
     (if uint (outAmount + Value txout) > 2 ^ 64 - 1 then Inl (ErrOther ''txout total overflow'')
      else feeOutputs (outAmount + Value txout) outs)"

definition GetTxFee :: "asset \<Rightarrow> (outPoint \<Rightarrow> script_error + utxo) \<Rightarrow> transaction \<Rightarrow> script_error + amountAsset" where
  "GetTxFee ptn queryUtxo tx =
     (case TxMessages tx of
        [] \<Rightarrow> Inl GoPanic
      | msg0 # _ \<Rightarrow>
          (if App msg0 \<noteq> APP_PAYMENT then Inl (ErrOther ''Tx message 0 must a payment payload'')
           else (case payment msg0 of Inl e \<Rightarrow> Inl e
             | Inr pay \<Rightarrow>
                 (if IsCoinbase pay then Inr \<lparr>aaAmount = 0, aaAsset = Some ptn\<rparr>
                  else (case feeInputs queryUtxo 0 None (Inputs pay) of Inl e \<Rightarrow> Inl e
                    | Inr (inAmount, feeAsset) \<Rightarrow> (case feeOutputs 0 (Outputs pay) of Inl e \<Rightarrow> Inl e
                      | Inr outAmount \<Rightarrow>
                          (if inAmount < outAmount then Inl (ErrOther ''txin amount less than txout amount'')
                           else Inr \<lparr>aaAmount = inAmount - outAmount, aaAsset = feeAsset\<rparr>)))))))"

definition GetRequesterAddr :: "(outPoint \<Rightarrow> script_error + utxo) \<Rightarrow> (bytes \<Rightarrow> script_error + address) \<Rightarrow> transaction
    \<Rightarrow> script_error + address" where
  "GetRequesterAddr queryUtxo getAddr tx =
     (case TxMessages tx of
        [] \<Rightarrow> Inl GoPanic
      | msg0 # _ \<Rightarrow>
          (if App msg0 \<noteq> APP_PAYMENT then Inl (ErrOther ''first message must be a payment'')
           else (case payment msg0 of Inl e \<Rightarrow> Inl e
             | Inr pay \<Rightarrow> (case Inputs pay of
                 [] \<Rightarrow> Inl GoPanic
               | input # _ \<Rightarrow> (case PreviousOutPoint input of
                   None \<Rightarrow> Inl GoPanic
                 | Some pt \<Rightarrow> (case queryUtxo pt of Inl e \<Rightarrow> Inl e | Inr u \<Rightarrow> getAddr (utxoPkScript u)))))))"

definition VarIntSerializeSize :: "uint64 \<Rightarrow> nat" where
  "VarIntSerializeSize val = (if val < 0xfd then 1 else if val \<le> 0xffff then 3 else if val \<le> 0xffffffff then 5 else 9)"

definition outputSerializeSize :: "txOutput \<Rightarrow> nat" where
  "outputSerializeSize t = 8 + VarIntSerializeSize (word_of_nat (length (PkScript t))) + length (PkScript t)"

definition inputSerializeSize :: "txInput \<Rightarrow> nat" where
  "inputSerializeSize t = 40 + VarIntSerializeSize (word_of_nat (length (SignatureScript t))) + length (SignatureScript t)"

fun dataPayloadSizes :: "message list \<Rightarrow> script_error + nat" where
  "dataPayloadSizes [] = Inr 0"
| "dataPayloadSizes (m # ms) =
     (if App m \<noteq> APP_DATA then dataPayloadSizes ms
      else (case Payload m of
          PayData a b c \<Rightarrow> (case dataPayloadSizes ms of Inl e \<Rightarrow> Inl e
            | Inr n \<Rightarrow> Inr (length a + length b + length c + n))
        | _ \<Rightarrow> Inl GoPanic))"

definition DataPayloadSize :: "transaction \<Rightarrow> script_error + nat" where
  "DataPayloadSize tx = dataPayloadSizes (TxMessages tx)"

end
