(* ===== verification/TxProps.thy ===== *)
theory TxProps
  imports TxModel
begin

text \<open>
  What the transaction model guarantees: database keys of outpoints, copies through the wire form, the
  cached hash, the outputs a transaction makes and spends, and its fee.
\<close>

section \<open>Outpoint keys\<close>

lemma uint32_bytes:
  "push_bit 24 (ucast (ucast (drop_bit 24 n) :: byte)) OR push_bit 16 (ucast (ucast (drop_bit 16 n) :: byte))
     OR push_bit 8 (ucast (ucast (drop_bit 8 n) :: byte)) OR ucast (ucast n :: byte) = (n :: uint32)"
proof (rule bit_word_eqI)
  fix i assume i: "i < LENGTH(32)"
  consider "i < 8" | "8 \<le> i \<and> i < 16" | "16 \<le> i \<and> i < 24" | "24 \<le> i \<and> i < 32"
    using i by fastforce
  then show "bit (push_bit 24 (ucast (ucast (drop_bit 24 n) :: byte)) OR push_bit 16 (ucast (ucast (drop_bit 16 n) :: byte))
     OR push_bit 8 (ucast (ucast (drop_bit 8 n) :: byte)) OR ucast (ucast n :: byte) :: uint32) i = bit n i"
    by cases (auto simp: bit_or_iff bit_push_bit_iff bit_ucast_iff bit_drop_bit_eq)
qed

lemma encode_length [simp]: "length (EncodeNumberUint32 n) = 4"
  by (simp add: EncodeNumberUint32_def)

lemma decode_encode: "DecodeNumberUint32 (EncodeNumberUint32 n) = Inr n"
  using uint32_bytes [of n] by (simp add: DecodeNumberUint32_def EncodeNumberUint32_def)

lemma BytesToHash_32: "length h = 32 \<Longrightarrow> BytesToHash h = h"
  by (simp add: BytesToHash_def copyAt_def)

text \<open>
  C31. The database key of an outpoint determines it: reading the key back gives the transaction hash,
  the message index and the output index, so that no two outpoints share a key.
\<close>

theorem outpoint_key_roundtrip:
  assumes "length (TxHash pt) = 32"
  shows "KeyToOutpoint (outPointToKey pt) = Inr pt"
proof -
  have "take 4 (EncodeNumberUint32 (MessageIndex pt) @ EncodeNumberUint32 (OutIndex pt)) = EncodeNumberUint32 (MessageIndex pt)"
    "drop 4 (EncodeNumberUint32 (MessageIndex pt) @ EncodeNumberUint32 (OutIndex pt)) = EncodeNumberUint32 (OutIndex pt)"
    by simp_all
  with assms show ?thesis
    by (simp add: KeyToOutpoint_def outPointToKey_def outPointBytes_def UTXO_PREFIX_def decode_encode BytesToHash_32)
qed

theorem outpoint_key_roundtrip_witness:
  "KeyToOutpoint (outPointToKey \<lparr>TxHash = replicate 32 9, MessageIndex = 258, OutIndex = 70000\<rparr>)
     = Inr \<lparr>TxHash = replicate 32 9, MessageIndex = 258, OutIndex = 70000\<rparr>"
  using outpoint_key_roundtrip [of "\<lparr>TxHash = replicate 32 9, MessageIndex = 258, OutIndex = 70000\<rparr>"] by simp

section \<open>Copies\<close>

text \<open>
  The RLP library decodes what it encoded, at the values one transaction consists of.
\<close>

definition rlp_ok :: "'a rlp_lib_scheme \<Rightarrow> transaction \<Rightarrow> bool" where
  "rlp_ok L tx \<longleftrightarrow> decTx L (encTx L (tx2Temp L tx)) = Some (tx2Temp L tx)
     \<and> list_all (\<lambda>m. decPayload L (App m) (encPayload L (payloadEncode (Payload m))) = Some (payloadEncode (Payload m)))
         (TxMessages tx)"

text \<open>
  A transaction as it comes from the wire: known message types, no all-zero outpoint, and the deployment of a
  system contract carries neither a jury count nor a running time.
\<close>

definition wire_input :: "txInput \<Rightarrow> bool" where
  "wire_input i \<longleftrightarrow> (case PreviousOutPoint i of None \<Rightarrow> True | Some pt \<Rightarrow> \<not> EmptyHash (TxHash pt))"

definition wire_msg :: "message \<Rightarrow> bool" where
  "wire_msg m \<longleftrightarrow> knownApp (App m)
     \<and> (case Payload m of PayPayment pay \<Rightarrow> list_all wire_input (Inputs pay)
        | PayDeploy d \<Rightarrow> IsSystemContractId (depContractId d) \<longrightarrow> JuryCount (depEleNode d) = 0 \<and> depDuringTime d = 0
        | _ \<Rightarrow> True)"

lemma inputDecode_encode: "wire_input i \<Longrightarrow> inputDecode (inputEncode i) = i"
  by (cases "PreviousOutPoint i")
    (simp_all add: wire_input_def inputDecode_def inputEncode_def EmptyHash_def)

lemma payloadDecode_encode: "wire_msg m \<Longrightarrow> payloadDecode (payloadEncode (Payload m)) = Payload m"
proof (cases "Payload m")
  case (PayPayment pay)
  assume "wire_msg m"
  then have "map (inputDecode \<circ> inputEncode) (Inputs pay) = Inputs pay"
    by (intro map_idI) (auto simp: wire_msg_def PayPayment list_all_iff inputDecode_encode)
  then show ?thesis
    by (simp add: PayPayment payloadDecode_def payloadEncode_def)
next
  case (PayDeploy d)
  assume "wire_msg m"
  then show ?thesis
    by (simp add: PayDeploy wire_msg_def payloadDecode_def payloadEncode_def deployEncode_def deployOfV1_def)
qed (simp_all add: payloadDecode_def payloadEncode_def)

lemma temp2Msgs_eq:
  assumes "list_all wire_msg ms"
    and "list_all (\<lambda>m. decPayload L (App m) (encPayload L (payloadEncode (Payload m))) = Some (payloadEncode (Payload m))) ms"
  shows "temp2Msgs L (map (\<lambda>m. \<lparr>mtApp = App m, mtData = encPayload L (payloadEncode (Payload m))\<rparr>) ms) = Some ms"
  using assms by (induction ms) (simp_all add: payloadDecode_encode wire_msg_def [of "_ :: message"] payloadDecode_encode [unfolded wire_msg_def])

lemma txClone_eq:
  assumes "rlp_ok L tx" and "list_all wire_msg (TxMessages tx)"
  shows "txClone L tx = tx\<lparr>txHash := None\<rparr>"
  using assms temp2Msgs_eq [of "TxMessages tx" L]
  by (simp add: txClone_def decodeTx_def encodeTx_def rlp_ok_def temp2Tx_def tx2Temp_def)



section \<open>The cached hash\<close>

definition hash_ok :: "'a rlp_lib_scheme \<Rightarrow> transaction \<Rightarrow> bool" where
  "hash_ok L tx \<longleftrightarrow> (case txHash tx of None \<Rightarrow> True | Some h \<Rightarrow> h = RlpHashTx L (tx\<lparr>Illegal := False\<rparr>))"

lemma RlpHashTx_cache: "RlpHashTx L (tx\<lparr>txHash := h\<rparr>) = RlpHashTx L tx"
  by (simp add: RlpHashTx_def encodeTx_def tx2Temp_def)

lemma hashOf_ok: "hash_ok L tx \<Longrightarrow> hashOf L tx = RlpHashTx L (tx\<lparr>Illegal := False\<rparr>)"
  by (auto simp: hash_ok_def HashTx_def Let_def split: option.splits)

lemma hash_ok_fresh:
  "hash_ok L \<lparr>TxMessages = ms, CertId = c, Illegal = i,
     txHash = Some (hashOf L \<lparr>TxMessages = ms, CertId = c, Illegal = i, txHash = None\<rparr>)\<rparr>"
  by (simp add: hash_ok_def HashTx_def Let_def RlpHashTx_def encodeTx_def tx2Temp_def)



section \<open>Outputs made and spent\<close>

text \<open>The payment message at a position and its payload.\<close>

definition paymentAt :: "transaction \<Rightarrow> nat \<Rightarrow> paymentPayload option" where
  "paymentAt tx i =
     (if i < length (TxMessages tx) \<and> App (TxMessages tx ! i) = APP_PAYMENT
      then (case Payload (TxMessages tx ! i) of PayPayment pay \<Rightarrow> Some pay | _ \<Rightarrow> None) else None)"

lemma paymentAt_Some:
  "paymentAt tx i = Some pay \<longleftrightarrow>
     i < length (TxMessages tx) \<and> App (TxMessages tx ! i) = APP_PAYMENT \<and> Payload (TxMessages tx ! i) = PayPayment pay"
  by (auto simp: paymentAt_def split: payload.splits)

lemma newUtxosMsg_length [simp]: "length (newUtxosMsg h i j pay outs) = length outs"
  by (induction outs arbitrary: j) simp_all

lemma newUtxosMsg_nth:
  "k < length outs \<Longrightarrow> newUtxosMsg h i j pay outs ! k =
     (\<lparr>TxHash = h, MessageIndex = word_of_nat i, OutIndex = word_of_nat (j + k)\<rparr>, newUtxo pay (outs ! k))"
proof (induction outs arbitrary: j k)
  case (Cons out outs)
  then show ?case by (cases k) simp_all
qed simp

text \<open>An entry of the list of new outputs, at message \<open>i\<close> and output \<open>k\<close>.\<close>

definition utxoEntry :: "bytes \<Rightarrow> nat \<Rightarrow> paymentPayload \<Rightarrow> nat \<Rightarrow> outPoint \<times> utxo" where
  "utxoEntry h i pay k =
     (\<lparr>TxHash = h, MessageIndex = word_of_nat i, OutIndex = word_of_nat k\<rparr>, newUtxo pay (Outputs pay ! k))"

lemma newUtxosMsg_set: "x \<in> set (newUtxosMsg h i 0 pay (Outputs pay)) \<longleftrightarrow> (\<exists>k < length (Outputs pay). x = utxoEntry h i pay k)"
  by (auto simp: in_set_conv_nth newUtxosMsg_nth utxoEntry_def)

lemma newUtxosMsgs_set:
  assumes "newUtxosMsgs h i ms = Inr us"
  shows "x \<in> set us \<longleftrightarrow> (\<exists>n < length ms. App (ms ! n) = APP_PAYMENT \<and>
    (\<exists>pay. Payload (ms ! n) = PayPayment pay \<and> (\<exists>k < length (Outputs pay). x = utxoEntry h (i + n) pay k)))"
  using assms
proof (induction ms arbitrary: i us)
  case (Cons m ms)
  show ?case
  proof (cases "App m = APP_PAYMENT")
    case True
    with Cons.prems obtain pay us' where m: "Payload m = PayPayment pay"
      and us': "newUtxosMsgs h (Suc i) ms = Inr us'" "us = newUtxosMsg h i 0 pay (Outputs pay) @ us'"
      by (auto simp: payment_def split: payload.splits sum.splits)
    show ?thesis
      unfolding us'(2) set_append Un_iff Cons.IH [OF us'(1)] newUtxosMsg_set length_Cons Ex_less_Suc2
      using True m by simp
  next
    case False
    then have "newUtxosMsgs h (Suc i) ms = Inr us"
      using Cons.prems by simp
    from Cons.IH [OF this] False show ?thesis
      by (simp only: length_Cons Ex_less_Suc2 nth_Cons_0 nth_Cons_Suc simp_thms add_Suc add_Suc_right)
  qed
qed simp

lemma putAll_snoc: "putAll m (kvs @ [(k, v)]) = (putAll m kvs)(k \<mapsto> v)"
proof (induction kvs arbitrary: m)
  case (Cons x kvs)
  then show ?case by (cases x) (simp only: append_Cons putAll.simps)
qed (simp only: append_Nil putAll.simps)

lemma putAll_single:
  assumes "\<And>k u u'. (k, u) \<in> set us \<Longrightarrow> (k, u') \<in> set us \<Longrightarrow> u = u'"
  shows "putAll Map.empty us k = Some u \<longleftrightarrow> (k, u) \<in> set us"
  using assms
proof (induction us rule: rev_induct)
  case (snoc x us)
  obtain a b where x: "x = (a, b)"
    by (cases x)
  have "putAll Map.empty us k = Some u \<longleftrightarrow> (k, u) \<in> set us"
    using snoc.prems by (intro snoc.IH) auto
  then show ?case
    using snoc.prems [of k] by (auto simp: x putAll_snoc)
qed simp

lemma word32_inj: "i < 2 ^ 32 \<Longrightarrow> j < 2 ^ 32 \<Longrightarrow> (word_of_nat i :: uint32) = word_of_nat j \<longleftrightarrow> i = j"
  by (auto simp: word_of_nat_eq_iff take_bit_nat_eq_self)

text \<open>
  C15. The outputs a transaction makes are found under its hash, the number of the message and the
  number of the output, and nothing else is found: an outpoint is mapped to an unspent output exactly
  when it names an output of a payment message, and that unspent output has the value, the asset, the
  lock script and the lock time of the output.
\<close>

theorem new_utxos_exact:
  assumes "GetNewUtxos L tx = Inr utxos"
    and "length (TxMessages tx) \<le> 2 ^ 32"
    and "\<And>i pay. paymentAt tx i = Some pay \<Longrightarrow> length (Outputs pay) \<le> 2 ^ 32"
  shows "utxos pt = Some u \<longleftrightarrow>
    (\<exists>i pay k. paymentAt tx i = Some pay \<and> k < length (Outputs pay)
       \<and> pt = \<lparr>TxHash = hashOf L tx, MessageIndex = word_of_nat i, OutIndex = word_of_nat k\<rparr>
       \<and> u = \<lparr>Amount = Value (Outputs pay ! k), utxoAsset = outAsset (Outputs pay ! k),
               utxoPkScript = PkScript (Outputs pay ! k), utxoLockTime = LockTime pay, Timestamp = 0, Flags = 0\<rparr>)"
proof -
  obtain us where us: "newUtxosMsgs (hashOf L tx) 0 (TxMessages tx) = Inr us"
    and utxos: "utxos = putAll Map.empty us"
    using assms(1) by (auto simp: GetNewUtxos_def split: sum.splits)
  have mem: "x \<in> set us \<longleftrightarrow> (\<exists>i pay k. paymentAt tx i = Some pay \<and> k < length (Outputs pay)
      \<and> x = utxoEntry (hashOf L tx) i pay k)" for x
    unfolding newUtxosMsgs_set [OF us] paymentAt_Some by auto
  have single: "u = u'" if "(pt, u) \<in> set us" and "(pt, u') \<in> set us" for pt u u'
  proof -
    from that obtain i pay k j pay' l where
      e: "paymentAt tx i = Some pay" "k < length (Outputs pay)" "(pt, u) = utxoEntry (hashOf L tx) i pay k"
      "paymentAt tx j = Some pay'" "l < length (Outputs pay')" "(pt, u') = utxoEntry (hashOf L tx) j pay' l"
      unfolding mem by blast
    have "i < 2 ^ 32" "j < 2 ^ 32" "k < 2 ^ 32" "l < 2 ^ 32"
      using e assms(2) assms(3) [OF e(1)] assms(3) [OF e(4)] by (auto simp: paymentAt_def split: if_splits)
    then have "i = j" "k = l"
      using e(3,6) word32_inj [of i j] word32_inj [of k l] by (auto simp: utxoEntry_def)
    with e show "u = u'"
      by (auto simp: utxoEntry_def)
  qed
  have "utxos pt = Some u \<longleftrightarrow> (pt, u) \<in> set us"
    unfolding utxos using single by (rule putAll_single)
  then show ?thesis
    unfolding mem by (simp add: utxoEntry_def newUtxo_def)
qed

theorem new_utxos_exact_witness:
  "\<exists>utxos. GetNewUtxos \<lparr>encPayload = \<lambda>_. [], decPayload = \<lambda>_ _. None, encTx = \<lambda>t. [], decTx = \<lambda>_. None,
        sha3Sum = \<lambda>_. replicate 32 7\<rparr>
      (newTransaction [\<lparr>App = APP_PAYMENT, Payload = PayPayment (NewPaymentPayload []
          [\<lparr>Value = 5, PkScript = [1], outAsset = \<lparr>AssetId = PTNCOIN, UniqueId = []\<rparr>\<rparr>])\<rparr>]) = Inr utxos
    \<and> (\<exists>u. utxos \<lparr>TxHash = replicate 32 7, MessageIndex = 0, OutIndex = 0\<rparr> = Some u \<and> Amount u = 5)"
  (is "\<exists>utxos. GetNewUtxos ?L ?tx = Inr utxos \<and> _")
proof -
  obtain utxos where new: "GetNewUtxos ?L ?tx = Inr utxos"
    by (simp add: GetNewUtxos_def newTransaction_def payment_def NewPaymentPayload_def)
  have small: "length (Outputs pay) \<le> 2 ^ 32" if "paymentAt ?tx i = Some pay" for i pay
    using that by (auto simp: paymentAt_def newTransaction_def NewPaymentPayload_def split: if_splits)
  have hash: "hashOf ?L ?tx = replicate 32 7"
    by (simp add: HashTx_def newTransaction_def RlpHashTx_def Let_def)
  have at: "paymentAt ?tx 0 = Some (NewPaymentPayload []
      [\<lparr>Value = 5, PkScript = [1], outAsset = \<lparr>AssetId = PTNCOIN, UniqueId = []\<rparr>\<rparr>])"
    by (simp add: paymentAt_def newTransaction_def)
  have "utxos \<lparr>TxHash = replicate 32 7, MessageIndex = 0, OutIndex = 0\<rparr> =
      Some \<lparr>Amount = 5, utxoAsset = \<lparr>AssetId = PTNCOIN, UniqueId = []\<rparr>, utxoPkScript = [1],
            utxoLockTime = 0, Timestamp = 0, Flags = 0\<rparr>"
  proof (rule new_utxos_exact [OF new _ small, THEN iffD2], goal_cases)
    case 3
    show ?case
      by (rule exI [of _ 0], rule exI, rule exI [of _ 0], intro conjI, rule at)
        (simp_all only: hash, simp_all add: NewPaymentPayload_def)
  qed (simp_all add: newTransaction_def)
  with new show ?thesis by auto
qed

section \<open>Fees\<close>

lemma uint64_max: "(uint (x :: uint64) > 2 ^ 64 - 1) = False"
  using uint_range_size [of x] by (simp add: word_size)

text \<open>The unspent outputs an input list refers to, in order.\<close>

definition spends :: "(outPoint \<Rightarrow> script_error + utxo) \<Rightarrow> txInput list \<Rightarrow> utxo list \<Rightarrow> bool" where
  "spends queryUtxo ins us \<longleftrightarrow>
     list_all2 (\<lambda>i u. \<exists>pt. PreviousOutPoint i = Some pt \<and> queryUtxo pt = Inr u) ins us"

lemma feeInputs_spends:
  "spends q ins us \<Longrightarrow> feeInputs q acc fa ins =
     Inr (acc + (\<Sum>u\<leftarrow>us. Amount u), if us = [] then fa else Some (utxoAsset (last us)))"
  unfolding spends_def
proof (induction ins us arbitrary: acc fa rule: list_all2_induct)
  case (Cons i ins u us)
  then show ?case
    by (auto simp: uint64_max [simplified] ac_simps)
qed simp

lemma feeOutputs_sum: "feeOutputs acc outs = Inr (acc + (\<Sum>out\<leftarrow>outs. Value out))"
  by (induction outs arbitrary: acc) (simp_all add: uint64_max [simplified] ac_simps)

lemma uint_sum_list:
  "(\<Sum>x\<leftarrow>xs. uint (f x :: uint64)) < 2 ^ 64 \<Longrightarrow> uint (\<Sum>x\<leftarrow>xs. f x) = (\<Sum>x\<leftarrow>xs. uint (f x))"
proof (induction xs)
  case (Cons x xs)
  have less: "(\<Sum>x\<leftarrow>xs. uint (f x)) < 2 ^ 64"
    using Cons.prems uint_ge_0 [of "f x"] unfolding list.map sum_list.Cons by linarith
  have "uint (f x + (\<Sum>x\<leftarrow>xs. f x)) = uint (f x) + (\<Sum>x\<leftarrow>xs. uint (f x))"
    using Cons.IH [OF less] Cons.prems uint_add_lem [of "f x" "\<Sum>x\<leftarrow>xs. f x"] by simp
  then show ?case by simp
qed simp

text \<open>
  C14. The fee of a transaction whose first message is a payment that is not a coinbase is what its
  inputs hold minus what its outputs hold, as long as neither sum exceeds 64 bits, in the asset of the
  last input; if the outputs hold more, the fee is refused.
\<close>

theorem tx_fee_exact:
  assumes "TxMessages tx = \<lparr>App = APP_PAYMENT, Payload = PayPayment pay\<rparr> # ms" and "\<not> IsCoinbase pay"
    and "spends queryUtxo (Inputs pay) us"
    and "(\<Sum>u\<leftarrow>us. uint (Amount u)) < 2 ^ 64" and "(\<Sum>out\<leftarrow>Outputs pay. uint (Value out)) < 2 ^ 64"
  shows "GetTxFee ptn queryUtxo tx =
    (if (\<Sum>u\<leftarrow>us. uint (Amount u)) < (\<Sum>out\<leftarrow>Outputs pay. uint (Value out))
     then Inl (ErrOther ''txin amount less than txout amount'')
     else Inr \<lparr>aaAmount = word_of_int ((\<Sum>u\<leftarrow>us. uint (Amount u)) - (\<Sum>out\<leftarrow>Outputs pay. uint (Value out))),
               aaAsset = Some (utxoAsset (last us))\<rparr>)"
proof -
  have "us \<noteq> []"
    using assms(2,3) by (auto simp: IsCoinbase_def spends_def)
  have in_sum: "uint (\<Sum>u\<leftarrow>us. Amount u) = (\<Sum>u\<leftarrow>us. uint (Amount u))"
    and out_sum: "uint (\<Sum>out\<leftarrow>Outputs pay. Value out) = (\<Sum>out\<leftarrow>Outputs pay. uint (Value out))"
    using assms(4,5) uint_sum_list by blast+
  have "GetTxFee ptn queryUtxo tx =
    (if (\<Sum>u\<leftarrow>us. Amount u) < (\<Sum>out\<leftarrow>Outputs pay. Value out)
     then Inl (ErrOther ''txin amount less than txout amount'')
     else Inr \<lparr>aaAmount = (\<Sum>u\<leftarrow>us. Amount u) - (\<Sum>out\<leftarrow>Outputs pay. Value out),
               aaAsset = Some (utxoAsset (last us))\<rparr>)"
    using assms(1,2) \<open>us \<noteq> []\<close>
    by (simp add: GetTxFee_def payment_def feeInputs_spends [OF assms(3)] feeOutputs_sum)
  moreover have "(\<Sum>u\<leftarrow>us. Amount u) - (\<Sum>out\<leftarrow>Outputs pay. Value out) =
      word_of_int ((\<Sum>u\<leftarrow>us. uint (Amount u)) - (\<Sum>out\<leftarrow>Outputs pay. uint (Value out)))"
    by (simp only: word_sub_wi in_sum out_sum)
  ultimately show ?thesis
    by (simp add: word_less_def in_sum out_sum)
qed

theorem tx_fee_exact_witness:
  "GetTxFee \<lparr>AssetId = PTNCOIN, UniqueId = []\<rparr>
     (\<lambda>pt. Inr \<lparr>Amount = 10, utxoAsset = \<lparr>AssetId = PTNCOIN, UniqueId = []\<rparr>, utxoPkScript = [], utxoLockTime = 0,
                Timestamp = 0, Flags = 0\<rparr>)
     (newTransaction [\<lparr>App = APP_PAYMENT, Payload = PayPayment (NewPaymentPayload
        [\<lparr>SignatureScript = [], Extra = [],
          PreviousOutPoint = Some \<lparr>TxHash = replicate 32 7, MessageIndex = 0, OutIndex = 0\<rparr>\<rparr>]
        [\<lparr>Value = 7, PkScript = [], outAsset = \<lparr>AssetId = PTNCOIN, UniqueId = []\<rparr>\<rparr>])\<rparr>])
   = Inr \<lparr>aaAmount = 3, aaAsset = Some \<lparr>AssetId = PTNCOIN, UniqueId = []\<rparr>\<rparr>"
  by (subst tx_fee_exact [where us = "[\<lparr>Amount = 10, utxoAsset = \<lparr>AssetId = PTNCOIN, UniqueId = []\<rparr>,
      utxoPkScript = [], utxoLockTime = 0, Timestamp = 0, Flags = 0\<rparr>]"])
    (auto simp: newTransaction_def NewPaymentPayload_def IsCoinbase_def spends_def)

text \<open>
  C34. The overflow tests of the fee computation never fire: they compare a sum that has already
  wrapped around with the largest 64-bit number, so that no transaction is refused because its inputs
  or its outputs sum up to more than 64 bits.
\<close>

theorem fee_overflow_never_detected:
  "GetTxFee ptn queryUtxo tx \<noteq> Inl (ErrOther ''txin total overflow'')
    \<and> GetTxFee ptn queryUtxo tx \<noteq> Inl (ErrOther ''txout total overflow'')"
proof -
  have ins: "feeInputs queryUtxo acc fa is \<noteq> Inl (ErrOther ''txin total overflow'')
      \<and> feeInputs queryUtxo acc fa is \<noteq> Inl (ErrOther ''txout total overflow'')" for acc fa "is"
  proof (induction "is" arbitrary: acc fa)
    case (Cons i "is")
    then show ?case
      by (simp add: uint64_max [simplified] split: option.splits sum.splits)
  qed simp
  show ?thesis
  proof (cases "TxMessages tx")
    case (Cons m ms)
    show ?thesis
    proof (cases "payment m")
      case (Inl e)
      then have "e = GoPanic"
        by (simp add: payment_def split: payload.splits)
      with Cons Inl show ?thesis by (simp add: GetTxFee_def)
    next
      case (Inr pay)
      show ?thesis
      proof (cases "feeInputs queryUtxo 0 None (Inputs pay)")
        case (Inl e)
        with ins [of 0 None "Inputs pay"] Cons Inr show ?thesis by (simp add: GetTxFee_def)
      next
        case (Inr r)
        with Cons \<open>payment m = Inr pay\<close> show ?thesis
          by (cases r) (simp add: GetTxFee_def feeOutputs_sum)
      qed
    qed
  qed (simp add: GetTxFee_def)
qed

end
