(* ===== verification/SigHash.thy ===== *)
theory SigHash
  imports Script TxProps
begin

text \<open>
  The data a signature commits to: \<open>calcSignatureData\<close> and its callers in
  \<open>src/tokenengine/internal/txscript/script.go\<close>. Go's run-time panics on a missing message, on a message
  that is not a payment and on a slice out of range are \<open>Inl GoPanic\<close>; a slice bound is checked
  against the length, which is also the capacity of a slice that was just decoded.
\<close>

section \<open>Model\<close>

type_synonym sigHashType = uint32

abbreviation (input) SigHashOld :: sigHashType where "SigHashOld \<equiv> 0x0"
abbreviation (input) SigHashAll :: sigHashType where "SigHashAll \<equiv> 0x1"
abbreviation (input) SigHashNone :: sigHashType where "SigHashNone \<equiv> 0x2"
abbreviation (input) SigHashSingle :: sigHashType where "SigHashSingle \<equiv> 0x3"
abbreviation (input) SigHashRaw :: sigHashType where "SigHashRaw \<equiv> 0x4"
abbreviation (input) SigHashAnyOneCanPay :: sigHashType where "SigHashAnyOneCanPay \<equiv> 0x80"
abbreviation (input) SigHashOneMessage :: sigHashType where "SigHashOneMessage \<equiv> 0x40"
abbreviation (input) sigHashMask :: sigHashType where "sigHashMask \<equiv> 0x1f"

text \<open>Indexing that panics out of range.\<close>

definition idxE :: "'a list \<Rightarrow> int \<Rightarrow> script_error + 'a" where
  "idxE xs i = (if 0 \<le> i \<and> i < int (length xs) then Inr (xs ! nat i) else Inl GoPanic)"

definition bindS :: "'e + 'a \<Rightarrow> ('a \<Rightarrow> 'e + 'b) \<Rightarrow> 'e + 'b" where
  "bindS m k = (case m of Inl e \<Rightarrow> Inl e | Inr a \<Rightarrow> k a)"

lemma bindS_simps [simp]: "bindS (Inl e) k = Inl e" "bindS (Inr a) k = k a"
  by (simp_all add: bindS_def)

text \<open>The transaction and the message a signature of the given type looks at.\<close>

definition sigTx :: "'a rlp_lib_scheme \<Rightarrow> sigHashType \<Rightarrow> transaction \<Rightarrow> int \<Rightarrow> script_error + transaction \<times> int" where
  "sigTx L hashType otx omsgIdx =
     (if hashType AND SigHashOneMessage = SigHashOneMessage
      then bindS (idxE (TxMessages otx) omsgIdx) (\<lambda>msg.
             bindS (AddMessage L msg emptyTx) (\<lambda>tx. Inr (tx, 0)))
      else Inr (otx, omsgIdx))"

definition paymentOf :: "transaction \<Rightarrow> int \<Rightarrow> script_error + paymentPayload" where
  "paymentOf tx msgIdx = bindS (idxE (TxMessages tx) msgIdx) payment"

text \<open>The signature script an input keeps: the given script at the signed input, nothing elsewhere.\<close>

definition signInput :: "bytes \<Rightarrow> sigHashType \<Rightarrow> int \<Rightarrow> int \<Rightarrow> int \<Rightarrow> int \<Rightarrow> txInput \<Rightarrow> txInput" where
  "signInput sigScript hashType msgIdx idx mIdx i inp =
     (if i = idx \<and> mIdx = msgIdx \<and> hashType \<noteq> SigHashRaw
      then inp\<lparr>SignatureScript := sigScript\<rparr> else inp\<lparr>SignatureScript := []\<rparr>)"

fun mapIdx :: "(int \<Rightarrow> 'a \<Rightarrow> 'b) \<Rightarrow> int \<Rightarrow> 'a list \<Rightarrow> 'b list" where
  "mapIdx f i [] = []"
| "mapIdx f i (x # xs) = f i x # mapIdx f (i + 1) xs"

definition signMsg :: "bytes \<Rightarrow> sigHashType \<Rightarrow> int \<Rightarrow> int \<Rightarrow> int \<Rightarrow> bool \<Rightarrow> int \<Rightarrow> message \<Rightarrow> script_error + message" where
  "signMsg sigScript hashType msgIdx idx requestIndex isInResult mIdx m =
     (if App m \<noteq> APP_PAYMENT then Inr m
      else bindS (payment m) (\<lambda>pay.
        if isInResult \<and> mIdx < requestIndex then Inr m
        else Inr (m\<lparr>Payload := PayPayment
               (pay\<lparr>Inputs := mapIdx (signInput sigScript hashType msgIdx idx mIdx) 0 (Inputs pay)\<rparr>)\<rparr>)))"

fun signMsgs :: "(int \<Rightarrow> message \<Rightarrow> script_error + message) \<Rightarrow> int \<Rightarrow> message list \<Rightarrow> script_error + message list" where
  "signMsgs f i [] = Inr []"
| "signMsgs f i (m # ms) = bindS (f i m) (\<lambda>m'. bindS (signMsgs f (i + 1) ms) (\<lambda>ms'. Inr (m' # ms')))"

definition cutOutputs :: "sigHashType \<Rightarrow> int \<Rightarrow> paymentPayload \<Rightarrow> script_error + paymentPayload" where
  "cutOutputs hashType idx pay =
     (if hashType AND sigHashMask = SigHashNone then Inr (pay\<lparr>Outputs := []\<rparr>)
      else if hashType AND sigHashMask = SigHashSingle then
        (if idx < -1 \<or> idx + 1 > int (length (Outputs pay)) then Inl GoPanic
         else Inr (pay\<lparr>Outputs := mapIdx (\<lambda>i out. if i < idx then out\<lparr>Value := 0, PkScript := []\<rparr> else out) 0
                (take (nat (idx + 1)) (Outputs pay))\<rparr>))
      else Inr pay)"

definition cutInputs :: "sigHashType \<Rightarrow> int \<Rightarrow> paymentPayload \<Rightarrow> script_error + paymentPayload" where
  "cutInputs hashType idx pay =
     (if hashType AND SigHashAnyOneCanPay \<noteq> 0
      then (if idx < 0 \<or> idx + 1 > int (length (Inputs pay)) then Inl GoPanic
            else Inr (pay\<lparr>Inputs := take 1 (drop (nat idx) (Inputs pay))\<rparr>))
      else Inr pay)"

definition setPayment :: "int \<Rightarrow> paymentPayload \<Rightarrow> message list \<Rightarrow> message list" where
  "setPayment i pay ms = ms[nat i := (ms ! nat i)\<lparr>Payload := PayPayment pay\<rparr>]"

definition calcSignatureData :: "'a rlp_lib_scheme \<Rightarrow> parsedOpcode list \<Rightarrow> sigHashType \<Rightarrow> transaction \<Rightarrow> int \<Rightarrow> int
    \<Rightarrow> script_error + bytes" where
  "calcSignatureData L script hashType otx omsgIdx idx =
     bindS (sigTx L hashType otx omsgIdx) (\<lambda>(tx, msgIdx).
     bindS (paymentOf tx msgIdx) (\<lambda>pay.
     if hashType AND sigHashMask = SigHashSingle \<and> idx \<ge> int (length (Outputs pay))
     then Inr (0x01 # replicate 31 0)
     else
       (let script' = removeOpcode script OP_CODESEPARATOR;
            sigScript = (case unparseScript script' of Inl e \<Rightarrow> [] | Inr b \<Rightarrow> b);
            txCopy = txClone L tx;
            requestIndex = GetRequestMsgIndex tx;
            isInResult = (msgIdx > requestIndex \<and> requestIndex \<noteq> -1)
        in bindS (paymentOf txCopy msgIdx) (\<lambda>_.
           bindS (signMsgs (signMsg sigScript hashType msgIdx idx requestIndex isInResult) 0 (TxMessages txCopy)) (\<lambda>msgs.
           bindS (paymentOf (txCopy\<lparr>TxMessages := msgs\<rparr>) msgIdx) (\<lambda>payCopy.
           bindS (cutOutputs hashType idx payCopy) (\<lambda>payCopy1.
           bindS (cutInputs hashType idx payCopy1) (\<lambda>payCopy2.
           Inr (encodeTx L (txCopy\<lparr>TxMessages := setPayment msgIdx payCopy2 msgs\<rparr>))))))))))"

definition calcSignatureHash :: "'a rlp_lib_scheme \<Rightarrow> (bytes \<Rightarrow> bytes) \<Rightarrow> parsedOpcode list \<Rightarrow> sigHashType \<Rightarrow> transaction
    \<Rightarrow> int \<Rightarrow> int \<Rightarrow> script_error + bytes" where
  "calcSignatureHash L Hash script hashType tx msgIdx idx =
     bindS (calcSignatureData L script hashType tx msgIdx idx) (\<lambda>data. Inr (Hash data))"

definition CalcSignatureHash :: "'a rlp_lib_scheme \<Rightarrow> (bytes \<Rightarrow> bytes) \<Rightarrow> bytes \<Rightarrow> sigHashType \<Rightarrow> transaction
    \<Rightarrow> int \<Rightarrow> int \<Rightarrow> script_error + bytes" where
  "CalcSignatureHash L Hash script hashType tx msgIdx idx =
     (case parseScript script of
        (_, Some e) \<Rightarrow> Inl (ErrOther ''cannot parse output script'')
      | (pops, None) \<Rightarrow> calcSignatureHash L Hash pops hashType tx msgIdx idx)"

section \<open>What a signature does not depend on\<close>

definition stripMsg :: "message \<Rightarrow> message" where
  "stripMsg m =
     (if App m = APP_PAYMENT
      then (case Payload m of
              PayPayment pay \<Rightarrow> m\<lparr>Payload := PayPayment (pay\<lparr>Inputs := map (\<lambda>i. i\<lparr>SignatureScript := []\<rparr>) (Inputs pay)\<rparr>)\<rparr>
            | _ \<Rightarrow> m)
      else m)"

definition stripSigs :: "transaction \<Rightarrow> transaction" where
  "stripSigs tx = tx\<lparr>TxMessages := map stripMsg (TxMessages tx), txHash := None\<rparr>"

lemma mapIdx_map: "mapIdx f i (map g xs) = mapIdx (\<lambda>i x. f i (g x)) i xs"
  by (induction xs arbitrary: i) simp_all

lemma mapIdx_length [simp]: "length (mapIdx f i xs) = length xs"
  by (induction xs arbitrary: i) simp_all

lemma App_stripMsg [simp]: "App (stripMsg m) = App m"
  by (simp add: stripMsg_def split: payload.splits)

lemma signInput_strip: "signInput s h mi i k j (inp\<lparr>SignatureScript := []\<rparr>) = signInput s h mi i k j inp"
  by (simp add: signInput_def)

lemma signMsg_strip:
  "signMsg s h mi i r False k (stripMsg m) = signMsg s h mi i r False k m"
  by (cases "Payload m") (simp_all add: signMsg_def stripMsg_def payment_def mapIdx_map signInput_strip)

lemma payment_strip:
  "(case payment (stripMsg m) of Inl e \<Rightarrow> Inl e | Inr pay \<Rightarrow> Inr (Outputs pay)) =
   (case payment m of Inl e \<Rightarrow> Inl e | Inr pay \<Rightarrow> Inr (Outputs pay))"
  by (cases "Payload m") (simp_all add: stripMsg_def payment_def)

lemma signMsgs_strip:
  "signMsgs (signMsg s h mi i r False) k (map stripMsg ms) = signMsgs (signMsg s h mi i r False) k ms"
  by (induction ms arbitrary: k) (simp_all add: signMsg_strip)

lemma paymentOf_strip:
  "(case paymentOf tx i of Inl e \<Rightarrow> Inl e | Inr pay \<Rightarrow> Inr (Outputs pay)) =
   (case paymentOf (stripSigs tx) i of Inl e \<Rightarrow> Inl e | Inr pay \<Rightarrow> Inr (Outputs pay))"
  using payment_strip [of "TxMessages tx ! nat i"]
  by (simp add: paymentOf_def idxE_def stripSigs_def nat_less_iff)

lemma findIdx_map: "findIdx P i (map f xs) = findIdx (\<lambda>x. P (f x)) i xs"
  by (induction xs arbitrary: i) simp_all

lemma request_strip: "GetRequestMsgIndex (stripSigs tx) = GetRequestMsgIndex tx"
  by (simp add: GetRequestMsgIndex_def stripSigs_def findIdx_map)

text \<open>
  The data as a function of the transaction without signature scripts, where no contract result is signed.
\<close>

definition sigDataOf :: "'a rlp_lib_scheme \<Rightarrow> bytes \<Rightarrow> sigHashType \<Rightarrow> transaction \<Rightarrow> int \<Rightarrow> int \<Rightarrow> script_error + bytes" where
  "sigDataOf L sigScript hashType tx msgIdx idx =
     bindS (paymentOf tx msgIdx) (\<lambda>pay.
     if hashType AND sigHashMask = SigHashSingle \<and> idx \<ge> int (length (Outputs pay))
     then Inr (0x01 # replicate 31 0)
     else
       bindS (signMsgs (signMsg sigScript hashType msgIdx idx (GetRequestMsgIndex tx) False) 0 (TxMessages tx)) (\<lambda>msgs.
       bindS (paymentOf (tx\<lparr>TxMessages := msgs\<rparr>) msgIdx) (\<lambda>payCopy.
       bindS (cutOutputs hashType idx payCopy) (\<lambda>payCopy1.
       bindS (cutInputs hashType idx payCopy1) (\<lambda>payCopy2.
       Inr (encodeTx L (tx\<lparr>TxMessages := setPayment msgIdx payCopy2 msgs\<rparr>)))))))"

lemma encodeTx_hash [simp]: "encodeTx L (tx\<lparr>txHash := h\<rparr>) = encodeTx L tx"
  by (simp add: encodeTx_def tx2Temp_def)

lemma paymentOf_hash [simp]: "paymentOf (tx\<lparr>txHash := h\<rparr>) i = paymentOf tx i"
  by (simp add: paymentOf_def)

lemma calcSignatureData_eq:
  assumes "rlp_ok L tx" and "list_all wire_msg (TxMessages tx)"
    and "hashType AND SigHashOneMessage \<noteq> SigHashOneMessage"
    and "\<not> (msgIdx > GetRequestMsgIndex tx \<and> GetRequestMsgIndex tx \<noteq> -1)"
  shows "calcSignatureData L script hashType tx msgIdx idx =
    sigDataOf L (case unparseScript (removeOpcode script OP_CODESEPARATOR) of Inl e \<Rightarrow> [] | Inr b \<Rightarrow> b) hashType tx msgIdx idx"
proof -
  have clone: "txClone L tx = tx\<lparr>txHash := None\<rparr>"
    using assms(1,2) by (rule txClone_eq)
  have result: "(GetRequestMsgIndex tx < msgIdx \<and> GetRequestMsgIndex tx \<noteq> -1) = False"
    using assms(4) by simp
  have enc: "encodeTx L (tx\<lparr>txHash := None, TxMessages := ms\<rparr>) = encodeTx L (tx\<lparr>TxMessages := ms\<rparr>)"
    and pay: "paymentOf (tx\<lparr>txHash := None, TxMessages := ms\<rparr>) i = paymentOf (tx\<lparr>TxMessages := ms\<rparr>) i" for ms i
    by (simp_all add: encodeTx_def tx2Temp_def paymentOf_def)
  show ?thesis
    using assms(3) by (cases "paymentOf tx msgIdx")
      (simp_all add: calcSignatureData_def sigDataOf_def sigTx_def Let_def clone result enc pay)
qed

lemma sigDataOf_strip:
  "sigDataOf L s hashType tx msgIdx idx = sigDataOf L s hashType (stripSigs tx) msgIdx idx"
proof -
  have msgs: "signMsgs (signMsg s hashType msgIdx idx (GetRequestMsgIndex tx) False) 0 (TxMessages (stripSigs tx)) =
      signMsgs (signMsg s hashType msgIdx idx (GetRequestMsgIndex tx) False) 0 (TxMessages tx)"
    by (simp add: stripSigs_def signMsgs_strip)
  have enc: "encodeTx L ((stripSigs tx)\<lparr>TxMessages := ms\<rparr>) = encodeTx L (tx\<lparr>TxMessages := ms\<rparr>)"
    and pay: "paymentOf ((stripSigs tx)\<lparr>TxMessages := ms\<rparr>) i = paymentOf (tx\<lparr>TxMessages := ms\<rparr>) i" for ms i
    by (simp_all add: stripSigs_def encodeTx_def tx2Temp_def paymentOf_def)
  show ?thesis
    using paymentOf_strip [of tx msgIdx]
    unfolding sigDataOf_def request_strip msgs enc pay
    by (cases "paymentOf tx msgIdx"; cases "paymentOf (stripSigs tx) msgIdx") simp_all
qed

lemma calcSignatureData_strip:
  assumes "rlp_ok L tx" and "rlp_ok L tx'"
    and "list_all wire_msg (TxMessages tx)" and "list_all wire_msg (TxMessages tx')"
    and "stripSigs tx = stripSigs tx'"
    and "hashType AND SigHashOneMessage \<noteq> SigHashOneMessage"
    and "msgIdx \<le> GetRequestMsgIndex tx \<or> GetRequestMsgIndex tx = -1"
  shows "calcSignatureData L script hashType tx msgIdx idx = calcSignatureData L script hashType tx' msgIdx idx"
proof -
  have "GetRequestMsgIndex tx' = GetRequestMsgIndex tx"
    using assms(5) request_strip by metis
  then show ?thesis
    using assms sigDataOf_strip [of L _ hashType tx] sigDataOf_strip [of L _ hashType tx']
    by (simp add: calcSignatureData_eq not_less)
qed

text \<open>
  A codec that decodes what it encodes on payments that differ in the signature script of their one input.
\<close>

definition oneInputRlp :: rlp_lib where
  "oneInputRlp =
     \<lparr>encPayload = \<lambda>w. (case w of WPayment (i # _) _ _ \<Rightarrow> itSignatureScript i | _ \<Rightarrow> []),
      decPayload = \<lambda>_ b. Some (WPayment [\<lparr>itSignatureScript = b, itExtra = [],
        itTxHash = replicate 32 9, itMessageIndex = 0, itOutIndex = 0\<rparr>] [] 0),
      encTx = \<lambda>t. concat (map mtData (ttMessages t)),
      decTx = \<lambda>b. Some \<lparr>ttMessages = [\<lparr>mtApp = APP_PAYMENT, mtData = b\<rparr>], ttCertId = [], ttIllegal = False\<rparr>,
      sha3Sum = id\<rparr>"

definition oneInputTx :: "bytes \<Rightarrow> transaction" where
  "oneInputTx sig = newTransaction [\<lparr>App = APP_PAYMENT, Payload = PayPayment (NewPaymentPayload
     [\<lparr>SignatureScript = sig, Extra = [],
       PreviousOutPoint = Some \<lparr>TxHash = replicate 32 9, MessageIndex = 0, OutIndex = 0\<rparr>\<rparr>] [])\<rparr>]"

lemma oneInput_ok:
  "rlp_ok oneInputRlp (oneInputTx sig)"
  "list_all wire_msg (TxMessages (oneInputTx sig))"
  by (simp_all add: rlp_ok_def oneInputRlp_def oneInputTx_def newTransaction_def NewPaymentPayload_def tx2Temp_def
      payloadEncode_def inputEncode_def wire_msg_def wire_input_def knownApp_def EmptyHash_def
      replicate_eq_replicate)

section \<open>Properties\<close>



end
