(* ===== verification/SigCache.thy ===== *)
theory SigCache
  imports Address
begin

text \<open>
  The cache of verified signatures: \<open>src/tokenengine/internal/txscript/sigcache.go\<close>. The Go map is a list
  of its keys. Two sources of chance are parameters: the 32 random bytes of an eviction, absent when
  reading them fails, and the order in which a range over the map visits its keys; \<open>draws\<close> counts the
  evictions so that every one has its own.
\<close>

section \<open>Model\<close>

record sigInfo =
  siHash :: bytes
  siSig :: bytes
  siPubKey :: bytes

record sig_cache =
  validSigs :: "sigInfo list"
  maxEntries :: nat
  draws :: nat

definition NewSigCache :: "nat \<Rightarrow> sig_cache" where
  "NewSigCache n = \<lparr>validSigs = [], maxEntries = n, draws = 0\<rparr>"

definition cacheCount :: "sig_cache \<Rightarrow> nat" where
  "cacheCount s = length (validSigs s)"

definition cacheExists :: "bytes \<Rightarrow> bytes \<Rightarrow> bytes \<Rightarrow> sig_cache \<Rightarrow> bool" where
  "cacheExists sigHash sig pubKey s =
     (\<lparr>siHash = sigHash, siSig = sig, siPubKey = pubKey\<rparr> \<in> set (validSigs s))"

fun findEvict :: "bytes \<Rightarrow> sigInfo \<Rightarrow> sigInfo list \<Rightarrow> sigInfo" where
  "findEvict rnd foundEntry [] = foundEntry"
| "findEvict rnd foundEntry (sigEntry # rest) =
     (let found = (if length (siSig foundEntry) = 0 then sigEntry else foundEntry)
      in if bytesCompare (siHash sigEntry) rnd > 0 then sigEntry else findEvict rnd found rest)"

definition emptySigInfo :: sigInfo where
  "emptySigInfo = \<lparr>siHash = [], siSig = [], siPubKey = []\<rparr>"

definition cacheInsert :: "sigInfo \<Rightarrow> sig_cache \<Rightarrow> sig_cache" where
  "cacheInsert info s = s\<lparr>validSigs := List.insert info (validSigs s)\<rparr>"

definition cacheAdd :: "(nat \<Rightarrow> bytes option) \<Rightarrow> (nat \<Rightarrow> sigInfo list \<Rightarrow> sigInfo list) \<Rightarrow> bytes \<Rightarrow> bytes \<Rightarrow> bytes
    \<Rightarrow> sig_cache \<Rightarrow> sig_cache" where
  "cacheAdd rand order sigHash sig pubKey s =
     (let info = \<lparr>siHash = sigHash, siSig = sig, siPubKey = pubKey\<rparr>
      in if maxEntries s \<le> 0 then s
         else if length (validSigs s) + 1 > maxEntries s then
           (case rand (draws s) of
              None \<Rightarrow> s\<lparr>draws := Suc (draws s)\<rparr>
            | Some rnd \<Rightarrow>
                (let foundEntry = findEvict rnd emptySigInfo (order (draws s) (validSigs s))
                 in cacheInsert info (s\<lparr>validSigs := filter (\<lambda>x. x \<noteq> foundEntry) (validSigs s),
                                        draws := Suc (draws s)\<rparr>)))
         else cacheInsert info s)"

section \<open>The contract of the cache\<close>

text \<open>
  What a client relies on: an entry is found only if it was added. Checking a signature through a store
  of past results that keeps this contract gives the same answer as checking it, as long as the store
  is used with the key of the check.
\<close>

locale result_store =
  fixes found :: "'k \<Rightarrow> 'c \<Rightarrow> bool"
    and add :: "'k \<Rightarrow> 'c \<Rightarrow> 'c"
  assumes found_add: "found k' (add k c) \<Longrightarrow> k' = k \<or> found k' c"
begin

definition sound :: "('k \<Rightarrow> bool) \<Rightarrow> 'c \<Rightarrow> bool" where
  "sound V c \<longleftrightarrow> (\<forall>k. found k c \<longrightarrow> V k)"

definition check :: "('k \<Rightarrow> bool) \<Rightarrow> 'k \<Rightarrow> 'c \<Rightarrow> bool \<times> 'c" where
  "check V k c = (if found k c then (True, c) else if V k then (True, add k c) else (False, c))"

lemma check_correct: "sound V c \<Longrightarrow> fst (check V k c) = V k"
  by (auto simp: sound_def check_def)

lemma check_sound: "sound V c \<Longrightarrow> sound V (snd (check V k c))"
  using found_add by (auto simp: sound_def check_def)

end

interpretation sc: result_store
  "\<lambda>(h, s, p). cacheExists h s p" "\<lambda>(h, s, p). cacheAdd rand order h s p" for rand order
  by unfold_locales
    (auto simp: cacheExists_def cacheAdd_def cacheInsert_def Let_def split: if_splits option.splits)

lemma cacheExists_add:
  "0 < maxEntries c \<Longrightarrow> length (validSigs c) < maxEntries c \<or> rand (draws c) \<noteq> None
     \<Longrightarrow> cacheExists h s p (cacheAdd rand order h s p c)"
  by (auto simp: cacheExists_def cacheAdd_def cacheInsert_def Let_def)

lemma findEvict_mem:
  "xs \<noteq> [] \<Longrightarrow> siSig found = [] \<Longrightarrow> findEvict rnd found xs \<in> set xs"
  "siSig found \<noteq> [] \<Longrightarrow> findEvict rnd found xs \<in> insert found (set xs)"
proof (induction xs arbitrary: found)
  case (Cons x xs)
  {
    case 1
    show ?case
    proof (cases "siSig x = []")
      case True
      then show ?thesis
        using Cons.IH(1) [of x] by (cases "xs = []") (auto simp: Let_def 1)
    next
      case False
      then show ?thesis
        using Cons.IH(2) [of x] by (auto simp: Let_def 1)
    qed
  next
    case 2
    then show ?case
      using Cons.IH(2) [of found] by (auto simp: Let_def)
  }
qed simp_all

section \<open>Properties\<close>

text \<open>
  C35. The cache never holds more than its maximum number of entries, whatever the random bytes and the
  iteration order of the map are, and it finds only what was added to it.
\<close>

theorem sigcache_bounded:
  assumes "\<And>n xs. set (order n xs) = set xs"
    and "distinct (validSigs c)" and "length (validSigs c) \<le> maxEntries c"
  shows "length (validSigs (cacheAdd rand order h s p c)) \<le> maxEntries c
    \<and> distinct (validSigs (cacheAdd rand order h s p c))
    \<and> (cacheExists h' s' p' (cacheAdd rand order h s p c) \<longrightarrow> (h', s', p') = (h, s, p) \<or> cacheExists h' s' p' c)"
proof (intro conjI impI)
  let ?info = "\<lparr>siHash = h, siSig = s, siPubKey = p\<rparr>"
  show "length (validSigs (cacheAdd rand order h s p c)) \<le> maxEntries c"
  proof (cases "maxEntries c > 0 \<and> length (validSigs c) + 1 > maxEntries c \<and> rand (draws c) \<noteq> None")
    case True
    then obtain rnd where rnd: "rand (draws c) = Some rnd"
      by blast
    define e where "e = findEvict rnd emptySigInfo (order (draws c) (validSigs c))"
    have "validSigs c \<noteq> []"
      using True by auto
    then have "order (draws c) (validSigs c) \<noteq> []"
      using assms(1) [of "draws c" "validSigs c"] by auto
    then have "e \<in> set (validSigs c)"
      using findEvict_mem(1) [of "order (draws c) (validSigs c)" emptySigInfo rnd] assms(1)
      by (simp add: e_def emptySigInfo_def)
    then have "length (filter (\<lambda>x. x \<noteq> e) (validSigs c)) < length (validSigs c)"
      by (rule length_filter_less) simp
    then show ?thesis
      using True assms(3) rnd by (auto simp: cacheAdd_def cacheInsert_def Let_def List.insert_def simp flip: e_def)
  next
    case False
    then show ?thesis
      using assms(3) by (auto simp: cacheAdd_def cacheInsert_def Let_def List.insert_def split: option.splits)
  qed
  show "distinct (validSigs (cacheAdd rand order h s p c))"
    using assms(2) by (auto simp: cacheAdd_def cacheInsert_def Let_def split: option.splits)
  show "(h', s', p') = (h, s, p) \<or> cacheExists h' s' p' c"
    if "cacheExists h' s' p' (cacheAdd rand order h s p c)"
    using sc.found_add [of "(h', s', p')" rand order "(h, s, p)" c] that by simp
qed

theorem sigcache_bounded_witness:
  "length (validSigs (cacheAdd (\<lambda>_. Some [0]) (\<lambda>_ xs. xs) [1] [2] [3] (cacheAdd (\<lambda>_. Some [0]) (\<lambda>_ xs. xs) [4] [5] [6]
     (NewSigCache 1)))) \<le> 1"
  using sigcache_bounded [of "\<lambda>_ xs. xs" "cacheAdd (\<lambda>_. Some [0]) (\<lambda>_ xs. xs) [4] [5] [6] (NewSigCache 1)" "\<lambda>_. Some [0]" "[1]" "[2]" "[3]"]
  by (simp add: NewSigCache_def cacheAdd_def cacheInsert_def)

end
