(* ===== verification/Engine.thy ===== *)
theory Engine
  imports Standard SigHash SigCache
begin

text \<open>
  The state of the script engine and the checks it shares between opcodes:
  \<open>src/tokenengine/internal/txscript/engine.go\<close>. The engine is a record with the fields of the Go struct.
  Its crypto provider, its contract redeem-script callback, the hash functions, base58 and the RLP codec come
  from outside the package and form the environment \<open>engine_env\<close>; a callback that is nil panics when it
  is called, so it is \<open>\<lambda>_. Inl GoPanic\<close>.
\<close>

section \<open>Model\<close>

abbreviation (input) ScriptBip16 :: uint32 where "ScriptBip16 \<equiv> 0x1"
abbreviation (input) ScriptStrictMultiSig :: uint32 where "ScriptStrictMultiSig \<equiv> 0x2"
abbreviation (input) ScriptDiscourageUpgradableNops :: uint32 where "ScriptDiscourageUpgradableNops \<equiv> 0x4"
abbreviation (input) ScriptVerifyCheckLockTimeVerify :: uint32 where "ScriptVerifyCheckLockTimeVerify \<equiv> 0x8"
abbreviation (input) ScriptVerifyCleanStack :: uint32 where "ScriptVerifyCleanStack \<equiv> 0x10"
abbreviation (input) ScriptVerifyDERSignatures :: uint32 where "ScriptVerifyDERSignatures \<equiv> 0x20"
abbreviation (input) ScriptVerifyLowS :: uint32 where "ScriptVerifyLowS \<equiv> 0x40"
abbreviation (input) ScriptVerifyMinimalData :: uint32 where "ScriptVerifyMinimalData \<equiv> 0x80"
abbreviation (input) ScriptVerifySigPushOnly :: uint32 where "ScriptVerifySigPushOnly \<equiv> 0x100"
abbreviation (input) ScriptVerifyStrictEncoding :: uint32 where "ScriptVerifyStrictEncoding \<equiv> 0x200"

abbreviation maxStackSize :: int where "maxStackSize \<equiv> 1000"
abbreviation MaxOpsPerScript :: int where "MaxOpsPerScript \<equiv> 201"

abbreviation (input) OpCondFalse :: int where "OpCondFalse \<equiv> 0"
abbreviation (input) OpCondTrue :: int where "OpCondTrue \<equiv> 1"
abbreviation (input) OpCondSkip :: int where "OpCondSkip \<equiv> 2"

text \<open>The interface \<open>ICrypto\<close> of \<open>types.go\<close>.\<close>

record icrypto =
  icHash :: "bytes \<Rightarrow> script_error + bytes"
  icSign :: "address \<Rightarrow> bytes \<Rightarrow> script_error + bytes"
  icVerify :: "bytes \<Rightarrow> bytes \<Rightarrow> bytes \<Rightarrow> bool"
  icGetPubKey :: "address \<Rightarrow> script_error + bytes"

record engine_env =
  envHash :: hash_lib
  envRlp :: rlp_lib
  envCrypto :: icrypto
  envPickup :: "address \<Rightarrow> script_error + bytes"
  envRand :: "nat \<Rightarrow> bytes option"
  envOrder :: "nat \<Rightarrow> sigInfo list \<Rightarrow> sigInfo list"
  envBase58 :: "bytes \<Rightarrow> byte \<Rightarrow> string"

record engine =
  etx :: transaction
  dstack :: stack
  astack :: stack
  scripts :: "parsedOpcode list list"
  condStack :: "int list"
  savedFirstStack :: "bytes list"
  scriptIdx :: nat
  scriptOff :: nat
  lastCodeSep :: nat
  msgIdx :: int
  txIdx :: int
  numOps :: int
  sigCache :: "sig_cache option"
  flags :: uint32
  bip16 :: bool
  p2ch :: bool

type_synonym 'a vm = "(engine, script_error, 'a) sm"

definition on_dstack :: "(stack, script_error, 'a) sm \<Rightarrow> 'a vm" where
  "on_dstack m vm = (case m (dstack vm) of (r, s) \<Rightarrow> (r, vm\<lparr>dstack := s\<rparr>))"

definition on_astack :: "(stack, script_error, 'a) sm \<Rightarrow> 'a vm" where
  "on_astack m vm = (case m (astack vm) of (r, s) \<Rightarrow> (r, vm\<lparr>astack := s\<rparr>))"

definition hasFlag :: "engine \<Rightarrow> uint32 \<Rightarrow> bool" where
  "hasFlag vm flag = (flags vm AND flag = flag)"

definition isBranchExecuting :: "engine \<Rightarrow> bool" where
  "isBranchExecuting vm = (if length (condStack vm) = 0 then True else last (condStack vm) = OpCondTrue)"

definition validPC :: "engine \<Rightarrow> script_error + unit" where
  "validPC vm =
     (if scriptIdx vm \<ge> length (scripts vm) then Inl (ErrOther ''past input scripts'')
      else if scriptOff vm \<ge> length (scripts vm ! scriptIdx vm) then Inl (ErrOther ''past input scripts'')
      else Inr ())"

definition curPC :: "engine \<Rightarrow> script_error + (nat \<times> nat)" where
  "curPC vm = (case validPC vm of Inl e \<Rightarrow> Inl e | Inr _ \<Rightarrow> Inr (scriptIdx vm, scriptOff vm))"

definition CheckErrorCondition :: "bool \<Rightarrow> unit vm" where
  "CheckErrorCondition finalScript vm =
     (if scriptIdx vm < length (scripts vm) then (Inl ErrStackScriptUnfinished, vm)
      else if finalScript \<and> hasFlag vm ScriptVerifyCleanStack \<and> Depth (dstack vm) \<noteq> 1
      then (Inl ErrStackCleanStack, vm)
      else if Depth (dstack vm) < 1 then (Inl ErrStackEmptyStack, vm)
      else bindE (on_dstack PopBool) (\<lambda>v. if v = False then throwE ErrStackScriptFailed else returnE ()) vm)"

definition subScript :: "engine \<Rightarrow> script_error + parsedOpcode list" where
  "subScript vm =
     (if scriptIdx vm < length (scripts vm) \<and> lastCodeSep vm \<le> length (scripts vm ! scriptIdx vm)
      then Inr (drop (lastCodeSep vm) (scripts vm ! scriptIdx vm)) else Inl GoPanic)"

definition checkHashTypeEncoding :: "engine \<Rightarrow> sigHashType \<Rightarrow> script_error + unit" where
  "checkHashTypeEncoding vm hashType =
     (if \<not> hasFlag vm ScriptVerifyStrictEncoding then Inr ()
      else
        (let sigHashType = hashType AND NOT SigHashAnyOneCanPay
         in if sigHashType < SigHashAll \<or> sigHashType > SigHashRaw then Inl (ErrOther ''invalid hashtype'')
            else Inr ()))"

definition checkPubKeyEncoding :: "engine \<Rightarrow> bytes \<Rightarrow> script_error + unit" where
  "checkPubKeyEncoding vm pubKey =
     (if \<not> hasFlag vm ScriptVerifyStrictEncoding then Inr ()
      else if length pubKey = 33 then Inr ()
      else if length pubKey = 65 \<and> pubKey ! 0 = 0x04 then Inr ()
      else Inl ErrStackInvalidPubKey)"

text \<open>
  The DER checks in the order of the code. Every index that the code reads without a check is guarded
  here by a panic: the only one that can be out of range is \<open>sig[rLen+5]\<close>, see \<open>derCheck_panics_iff\<close>.
\<close>

definition derCheck :: "bytes \<Rightarrow> script_error + unit" where
  "derCheck sig =
     (if length sig < 8 then Inl (ErrOther ''malformed signature: too short'')
      else if length sig > 72 then Inl (ErrOther ''malformed signature: too long'')
      else if sig ! 0 \<noteq> 0x30 then Inl (ErrOther ''malformed signature: format has wrong type'')
      else if int (unat (sig ! 1)) \<noteq> int (length sig) - 2 then Inl (ErrOther ''malformed signature: bad length'')
      else
        (let rLen = unat (sig ! 3)
         in if rLen + 5 > length sig then Inl (ErrOther ''malformed signature: S out of bounds'')
            else if rLen + 5 \<ge> length sig then Inl GoPanic
            else
              (let sLen = unat (sig ! (rLen + 5))
               in if rLen + sLen + 6 \<noteq> length sig then Inl (ErrOther ''malformed signature: invalid R length'')
                  else if sig ! 2 \<noteq> 0x02 then Inl (ErrOther ''malformed signature: missing first integer marker'')
                  else if rLen = 0 then Inl (ErrOther ''malformed signature: R length is zero'')
                  else if sig ! 4 AND 0x80 \<noteq> 0 then Inl (ErrOther ''malformed signature: R value is negative'')
                  else if rLen > 1 \<and> sig ! 4 = 0x00 \<and> sig ! 5 AND 0x80 = 0
                  then Inl (ErrOther ''malformed signature: invalid R value'')
                  else if sig ! (rLen + 4) \<noteq> 0x02 then Inl (ErrOther ''malformed signature: missing second integer marker'')
                  else if sLen = 0 then Inl (ErrOther ''malformed signature: S length is zero'')
                  else if sig ! (rLen + 6) AND 0x80 \<noteq> 0 then Inl (ErrOther ''malformed signature: S value is negative'')
                  else if sLen > 1 \<and> sig ! (rLen + 6) = 0x00 \<and> sig ! (rLen + 7) AND 0x80 = 0
                  then Inl (ErrOther ''malformed signature: invalid S value'')
                  else Inr ())))"

definition checkSignatureEncoding :: "engine \<Rightarrow> bytes \<Rightarrow> script_error + unit" where
  "checkSignatureEncoding vm sig =
     (if \<not> hasFlag vm ScriptVerifyDERSignatures \<and> \<not> hasFlag vm ScriptVerifyLowS
         \<and> \<not> hasFlag vm ScriptVerifyStrictEncoding
      then Inr () else derCheck sig)"

text \<open>
  \<open>getStack\<close> reads the stack from the top down with \<open>PeekByteArray\<close>, discarding errors; \<open>setStack\<close> drops
  all items, discarding the error of dropping none, and pushes the new ones.
\<close>

definition getStack :: "stack \<Rightarrow> bytes list" where
  "getStack s = rev (map (\<lambda>i. case fst (PeekByteArray (int i) s) of Inl e \<Rightarrow> [] | Inr so \<Rightarrow> so) [0..<nat (Depth s)])"

fun pushAll :: "bytes list \<Rightarrow> (stack, script_error, unit) sm" where
  "pushAll [] = returnE ()"
| "pushAll (so # rest) = bindE (PushByteArray so) (\<lambda>_. pushAll rest)"

definition setStack :: "stack \<Rightarrow> bytes list \<Rightarrow> stack" where
  "setStack s data = snd (pushAll data (snd (DropN (Depth s) s)))"

definition GetStack :: "engine \<Rightarrow> bytes list" where
  "GetStack vm = getStack (dstack vm)"

definition SetStack :: "bytes list \<Rightarrow> engine \<Rightarrow> engine" where
  "SetStack data vm = vm\<lparr>dstack := setStack (dstack vm) data\<rparr>"

definition GetAltStack :: "engine \<Rightarrow> bytes list" where
  "GetAltStack vm = getStack (astack vm)"

definition SetAltStack :: "bytes list \<Rightarrow> engine \<Rightarrow> engine" where
  "SetAltStack data vm = vm\<lparr>astack := setStack (astack vm) data\<rparr>"

section \<open>The panic of the signature encoding check\<close>

lemma derCheck_panics_iff:
  "derCheck sig = Inl GoPanic \<longleftrightarrow> 8 \<le> length sig \<and> length sig \<le> 72 \<and> sig ! 0 = 0x30
     \<and> int (unat (sig ! 1)) = int (length sig) - 2 \<and> unat (sig ! 3) + 5 = length sig"
  by (auto simp: derCheck_def Let_def)

end
