(* ===== verification/EngineOps.thy ===== *)
theory EngineOps
  imports Engine
begin

text \<open>
  The handlers of the opcodes: the functions \<open>opcode*\<close> of \<open>src/tokenengine/internal/txscript/opcode.go\<close>, one
  definition per handler, and \<open>executeOpcode\<close> of \<open>engine.go\<close>, which calls the handler of the table row.
  Arithmetic is on \<open>int64\<close>, with its wrap-around.
\<close>

section \<open>Constants, flow control and conditions\<close>

definition opcodeDisabled :: "parsedOpcode \<Rightarrow> unit vm" where
  "opcodeDisabled pop = throwE ErrStackOpDisabled"

definition opcodeReserved :: "parsedOpcode \<Rightarrow> unit vm" where
  "opcodeReserved pop = throwE ErrStackReservedOpcode"

definition opcodeInvalid :: "parsedOpcode \<Rightarrow> unit vm" where
  "opcodeInvalid pop = throwE ErrStackInvalidOpcode"

definition opcodeFalse :: "parsedOpcode \<Rightarrow> unit vm" where
  "opcodeFalse pop = on_dstack (PushByteArray [])"

definition opcodePushData :: "parsedOpcode \<Rightarrow> unit vm" where
  "opcodePushData pop = on_dstack (PushByteArray (pop_data pop))"

definition opcode1Negate :: "parsedOpcode \<Rightarrow> unit vm" where
  "opcode1Negate pop = on_dstack (PushInt (-1))"

definition opcodeN :: "parsedOpcode \<Rightarrow> unit vm" where
  "opcodeN pop = on_dstack (PushInt (uint (pvalue pop - (OP_1 - 1))))"

abbreviation (input) OP_NOP3 :: byte where "OP_NOP3 \<equiv> 0xb2"
abbreviation (input) OP_NOP4 :: byte where "OP_NOP4 \<equiv> 0xb3"
abbreviation (input) OP_NOP5 :: byte where "OP_NOP5 \<equiv> 0xb4"
abbreviation (input) OP_NOP6 :: byte where "OP_NOP6 \<equiv> 0xb5"
abbreviation (input) OP_NOP7 :: byte where "OP_NOP7 \<equiv> 0xb6"
abbreviation (input) OP_NOP8 :: byte where "OP_NOP8 \<equiv> 0xb7"
abbreviation (input) OP_NOP9 :: byte where "OP_NOP9 \<equiv> 0xb8"

definition opcodeNop :: "parsedOpcode \<Rightarrow> unit vm" where
  "opcodeNop pop = bindE getE (\<lambda>vm.
     if pvalue pop \<in> {OP_NOP1, OP_NOP3, OP_NOP4, OP_NOP5, OP_NOP6, OP_NOP7, OP_NOP8, OP_NOP9, OP_NOP10}
        \<and> hasFlag vm ScriptDiscourageUpgradableNops
     then throwE (ErrOther ''OP_NOP reserved for soft-fork upgrades'') else returnE ())"

definition opcodeIf :: "parsedOpcode \<Rightarrow> unit vm" where
  "opcodeIf pop = bindE getE (\<lambda>vm.
     bindE (if isBranchExecuting vm
            then bindE (on_dstack PopBool) (\<lambda>ok. returnE (if ok then OpCondTrue else OpCondFalse))
            else returnE OpCondSkip)
     (\<lambda>condVal. modifyE (\<lambda>vm. vm\<lparr>condStack := condStack vm @ [condVal]\<rparr>)))"

definition opcodeNotIf :: "parsedOpcode \<Rightarrow> unit vm" where
  "opcodeNotIf pop = bindE getE (\<lambda>vm.
     bindE (if isBranchExecuting vm
            then bindE (on_dstack PopBool) (\<lambda>ok. returnE (if \<not> ok then OpCondTrue else OpCondFalse))
            else returnE OpCondSkip)
     (\<lambda>condVal. modifyE (\<lambda>vm. vm\<lparr>condStack := condStack vm @ [condVal]\<rparr>)))"

definition invertCond :: "int \<Rightarrow> int" where
  "invertCond c = (if c = OpCondTrue then OpCondFalse else if c = OpCondFalse then OpCondTrue else c)"

definition opcodeElse :: "parsedOpcode \<Rightarrow> unit vm" where
  "opcodeElse pop = bindE getE (\<lambda>vm.
     if length (condStack vm) = 0 then throwE ErrStackNoIf
     else modifyE (\<lambda>vm. vm\<lparr>condStack := (condStack vm)[length (condStack vm) - 1 := invertCond (last (condStack vm))]\<rparr>))"

definition opcodeEndif :: "parsedOpcode \<Rightarrow> unit vm" where
  "opcodeEndif pop = bindE getE (\<lambda>vm.
     if length (condStack vm) = 0 then throwE ErrStackNoIf
     else modifyE (\<lambda>vm. vm\<lparr>condStack := butlast (condStack vm)\<rparr>))"

definition opcodeVerify :: "parsedOpcode \<Rightarrow> unit vm" where
  "opcodeVerify pop = bindE (on_dstack PopBool) (\<lambda>verified.
     if verified \<noteq> True then throwE ErrStackVerifyFailed else returnE ())"

definition opcodeReturn :: "parsedOpcode \<Rightarrow> unit vm" where
  "opcodeReturn pop = throwE ErrStackEarlyReturn"

abbreviation LockTimeThreshold :: int where "LockTimeThreshold \<equiv> 500000000"

definition opcodeCheckLockTimeVerify :: "parsedOpcode \<Rightarrow> unit vm" where
  "opcodeCheckLockTimeVerify pop = bindE getE (\<lambda>vm.
     if \<not> hasFlag vm ScriptVerifyCheckLockTimeVerify then
       (if hasFlag vm ScriptDiscourageUpgradableNops
        then throwE (ErrOther ''OP_NOP2 reserved for soft-fork upgrades'') else returnE ())
     else
       bindE (on_dstack (PeekByteArray 0)) (\<lambda>so.
       bindE (liftE (makeScriptNum so (verifyMinimalData (dstack vm)) 5)) (\<lambda>lockTime.
       if lockTime < 0 then throwE (ErrOther ''negative locktime'')
       else
         bindE (liftE (paymentOf (etx vm) 0)) (\<lambda>msg0.
         let txlockTime = uint (LockTime msg0)
         in if \<not> (txlockTime < LockTimeThreshold \<and> lockTime < LockTimeThreshold
               \<or> txlockTime \<ge> LockTimeThreshold \<and> lockTime \<ge> LockTimeThreshold)
            then throwE (ErrOther ''mismatched locktime types'')
            else if lockTime > txlockTime then throwE (ErrOther ''locktime requirement not satisfied'')
            else returnE ()))))"

section \<open>Stack\<close>

definition opcodeToAltStack :: "parsedOpcode \<Rightarrow> unit vm" where
  "opcodeToAltStack pop = bindE (on_dstack PopByteArray) (\<lambda>so. on_astack (PushByteArray so))"

definition opcodeFromAltStack :: "parsedOpcode \<Rightarrow> unit vm" where
  "opcodeFromAltStack pop = bindE (on_astack PopByteArray) (\<lambda>so. on_dstack (PushByteArray so))"

definition opcode2Drop :: "parsedOpcode \<Rightarrow> unit vm" where
  "opcode2Drop pop = on_dstack (DropN 2)"

definition opcode2Dup :: "parsedOpcode \<Rightarrow> unit vm" where
  "opcode2Dup pop = on_dstack (DupN 2)"

definition opcode3Dup :: "parsedOpcode \<Rightarrow> unit vm" where
  "opcode3Dup pop = on_dstack (DupN 3)"

definition opcode2Over :: "parsedOpcode \<Rightarrow> unit vm" where
  "opcode2Over pop = on_dstack (OverN 2)"

definition opcode2Rot :: "parsedOpcode \<Rightarrow> unit vm" where
  "opcode2Rot pop = on_dstack (RotN 2)"

definition opcode2Swap :: "parsedOpcode \<Rightarrow> unit vm" where
  "opcode2Swap pop = on_dstack (SwapN 2)"

definition opcodeIfDup :: "parsedOpcode \<Rightarrow> unit vm" where
  "opcodeIfDup pop = bindE (on_dstack (PeekByteArray 0)) (\<lambda>so.
     if asBool so then on_dstack (PushByteArray so) else returnE ())"

definition opcodeDepth :: "parsedOpcode \<Rightarrow> unit vm" where
  "opcodeDepth pop = bindE getE (\<lambda>vm. on_dstack (PushInt (Depth (dstack vm))))"

definition opcodeDrop :: "parsedOpcode \<Rightarrow> unit vm" where
  "opcodeDrop pop = on_dstack (DropN 1)"

definition opcodeDup :: "parsedOpcode \<Rightarrow> unit vm" where
  "opcodeDup pop = on_dstack (DupN 1)"

definition opcodeNip :: "parsedOpcode \<Rightarrow> unit vm" where
  "opcodeNip pop = on_dstack (NipN 1)"

definition opcodeOver :: "parsedOpcode \<Rightarrow> unit vm" where
  "opcodeOver pop = on_dstack (OverN 1)"

definition opcodePick :: "parsedOpcode \<Rightarrow> unit vm" where
  "opcodePick pop = bindE (on_dstack PopInt) (\<lambda>val. on_dstack (PickN (scriptNum_Int32 val)))"

definition opcodeRoll :: "parsedOpcode \<Rightarrow> unit vm" where
  "opcodeRoll pop = bindE (on_dstack PopInt) (\<lambda>val. on_dstack (RollN (scriptNum_Int32 val)))"

definition opcodeRot :: "parsedOpcode \<Rightarrow> unit vm" where
  "opcodeRot pop = on_dstack (RotN 1)"

definition opcodeSwap :: "parsedOpcode \<Rightarrow> unit vm" where
  "opcodeSwap pop = on_dstack (SwapN 1)"

definition opcodeTuck :: "parsedOpcode \<Rightarrow> unit vm" where
  "opcodeTuck pop = on_dstack Tuck"

definition opcodeSize :: "parsedOpcode \<Rightarrow> unit vm" where
  "opcodeSize pop = bindE (on_dstack (PeekByteArray 0)) (\<lambda>so. on_dstack (PushInt (int (length so))))"

definition opcodeEqual :: "parsedOpcode \<Rightarrow> unit vm" where
  "opcodeEqual pop = bindE (on_dstack PopByteArray) (\<lambda>a. bindE (on_dstack PopByteArray) (\<lambda>b.
     on_dstack (PushBool (a = b))))"

definition opcodeEqualVerify :: "parsedOpcode \<Rightarrow> unit vm" where
  "opcodeEqualVerify pop = bindE (opcodeEqual pop) (\<lambda>_. opcodeVerify pop)"

section \<open>Numbers\<close>

text \<open>Handlers that replace one or two numbers; the second argument is the item below the top.\<close>

definition numOp1 :: "(int \<Rightarrow> int) \<Rightarrow> unit vm" where
  "numOp1 f = bindE (on_dstack PopInt) (\<lambda>m. on_dstack (PushInt (f m)))"

definition numOp2 :: "(int \<Rightarrow> int \<Rightarrow> int) \<Rightarrow> unit vm" where
  "numOp2 f = bindE (on_dstack PopInt) (\<lambda>v0. bindE (on_dstack PopInt) (\<lambda>v1. on_dstack (PushInt (f v0 v1))))"

definition opcode1Add :: "parsedOpcode \<Rightarrow> unit vm" where
  "opcode1Add pop = numOp1 (\<lambda>m. i64 (m + 1))"

definition opcode1Sub :: "parsedOpcode \<Rightarrow> unit vm" where
  "opcode1Sub pop = numOp1 (\<lambda>m. i64 (m - 1))"

definition opcodeNegate :: "parsedOpcode \<Rightarrow> unit vm" where
  "opcodeNegate pop = numOp1 (\<lambda>m. i64 (- m))"

definition opcodeAbs :: "parsedOpcode \<Rightarrow> unit vm" where
  "opcodeAbs pop = numOp1 (\<lambda>m. if m < 0 then i64 (- m) else m)"

definition opcodeNot :: "parsedOpcode \<Rightarrow> unit vm" where
  "opcodeNot pop = numOp1 (\<lambda>m. if m = 0 then 1 else 0)"

definition opcode0NotEqual :: "parsedOpcode \<Rightarrow> unit vm" where
  "opcode0NotEqual pop = numOp1 (\<lambda>m. if m \<noteq> 0 then 1 else m)"

definition opcodeAdd :: "parsedOpcode \<Rightarrow> unit vm" where
  "opcodeAdd pop = numOp2 (\<lambda>v0 v1. i64 (v0 + v1))"

definition opcodeSub :: "parsedOpcode \<Rightarrow> unit vm" where
  "opcodeSub pop = numOp2 (\<lambda>v0 v1. i64 (v1 - v0))"

definition opcodeBoolAnd :: "parsedOpcode \<Rightarrow> unit vm" where
  "opcodeBoolAnd pop = numOp2 (\<lambda>v0 v1. if v0 \<noteq> 0 \<and> v1 \<noteq> 0 then 1 else 0)"

definition opcodeBoolOr :: "parsedOpcode \<Rightarrow> unit vm" where
  "opcodeBoolOr pop = numOp2 (\<lambda>v0 v1. if v0 \<noteq> 0 \<or> v1 \<noteq> 0 then 1 else 0)"

definition opcodeNumEqual :: "parsedOpcode \<Rightarrow> unit vm" where
  "opcodeNumEqual pop = numOp2 (\<lambda>v0 v1. if v0 = v1 then 1 else 0)"

definition opcodeNumEqualVerify :: "parsedOpcode \<Rightarrow> unit vm" where
  "opcodeNumEqualVerify pop = bindE (opcodeNumEqual pop) (\<lambda>_. opcodeVerify pop)"

definition opcodeNumNotEqual :: "parsedOpcode \<Rightarrow> unit vm" where
  "opcodeNumNotEqual pop = numOp2 (\<lambda>v0 v1. if v0 \<noteq> v1 then 1 else 0)"

definition opcodeLessThan :: "parsedOpcode \<Rightarrow> unit vm" where
  "opcodeLessThan pop = numOp2 (\<lambda>v0 v1. if v1 < v0 then 1 else 0)"

definition opcodeGreaterThan :: "parsedOpcode \<Rightarrow> unit vm" where
  "opcodeGreaterThan pop = numOp2 (\<lambda>v0 v1. if v1 > v0 then 1 else 0)"

definition opcodeLessThanOrEqual :: "parsedOpcode \<Rightarrow> unit vm" where
  "opcodeLessThanOrEqual pop = numOp2 (\<lambda>v0 v1. if v1 \<le> v0 then 1 else 0)"

definition opcodeGreaterThanOrEqual :: "parsedOpcode \<Rightarrow> unit vm" where
  "opcodeGreaterThanOrEqual pop = numOp2 (\<lambda>v0 v1. if v1 \<ge> v0 then 1 else 0)"

definition opcodeMin :: "parsedOpcode \<Rightarrow> unit vm" where
  "opcodeMin pop = numOp2 (\<lambda>v0 v1. if v1 < v0 then v1 else v0)"

definition opcodeMax :: "parsedOpcode \<Rightarrow> unit vm" where
  "opcodeMax pop = numOp2 (\<lambda>v0 v1. if v1 > v0 then v1 else v0)"

definition opcodeWithin :: "parsedOpcode \<Rightarrow> unit vm" where
  "opcodeWithin pop = bindE (on_dstack PopInt) (\<lambda>maxVal. bindE (on_dstack PopInt) (\<lambda>minVal.
     bindE (on_dstack PopInt) (\<lambda>x. on_dstack (PushInt (if x \<ge> minVal \<and> x < maxVal then 1 else 0)))))"

section \<open>Hashes\<close>

definition hashOp :: "(bytes \<Rightarrow> bytes) \<Rightarrow> unit vm" where
  "hashOp h = bindE (on_dstack PopByteArray) (\<lambda>buf. on_dstack (PushByteArray (h buf)))"

definition opcodeRipemd160 :: "engine_env \<Rightarrow> parsedOpcode \<Rightarrow> unit vm" where
  "opcodeRipemd160 E pop = hashOp (ripemd160Sum (envHash E))"

definition opcodeSha1 :: "engine_env \<Rightarrow> parsedOpcode \<Rightarrow> unit vm" where
  "opcodeSha1 E pop = hashOp (sha1Sum (envHash E))"

definition opcodeSha256 :: "engine_env \<Rightarrow> parsedOpcode \<Rightarrow> unit vm" where
  "opcodeSha256 E pop = hashOp (keccak256Sum (envHash E))"

definition opcodeHash160 :: "engine_env \<Rightarrow> parsedOpcode \<Rightarrow> unit vm" where
  "opcodeHash160 E pop = hashOp (Hash160 (envHash E))"

definition opcodeHash256 :: "engine_env \<Rightarrow> parsedOpcode \<Rightarrow> unit vm" where
  "opcodeHash256 E pop = hashOp (keccak256Sum (envHash E))"

definition opcodeCodeSeparator :: "parsedOpcode \<Rightarrow> unit vm" where
  "opcodeCodeSeparator pop = modifyE (\<lambda>vm. vm\<lparr>lastCodeSep := scriptOff vm\<rparr>)"

section \<open>Signatures\<close>

text \<open>
  A signature is checked through the cache when the engine has one. The key of the cache holds the bytes
  that \<open>copy\<close> moves into a nil slice, which are none.
\<close>

definition cacheKey :: "bytes \<Rightarrow> bytes" where
  "cacheKey data = (let sigHash = [] in copyAt 0 data sigHash)"

definition verifySig :: "engine_env \<Rightarrow> bytes \<Rightarrow> bytes \<Rightarrow> bytes \<Rightarrow> bool vm" where
  "verifySig E pubKey sig data vm =
     (case sigCache vm of
        None \<Rightarrow> (Inr (icVerify (envCrypto E) pubKey sig data), vm)
      | Some c \<Rightarrow>
          (let sigHash = cacheKey data
           in if cacheExists sigHash sig pubKey c then (Inr True, vm)
              else if icVerify (envCrypto E) pubKey sig data
              then (Inr True, vm\<lparr>sigCache := Some (cacheAdd (envRand E) (envOrder E) sigHash sig pubKey c)\<rparr>)
              else (Inr False, vm)))"

definition opcodeCheckSig :: "engine_env \<Rightarrow> parsedOpcode \<Rightarrow> unit vm" where
  "opcodeCheckSig E pop =
     bindE (on_dstack PopByteArray) (\<lambda>pkBytes.
     bindE (on_dstack PopByteArray) (\<lambda>fullSigBytes.
     if length fullSigBytes < 1 then on_dstack (PushBool False)
     else
       (let hashType = ucast (last fullSigBytes); sigBytes = butlast fullSigBytes
        in bindE getE (\<lambda>vm.
           bindE (liftE (checkHashTypeEncoding vm hashType)) (\<lambda>_.
           bindE (liftE (checkSignatureEncoding vm sigBytes)) (\<lambda>_.
           bindE (liftE (checkPubKeyEncoding vm pkBytes)) (\<lambda>_.
           bindE (liftE (subScript vm)) (\<lambda>sub.
           let sub' = removeOpcodeByData sub fullSigBytes
           in bindE (liftE (calcSignatureData (envRlp E) sub' hashType (etx vm) (msgIdx vm) (txIdx vm))) (\<lambda>data.
              bindE (verifySig E pkBytes sigBytes data) (\<lambda>valid.
              on_dstack (PushBool valid)))))))))))"

definition opcodeCheckSigVerify :: "engine_env \<Rightarrow> parsedOpcode \<Rightarrow> unit vm" where
  "opcodeCheckSigVerify E pop = bindE (opcodeCheckSig E pop) (\<lambda>_. opcodeVerify pop)"

text \<open>The loop over the public keys, the signatures and public keys still to be looked at.\<close>

fun multiSigLoop :: "engine_env \<Rightarrow> parsedOpcode list \<Rightarrow> bytes list \<Rightarrow> bytes list \<Rightarrow> bool vm" where
  "multiSigLoop E script [] pubKeys = returnE True"
| "multiSigLoop E script (rawSig # sigs) [] = returnE False"
| "multiSigLoop E script (rawSig # sigs) (pubKey # pubKeys) =
     (if length (rawSig # sigs) > length (pubKey # pubKeys) then returnE False
      else if length rawSig = 0 then multiSigLoop E script (rawSig # sigs) pubKeys
      else
        (let hashType = ucast (last rawSig); signature = butlast rawSig
         in bindE getE (\<lambda>vm.
            bindE (liftE (checkHashTypeEncoding vm hashType)) (\<lambda>_.
            bindE (liftE (calcSignatureData (envRlp E) script hashType (etx vm) (msgIdx vm) (txIdx vm))) (\<lambda>data.
            bindE (verifySig E pubKey signature data) (\<lambda>valid.
            if valid then multiSigLoop E script sigs pubKeys
            else multiSigLoop E script (rawSig # sigs) pubKeys))))))"

definition opcodeCheckMultiSig :: "engine_env \<Rightarrow> parsedOpcode \<Rightarrow> unit vm" where
  "opcodeCheckMultiSig E pop =
     bindE (on_dstack PopInt) (\<lambda>numKeys.
     let numPubKeys = scriptNum_Int32 numKeys
     in if numPubKeys < 0 \<or> numPubKeys > MaxPubKeysPerMultiSig then throwE ErrStackTooManyPubKeys
        else
          bindE (modifyE (\<lambda>vm. vm\<lparr>numOps := numOps vm + numPubKeys\<rparr>)) (\<lambda>_.
          bindE getE (\<lambda>vm.
          if numOps vm > MaxOpsPerScript then throwE ErrStackTooManyOperations
          else
            bindE (on_dstack (popListE (nat numPubKeys) PopByteArray)) (\<lambda>pubKeys.
            bindE (on_dstack PopInt) (\<lambda>numSigs.
            let numSignatures = scriptNum_Int32 numSigs
            in if numSignatures < 0 then throwE (ErrOther ''number of signatures is less than 0'')
               else if numSignatures > numPubKeys then throwE (ErrOther ''more signatures than pubkeys'')
               else
                 bindE (on_dstack (popListE (nat numSignatures) PopByteArray)) (\<lambda>signatures.
                 bindE (on_dstack PopByteArray) (\<lambda>dummy.
                 if hasFlag vm ScriptStrictMultiSig \<and> length dummy \<noteq> 0
                 then throwE (ErrOther ''multisig dummy argument is not zero length'')
                 else
                   bindE (liftE (subScript vm)) (\<lambda>sub.
                   let script = foldl removeOpcodeByData sub signatures
                   in bindE (multiSigLoop E script signatures pubKeys) (\<lambda>success.
                      on_dstack (PushBool success))))))))))"

definition opcodeCheckMultiSigVerify :: "engine_env \<Rightarrow> parsedOpcode \<Rightarrow> unit vm" where
  "opcodeCheckMultiSigVerify E pop = bindE (opcodeCheckMultiSig E pop) (\<lambda>_. opcodeVerify pop)"

definition opcodeCheckJuryRedeemEqual :: "engine_env \<Rightarrow> parsedOpcode \<Rightarrow> unit vm" where
  "opcodeCheckJuryRedeemEqual E pop =
     bindE (on_dstack PopByteArray) (\<lambda>contractHash.
     bindE (on_dstack PopByteArray) (\<lambda>redeemScript.
     let addr = NewAddress contractHash ContractHash
     in if IsSystemContractAddress addr then on_dstack (PushBool True)
        else bindE (liftE (envPickup E addr)) (\<lambda>dbRedeem. on_dstack (PushBool (dbRedeem = redeemScript)))))"

section \<open>Dispatch\<close>

fun runOpfunc :: "engine_env \<Rightarrow> opfunc \<Rightarrow> parsedOpcode \<Rightarrow> unit vm" where
  "runOpfunc E fn_nil pop = throwE GoPanic"
| "runOpfunc E fn_opcodeFalse pop = opcodeFalse pop"
| "runOpfunc E fn_opcodePushData pop = opcodePushData pop"
| "runOpfunc E fn_opcode1Negate pop = opcode1Negate pop"
| "runOpfunc E fn_opcodeReserved pop = opcodeReserved pop"
| "runOpfunc E fn_opcodeN pop = opcodeN pop"
| "runOpfunc E fn_opcodeNop pop = opcodeNop pop"
| "runOpfunc E fn_opcodeIf pop = opcodeIf pop"
| "runOpfunc E fn_opcodeNotIf pop = opcodeNotIf pop"
| "runOpfunc E fn_opcodeElse pop = opcodeElse pop"
| "runOpfunc E fn_opcodeEndif pop = opcodeEndif pop"
| "runOpfunc E fn_opcodeVerify pop = opcodeVerify pop"
| "runOpfunc E fn_opcodeCheckLockTimeVerify pop = opcodeCheckLockTimeVerify pop"
| "runOpfunc E fn_opcodeToAltStack pop = opcodeToAltStack pop"
| "runOpfunc E fn_opcodeFromAltStack pop = opcodeFromAltStack pop"
| "runOpfunc E fn_opcode2Drop pop = opcode2Drop pop"
| "runOpfunc E fn_opcode2Dup pop = opcode2Dup pop"
| "runOpfunc E fn_opcode3Dup pop = opcode3Dup pop"
| "runOpfunc E fn_opcode2Over pop = opcode2Over pop"
| "runOpfunc E fn_opcode2Rot pop = opcode2Rot pop"
| "runOpfunc E fn_opcode2Swap pop = opcode2Swap pop"
| "runOpfunc E fn_opcodeIfDup pop = opcodeIfDup pop"
| "runOpfunc E fn_opcodeDepth pop = opcodeDepth pop"
| "runOpfunc E fn_opcodeDrop pop = opcodeDrop pop"
| "runOpfunc E fn_opcodeDup pop = opcodeDup pop"
| "runOpfunc E fn_opcodeNip pop = opcodeNip pop"
| "runOpfunc E fn_opcodeOver pop = opcodeOver pop"
| "runOpfunc E fn_opcodePick pop = opcodePick pop"
| "runOpfunc E fn_opcodeRoll pop = opcodeRoll pop"
| "runOpfunc E fn_opcodeRot pop = opcodeRot pop"
| "runOpfunc E fn_opcodeSwap pop = opcodeSwap pop"
| "runOpfunc E fn_opcodeTuck pop = opcodeTuck pop"
| "runOpfunc E fn_opcodeDisabled pop = opcodeDisabled pop"
| "runOpfunc E fn_opcodeSize pop = opcodeSize pop"
| "runOpfunc E fn_opcodeEqual pop = opcodeEqual pop"
| "runOpfunc E fn_opcodeEqualVerify pop = opcodeEqualVerify pop"
| "runOpfunc E fn_opcode1Add pop = opcode1Add pop"
| "runOpfunc E fn_opcode1Sub pop = opcode1Sub pop"
| "runOpfunc E fn_opcodeNegate pop = opcodeNegate pop"
| "runOpfunc E fn_opcodeAbs pop = opcodeAbs pop"
| "runOpfunc E fn_opcodeNot pop = opcodeNot pop"
| "runOpfunc E fn_opcode0NotEqual pop = opcode0NotEqual pop"
| "runOpfunc E fn_opcodeAdd pop = opcodeAdd pop"
| "runOpfunc E fn_opcodeSub pop = opcodeSub pop"
| "runOpfunc E fn_opcodeBoolAnd pop = opcodeBoolAnd pop"
| "runOpfunc E fn_opcodeBoolOr pop = opcodeBoolOr pop"
| "runOpfunc E fn_opcodeNumEqual pop = opcodeNumEqual pop"
| "runOpfunc E fn_opcodeNumEqualVerify pop = opcodeNumEqualVerify pop"
| "runOpfunc E fn_opcodeNumNotEqual pop = opcodeNumNotEqual pop"
| "runOpfunc E fn_opcodeLessThan pop = opcodeLessThan pop"
| "runOpfunc E fn_opcodeGreaterThan pop = opcodeGreaterThan pop"
| "runOpfunc E fn_opcodeLessThanOrEqual pop = opcodeLessThanOrEqual pop"
| "runOpfunc E fn_opcodeGreaterThanOrEqual pop = opcodeGreaterThanOrEqual pop"
| "runOpfunc E fn_opcodeMin pop = opcodeMin pop"
| "runOpfunc E fn_opcodeMax pop = opcodeMax pop"
| "runOpfunc E fn_opcodeWithin pop = opcodeWithin pop"
| "runOpfunc E fn_opcodeRipemd160 pop = opcodeRipemd160 E pop"
| "runOpfunc E fn_opcodeSha1 pop = opcodeSha1 E pop"
| "runOpfunc E fn_opcodeSha256 pop = opcodeSha256 E pop"
| "runOpfunc E fn_opcodeHash160 pop = opcodeHash160 E pop"
| "runOpfunc E fn_opcodeHash256 pop = opcodeHash256 E pop"
| "runOpfunc E fn_opcodeCodeSeparator pop = opcodeCodeSeparator pop"
| "runOpfunc E fn_opcodeCheckSig pop = opcodeCheckSig E pop"
| "runOpfunc E fn_opcodeCheckSigVerify pop = opcodeCheckSigVerify E pop"
| "runOpfunc E fn_opcodeCheckMultiSig pop = opcodeCheckMultiSig E pop"
| "runOpfunc E fn_opcodeCheckMultiSigVerify pop = opcodeCheckMultiSigVerify E pop"
| "runOpfunc E fn_opcodeInvalid pop = opcodeInvalid pop"
| "runOpfunc E fn_opcodeCheckJuryRedeemEqual pop = opcodeCheckJuryRedeemEqual E pop"

definition executeOpcode :: "engine_env \<Rightarrow> parsedOpcode \<Rightarrow> unit vm" where
  "executeOpcode E pop =
     (if isDisabled pop then throwE ErrStackOpDisabled
      else if alwaysIllegal pop then throwE ErrStackReservedOpcode
      else
        bindE (if pvalue pop > OP_16
               then bindE (modifyE (\<lambda>vm. vm\<lparr>numOps := numOps vm + 1\<rparr>)) (\<lambda>_. bindE getE (\<lambda>vm.
                      if numOps vm > MaxOpsPerScript then throwE ErrStackTooManyOperations else returnE ()))
               else if length (pop_data pop) > MaxScriptElementSize then throwE ErrStackElementTooBig
               else returnE ()) (\<lambda>_.
        bindE getE (\<lambda>vm.
        if \<not> isBranchExecuting vm \<and> \<not> isConditional pop then returnE ()
        else
          bindE (if verifyMinimalData (dstack vm) \<and> isBranchExecuting vm \<and> pvalue pop \<ge> 0 \<and> pvalue pop \<le> OP_PUSHDATA4
                 then liftE (checkMinimalDataPush pop) else returnE ()) (\<lambda>_.
          runOpfunc E (opfunc (popcode pop)) pop))))"

end
