(* ===== verification/EngineFrame.thy ===== *)
theory EngineFrame
  imports EngineOps
begin

text \<open>
  What the opcode handlers of \<open>EngineOps\<close> leave alone and how far they can grow the stacks. Every handler
  keeps the scripts, the program counter, the transaction and the flags; none adds more than three items
  to the two stacks together.
\<close>

section \<open>The frame of the stack operations\<close>

definition stack_frame :: "stack \<Rightarrow> stack \<Rightarrow> bool" where
  "stack_frame s t \<longleftrightarrow> verifyMinimalData t = verifyMinimalData s"

interpretation sf: frame_relation stack_frame
  by unfold_locales (simp_all add: stack_frame_def)

lemma nipN_frame: "sf.keeps (nipN i)"
  by (auto simp: sf.keeps_def stack_frame_def nipN_def Let_def)

lemma Peek_frame: "sf.keeps (PeekByteArray i)"
  by (auto simp: sf.keeps_def stack_frame_def PeekByteArray_def Let_def)

lemma Push_frame: "sf.keeps (PushByteArray so)"
  by (simp add: sf.keeps_def stack_frame_def sm_simps)

lemma repeat_frame: "sf.keeps m \<Longrightarrow> sf.keeps (repeatE n m)"
  by (induction n) (simp_all add: sf.keeps_return sf.keeps_bind)

lemma popList_frame: "sf.keeps m \<Longrightarrow> sf.keeps (popListE n m)"
  by (induction n) (simp_all add: sf.keeps_return sf.keeps_bind)

lemmas stack_op_defs = PopByteArray_def PopInt_def PopBool_def PushInt_def PushBool_def NipN_def Tuck_def DropN_def
  DupN_def RotN_def SwapN_def OverN_def PickN_def RollN_def Let_def

lemma stack_ops_frame [frame_intros]:
  "sf.keeps PopByteArray" "sf.keeps PopInt" "sf.keeps PopBool" "sf.keeps (PushByteArray so)" "sf.keeps (PushInt v)"
  "sf.keeps (PushBool b)" "sf.keeps (PeekByteArray i)" "sf.keeps (NipN i)" "sf.keeps Tuck" "sf.keeps (DropN i)"
  "sf.keeps (DupN i)" "sf.keeps (RotN i)" "sf.keeps (SwapN i)" "sf.keeps (OverN i)" "sf.keeps (PickN i)" "sf.keeps (RollN i)"
  unfolding stack_op_defs
  by (intro sf.keeps_intros nipN_frame Peek_frame Push_frame repeat_frame)+

lemma popList_ops_frame [frame_intros]: "sf.keeps (popListE n PopByteArray)"
  by (intro popList_frame frame_intros)

section \<open>The frame of the handlers\<close>

definition frame_of :: "engine \<Rightarrow> transaction \<times> parsedOpcode list list \<times> bytes list \<times> nat \<times> nat \<times> int \<times> int
    \<times> uint32 \<times> bool \<times> bool \<times> bool \<times> bool" where
  "frame_of vm = (etx vm, scripts vm, savedFirstStack vm, scriptIdx vm, scriptOff vm, msgIdx vm, txIdx vm, flags vm,
     bip16 vm, p2ch vm, verifyMinimalData (dstack vm), verifyMinimalData (astack vm))"

definition engine_frame :: "engine \<Rightarrow> engine \<Rightarrow> bool" where
  "engine_frame vm vm' \<longleftrightarrow> frame_of vm' = frame_of vm"

interpretation ef: frame_relation engine_frame
  by unfold_locales (simp_all add: engine_frame_def)

lemma engine_frameD:
  assumes "engine_frame vm vm'"
  shows "etx vm' = etx vm" "scripts vm' = scripts vm" "savedFirstStack vm' = savedFirstStack vm"
    "scriptIdx vm' = scriptIdx vm" "scriptOff vm' = scriptOff vm" "msgIdx vm' = msgIdx vm" "txIdx vm' = txIdx vm"
    "flags vm' = flags vm" "bip16 vm' = bip16 vm" "p2ch vm' = p2ch vm"
    "verifyMinimalData (dstack vm') = verifyMinimalData (dstack vm)"
    "verifyMinimalData (astack vm') = verifyMinimalData (astack vm)"
  using assms by (simp_all add: engine_frame_def frame_of_def)

lemma on_stack_frame: "sf.keeps m \<Longrightarrow> ef.keeps (on_dstack m)" "sf.keeps m \<Longrightarrow> ef.keeps (on_astack m)"
  by (simp_all add: sf.keeps_def ef.keeps_def engine_frame_def frame_of_def on_dstack_def on_astack_def stack_frame_def case_prod_beta)

lemma verifySig_frame: "ef.keeps (verifySig E pk sig data)"
  by (auto simp: ef.keeps_def verifySig_def engine_frame_def frame_of_def Let_def split: option.splits)

lemma modify_frame:
  "engine_frame vm (vm\<lparr>condStack := cs\<rparr>)" "engine_frame vm (vm\<lparr>numOps := n\<rparr>)" "engine_frame vm (vm\<lparr>lastCodeSep := k\<rparr>)"
  by (simp_all add: engine_frame_def frame_of_def)

lemmas engine_frames = ef.keeps_intros on_stack_frame verifySig_frame modify_frame stack_ops_frame popList_ops_frame

lemma multiSigLoop_frame: "ef.keeps (multiSigLoop E script sigs keys)"
  by (induction E script sigs keys rule: multiSigLoop.induct) (simp_all add: Let_def engine_frames)

lemmas plain_handler_defs = opcodeDisabled_def opcodeReserved_def opcodeInvalid_def opcodeFalse_def opcodePushData_def opcode1Negate_def
  opcodeN_def opcodeNop_def opcodeIf_def opcodeNotIf_def opcodeElse_def opcodeEndif_def opcodeVerify_def
  opcodeCheckLockTimeVerify_def opcodeToAltStack_def opcodeFromAltStack_def opcode2Drop_def opcode2Dup_def opcode3Dup_def
  opcode2Over_def opcode2Rot_def opcode2Swap_def opcodeIfDup_def opcodeDepth_def opcodeDrop_def opcodeDup_def opcodeNip_def
  opcodeOver_def opcodePick_def opcodeRoll_def opcodeRot_def opcodeSwap_def opcodeTuck_def opcodeSize_def opcodeEqual_def
  opcodeEqualVerify_def opcode1Add_def opcode1Sub_def opcodeNegate_def opcodeAbs_def opcodeNot_def opcode0NotEqual_def
  opcodeAdd_def opcodeSub_def opcodeBoolAnd_def opcodeBoolOr_def opcodeNumEqual_def opcodeNumEqualVerify_def
  opcodeNumNotEqual_def opcodeLessThan_def opcodeGreaterThan_def opcodeLessThanOrEqual_def opcodeGreaterThanOrEqual_def
  opcodeMin_def opcodeMax_def opcodeWithin_def opcodeRipemd160_def opcodeSha1_def opcodeSha256_def opcodeHash160_def
  opcodeHash256_def opcodeCodeSeparator_def
  opcodeCheckJuryRedeemEqual_def numOp1_def numOp2_def hashOp_def Let_def

lemmas handler_defs = plain_handler_defs opcodeCheckSig_def opcodeCheckSigVerify_def opcodeCheckMultiSig_def
  opcodeCheckMultiSigVerify_def

lemma runOpfunc_frame: "ef.keeps (runOpfunc E f pop)"
  by (cases f) (simp_all add: handler_defs engine_frames multiSigLoop_frame)

lemma executeOpcode_frame: "ef.keeps (executeOpcode E pop)"
  unfolding executeOpcode_def by (intro engine_frames runOpfunc_frame)

lemma executeOpcode_keeps:
  assumes "executeOpcode E pop vm = (r, vm')"
  shows "engine_frame vm vm'"
  using executeOpcode_frame assms by (rule ef.keepsD)

end
