(* ===== verification/EngineExec.thy ===== *)
theory EngineExec
  imports EngineFrame
begin

text \<open>
  The run of the script engine: \<open>Step\<close>, \<open>Execute\<close> and \<open>NewEngine\<close> of
  \<open>src/tokenengine/internal/txscript/engine.go\<close>. \<open>Execute\<close> is a total function: every step that does not
  end the run moves the program counter forward, through at most one script more than the engine started with.
\<close>

section \<open>Model\<close>

text \<open>The end of the second script of a pay-to-script-hash pair: the script it pushed is run next.\<close>

definition enterRedeem :: "unit vm" where
  "enterRedeem = bindE (CheckErrorCondition False) (\<lambda>_ vm.
     if length (savedFirstStack vm) = 0 then (Inl GoPanic, vm)
     else
       (let script = last (savedFirstStack vm)
        in case parseScript script of
             (_, Some e) \<Rightarrow> (Inl e, vm)
           | (pops, None) \<Rightarrow>
               (Inr (), SetStack (butlast (savedFirstStack vm)) (vm\<lparr>scripts := scripts vm @ [pops]\<rparr>))))"

definition nextScript :: "unit vm" where
  "nextScript vm =
     (if scriptIdx vm = 0 \<and> (bip16 vm \<or> p2ch vm)
      then (Inr (), vm\<lparr>scriptIdx := Suc (scriptIdx vm), savedFirstStack := GetStack vm\<rparr>)
      else if scriptIdx vm = 1 \<and> (bip16 vm \<or> p2ch vm)
      then enterRedeem (vm\<lparr>scriptIdx := Suc (scriptIdx vm)\<rparr>)
      else (Inr (), vm\<lparr>scriptIdx := Suc (scriptIdx vm)\<rparr>))"

definition skipEmpty :: "engine \<Rightarrow> engine" where
  "skipEmpty vm =
     (if scriptIdx vm < length (scripts vm) \<and> scriptOff vm \<ge> length (scripts vm ! scriptIdx vm)
      then vm\<lparr>scriptIdx := Suc (scriptIdx vm)\<rparr> else vm)"

definition endScript :: "bool vm" where
  "endScript vm =
     (if length (condStack vm) \<noteq> 0 then (Inl ErrStackMissingEndif, vm)
      else
        bindE nextScript (\<lambda>_. bindE (modifyE (\<lambda>vm. (skipEmpty vm)\<lparr>lastCodeSep := 0\<rparr>)) (\<lambda>_.
          bindE getE (\<lambda>vm. returnE (scriptIdx vm \<ge> length (scripts vm)))))
        (vm\<lparr>astack := snd (DropN (Depth (astack vm)) (astack vm)), numOps := 0, scriptOff := 0\<rparr>))"

definition Step :: "engine_env \<Rightarrow> bool vm" where
  "Step E = bindE getE (\<lambda>vm.
     bindE (liftE (validPC vm)) (\<lambda>_.
     bindE (executeOpcode E (scripts vm ! scriptIdx vm ! scriptOff vm)) (\<lambda>_.
     bindE getE (\<lambda>vm.
     if Depth (dstack vm) + Depth (astack vm) > maxStackSize then throwE ErrStackOverflow
     else
       bindE (modifyE (\<lambda>vm. vm\<lparr>scriptOff := Suc (scriptOff vm)\<rparr>)) (\<lambda>_.
       bindE getE (\<lambda>vm.
       if scriptOff vm \<ge> length (scripts vm ! scriptIdx vm) then endScript else returnE False))))))"

section \<open>Progress of a step\<close>

text \<open>
  The number of scripts that may still be started, and the opcodes left in the current one, decrease
  lexicographically.
\<close>

definition scriptsLeft :: "engine \<Rightarrow> nat" where
  "scriptsLeft vm = length (scripts vm) + (if scriptIdx vm \<le> 1 then 1 else 0) - scriptIdx vm"

definition opsLeft :: "engine \<Rightarrow> nat" where
  "opsLeft vm = length (scripts vm ! scriptIdx vm) - scriptOff vm"

lemma CheckErrorCondition_frame: "ef.keeps (CheckErrorCondition b)"
proof (rule ef.keepsI)
  fix vm
  have "ef.keeps (bindE (on_dstack PopBool) (\<lambda>v. if v = False then throwE ErrStackScriptFailed else returnE ()))"
    by (intro engine_frames)
  then have "engine_frame vm (snd (bindE (on_dstack PopBool) (\<lambda>v. if v = False then throwE ErrStackScriptFailed else returnE ()) vm))"
    by (simp add: ef.keeps_def)
  then show "engine_frame vm (snd (CheckErrorCondition b vm))"
    by (simp add: CheckErrorCondition_def ef.R_refl)
qed

lemma SetStack_fields [simp]:
  "scripts (SetStack d vm) = scripts vm" "scriptIdx (SetStack d vm) = scriptIdx vm" "scriptOff (SetStack d vm) = scriptOff vm"
  "bip16 (SetStack d vm) = bip16 vm" "p2ch (SetStack d vm) = p2ch vm" "condStack (SetStack d vm) = condStack vm"
  "flags (SetStack d vm) = flags vm" "numOps (SetStack d vm) = numOps vm" "astack (SetStack d vm) = astack vm"
  "savedFirstStack (SetStack d vm) = savedFirstStack vm" "lastCodeSep (SetStack d vm) = lastCodeSep vm"
  "etx (SetStack d vm) = etx vm" "msgIdx (SetStack d vm) = msgIdx vm" "txIdx (SetStack d vm) = txIdx vm"
  "sigCache (SetStack d vm) = sigCache vm"
  by (simp_all add: SetStack_def)

lemma enterRedeemE:
  assumes "enterRedeem vm = (Inr u, vm')"
  obtains vm1 pops where "CheckErrorCondition False vm = (Inr (), vm1)" and "engine_frame vm vm1"
    and "savedFirstStack vm \<noteq> []" and "parseScript (last (savedFirstStack vm)) = (pops, None)"
    and "vm' = SetStack (butlast (savedFirstStack vm)) (vm1\<lparr>scripts := scripts vm @ [pops]\<rparr>)"
proof -
  obtain vm1 where c: "CheckErrorCondition False vm = (Inr (), vm1)"
    using assms unfolding enterRedeem_def by (auto elim: bindE_InrE)
  have f: "engine_frame vm vm1"
    by (rule ef.keepsD [OF CheckErrorCondition_frame c])
  note fs = engine_frameD [OF f]
  show thesis
    using assms c f that [OF c f] by (auto simp: enterRedeem_def sm_simps fs Let_def split: if_splits prod.splits option.splits)
qed

lemma StepE:
  assumes "Step E vm = (Inr fin, vm')"
  obtains vm1 where "scriptIdx vm < length (scripts vm)" and "scriptOff vm < length (scripts vm ! scriptIdx vm)"
    and "executeOpcode E (scripts vm ! scriptIdx vm ! scriptOff vm) vm = (Inr (), vm1)" and "engine_frame vm vm1"
    and "Depth (dstack vm1) + Depth (astack vm1) \<le> maxStackSize"
    and "if Suc (scriptOff vm) < length (scripts vm ! scriptIdx vm)
         then \<not> fin \<and> vm' = vm1\<lparr>scriptOff := Suc (scriptOff vm)\<rparr>
         else endScript (vm1\<lparr>scriptOff := Suc (scriptOff vm)\<rparr>) = (Inr fin, vm')"
proof -
  have pc: "scriptIdx vm < length (scripts vm)" "scriptOff vm < length (scripts vm ! scriptIdx vm)"
    using assms by (auto simp: Step_def sm_simps validPC_def split: if_splits)
  obtain vm1 where ex: "executeOpcode E (scripts vm ! scriptIdx vm ! scriptOff vm) vm = (Inr (), vm1)"
    using assms pc by (auto simp: Step_def sm_simps validPC_def split: prod.splits sum.splits)
  have f: "engine_frame vm vm1"
    by (rule executeOpcode_keeps [OF ex])
  note fs = engine_frameD [OF f]
  show thesis
    using assms pc ex by (intro that [OF pc ex f]) (auto simp: Step_def sm_simps validPC_def fs split: if_splits)
qed

lemma nextScript_progress:
  assumes "nextScript vm = (Inr u, vm')"
  shows "scriptIdx vm' = Suc (scriptIdx vm)" and "scriptOff vm' = scriptOff vm"
    and "scriptIdx vm < length (scripts vm) \<Longrightarrow> scriptsLeft vm' < scriptsLeft vm"
    and "bip16 vm' = bip16 vm" and "p2ch vm' = p2ch vm"
proof -
  consider "\<not> (scriptIdx vm = 1 \<and> (bip16 vm \<or> p2ch vm))" | "scriptIdx vm = 1" "bip16 vm \<or> p2ch vm"
    by blast
  then have "scriptIdx vm' = Suc (scriptIdx vm) \<and> scriptOff vm' = scriptOff vm \<and> bip16 vm' = bip16 vm \<and> p2ch vm' = p2ch vm
      \<and> (scriptIdx vm < length (scripts vm) \<longrightarrow> scriptsLeft vm' < scriptsLeft vm)"
  proof cases
    case 1
    then show ?thesis
      using assms by (auto simp: nextScript_def scriptsLeft_def split: if_splits)
  next
    case 2
    let ?vm = "vm\<lparr>scriptIdx := Suc (scriptIdx vm)\<rparr>"
    have "enterRedeem ?vm = (Inr u, vm')"
      using assms 2 by (auto simp: nextScript_def)
    then obtain vm1 pops where f: "engine_frame ?vm vm1"
      and vm': "vm' = SetStack (butlast (savedFirstStack ?vm)) (vm1\<lparr>scripts := scripts ?vm @ [pops]\<rparr>)"
      by (rule enterRedeemE)
    show ?thesis
      using engine_frameD [OF f] 2 by (auto simp: vm' scriptsLeft_def)
  qed
  then show "scriptIdx vm' = Suc (scriptIdx vm)" "scriptOff vm' = scriptOff vm" "bip16 vm' = bip16 vm" "p2ch vm' = p2ch vm"
    "scriptIdx vm < length (scripts vm) \<Longrightarrow> scriptsLeft vm' < scriptsLeft vm"
    by simp_all
qed

lemma skipEmpty_left: "scriptsLeft (skipEmpty vm) \<le> scriptsLeft vm"
  by (auto simp: skipEmpty_def scriptsLeft_def)

lemma endScriptE:
  assumes "endScript vm = (Inr fin, vm')"
  obtains vm1 where "condStack vm = []"
    and "nextScript (vm\<lparr>astack := snd (DropN (Depth (astack vm)) (astack vm)), numOps := 0, scriptOff := 0\<rparr>) = (Inr (), vm1)"
    and "vm' = (skipEmpty vm1)\<lparr>lastCodeSep := 0\<rparr>" and "fin \<longleftrightarrow> scriptIdx vm' \<ge> length (scripts vm')"
  using assms by (auto simp: endScript_def sm_simps split: if_splits prod.splits sum.splits)

lemma endScript_progress:
  assumes "endScript vm = (Inr fin, vm')" and "scriptIdx vm < length (scripts vm)"
  shows "scriptsLeft vm' < scriptsLeft vm"
proof -
  obtain vm1 where n: "nextScript (vm\<lparr>astack := snd (DropN (Depth (astack vm)) (astack vm)), numOps := 0, scriptOff := 0\<rparr>) = (Inr (), vm1)"
    and vm': "vm' = (skipEmpty vm1)\<lparr>lastCodeSep := 0\<rparr>"
    using assms(1) by (rule endScriptE)
  have "scriptsLeft vm' = scriptsLeft (skipEmpty vm1)"
    by (simp add: vm' scriptsLeft_def)
  also have "\<dots> \<le> scriptsLeft vm1"
    by (rule skipEmpty_left)
  also have "\<dots> < scriptsLeft vm"
    using nextScript_progress(3) [OF n] assms(2) by (simp add: scriptsLeft_def)
  finally show ?thesis .
qed

lemma Step_progress:
  assumes "Step E vm = (Inr fin, vm')"
  shows "scriptsLeft vm' < scriptsLeft vm \<or> scriptsLeft vm' = scriptsLeft vm \<and> opsLeft vm' < opsLeft vm"
  using assms
proof (rule StepE)
  fix vm1
  assume pc: "scriptIdx vm < length (scripts vm)" "scriptOff vm < length (scripts vm ! scriptIdx vm)"
    and f: "engine_frame vm vm1"
    and r: "if Suc (scriptOff vm) < length (scripts vm ! scriptIdx vm)
         then \<not> fin \<and> vm' = vm1\<lparr>scriptOff := Suc (scriptOff vm)\<rparr>
         else endScript (vm1\<lparr>scriptOff := Suc (scriptOff vm)\<rparr>) = (Inr fin, vm')"
  note fs = engine_frameD [OF f]
  show ?thesis
  proof (cases "Suc (scriptOff vm) < length (scripts vm ! scriptIdx vm)")
    case True
    then show ?thesis
      using r pc by (auto simp: scriptsLeft_def opsLeft_def fs)
  next
    case False
    then show ?thesis
      using r pc endScript_progress [of "vm1\<lparr>scriptOff := Suc (scriptOff vm)\<rparr>" fin vm'] by (simp add: scriptsLeft_def fs)
  qed
qed

function Execute :: "engine_env \<Rightarrow> unit vm" where
  "Execute E vm =
     (case Step E vm of
        (Inl err, vm') \<Rightarrow> (Inl err, vm')
      | (Inr fin, vm') \<Rightarrow> if fin then CheckErrorCondition True vm' else Execute E vm')"
  by pat_completeness auto
termination
  by (relation "inv_image (less_than <*lex*> less_than) (\<lambda>(E, vm). (scriptsLeft vm, opsLeft vm))")
    (use Step_progress in \<open>fastforce simp: eq_commute\<close>)+

declare Execute.simps [simp del]

text \<open>
  The engine for the input \<open>txIdx\<close> of the message \<open>msgIdx\<close>. A message index out of range and a message that
  is not a payment panic.
\<close>

definition parseLimited :: "bytes \<Rightarrow> script_error + parsedOpcode list" where
  "parseLimited scr =
     (if length scr > maxScriptSize then Inl ErrStackLongScript
      else case parseScript scr of (_, Some e) \<Rightarrow> Inl e | (pops, None) \<Rightarrow> Inr pops)"

definition NewEngine :: "bytes \<Rightarrow> transaction \<Rightarrow> int \<Rightarrow> int \<Rightarrow> uint32 \<Rightarrow> sig_cache option \<Rightarrow> script_error + engine" where
  "NewEngine scriptPubKey tx msgIndex txIndex fl cache =
     bindS (paymentOf tx msgIndex) (\<lambda>pay.
     if txIndex < 0 \<or> txIndex \<ge> int (length (Inputs pay)) then Inl ErrInvalidIndex
     else
       (let scriptSig = SignatureScript (Inputs pay ! nat txIndex);
            has = (\<lambda>flag. fl AND flag = flag);
            st = \<lparr>stk = [], verifyMinimalData = has ScriptVerifyMinimalData\<rparr>
        in if has ScriptVerifyCleanStack \<and> \<not> has ScriptBip16 then Inl ErrInvalidFlags
           else if has ScriptVerifySigPushOnly \<and> \<not> IsPushOnlyScript scriptSig then Inl ErrStackNonPushOnly
           else
             bindS (parseLimited scriptSig) (\<lambda>sigPops.
             bindS (parseLimited scriptPubKey) (\<lambda>pkPops.
             if has ScriptBip16 \<and> isScriptHash pkPops \<and> \<not> isPushOnly sigPops then Inl ErrStackP2SHNonPushOnly
             else if isContractHash pkPops \<and> \<not> isPushOnly sigPops then Inl ErrStackP2CHNonPushOnly
             else Inr \<lparr>etx = tx, dstack = st, astack = st, scripts = [sigPops, pkPops], condStack = [], savedFirstStack = [],
               scriptIdx = (if length scriptSig = 0 then 1 else 0), scriptOff = 0, lastCodeSep = 0,
               msgIdx = msgIndex, txIdx = txIndex, numOps = 0, sigCache = cache, flags = fl,
               bip16 = has ScriptBip16 \<and> isScriptHash pkPops, p2ch = isContractHash pkPops\<rparr>))))"

end
