(* ===== verification/EngineRun.thy ===== *)
theory EngineRun
  imports EngineExec
begin

text \<open>
  A compositional account of the engine's loop. \<open>runOps\<close> runs a list of opcodes with the checks of \<open>Step\<close>,
  and \<open>Execute\<close> is one such run per script. Push opcodes and the opcodes of the standard scripts are
  evaluated once and for all here.
\<close>

section \<open>Running the opcodes of one script\<close>

fun runOps :: "engine_env \<Rightarrow> parsedOpcode list \<Rightarrow> unit vm" where
  "runOps E [] = returnE ()"
| "runOps E (pop # pops) =
     bindE (executeOpcode E pop) (\<lambda>_. bindE getE (\<lambda>vm.
     if Depth (dstack vm) + Depth (astack vm) > maxStackSize then throwE ErrStackOverflow
     else bindE (modifyE (\<lambda>vm. vm\<lparr>scriptOff := Suc (scriptOff vm)\<rparr>)) (\<lambda>_. runOps E pops)))"

definition finishRun :: "engine_env \<Rightarrow> unit vm" where
  "finishRun E = bindE endScript (\<lambda>fin. if fin then CheckErrorCondition True else Execute E)"

lemma Step_eq:
  assumes "scriptIdx vm < length (scripts vm)" and "drop (scriptOff vm) (scripts vm ! scriptIdx vm) = pop # pops"
  shows "Step E vm =
    bindE (executeOpcode E pop) (\<lambda>_. bindE getE (\<lambda>vm.
      if Depth (dstack vm) + Depth (astack vm) > maxStackSize then throwE ErrStackOverflow
      else bindE (modifyE (\<lambda>vm. vm\<lparr>scriptOff := Suc (scriptOff vm)\<rparr>)) (\<lambda>_.
        if pops = [] then endScript else returnE False))) vm"
proof -
  have off: "scriptOff vm < length (scripts vm ! scriptIdx vm)"
    using assms(2) by (metis drop_eq_Nil2 list.discI not_le)
  then have pop: "scripts vm ! scriptIdx vm ! scriptOff vm = pop"
    and pops: "pops = drop (Suc (scriptOff vm)) (scripts vm ! scriptIdx vm)"
    using assms(2) Cons_nth_drop_Suc [OF off] by simp_all
  obtain r vm1 where ex: "executeOpcode E pop vm = (r, vm1)"
    by (cases "executeOpcode E pop vm")
  note fs = engine_frameD [OF executeOpcode_keeps [OF ex]]
  show ?thesis
    using assms(1) off by (cases r) (simp_all add: Step_def sm_simps validPC_def pop pops ex fs)
qed

theorem Execute_runOps:
  assumes "scriptIdx vm < length (scripts vm)" and "scriptOff vm < length (scripts vm ! scriptIdx vm)"
  shows "Execute E vm = bindE (runOps E (drop (scriptOff vm) (scripts vm ! scriptIdx vm))) (\<lambda>_. finishRun E) vm"
proof -
  have "drop (scriptOff vm) (scripts vm ! scriptIdx vm) = pops \<Longrightarrow> pops \<noteq> [] \<Longrightarrow> scriptIdx vm < length (scripts vm) \<Longrightarrow>
      Execute E vm = bindE (runOps E pops) (\<lambda>_. finishRun E) vm" for pops
  proof (induction pops arbitrary: vm)
    case (Cons pop pops)
    obtain r vm1 where ex: "executeOpcode E pop vm = (r, vm1)"
      by (cases "executeOpcode E pop vm")
    note fs = engine_frameD [OF executeOpcode_keeps [OF ex]]
    let ?vm = "vm1\<lparr>scriptOff := Suc (scriptOff vm)\<rparr>"
    have drop: "drop (scriptOff ?vm) (scripts ?vm ! scriptIdx ?vm) = pops"
      using Cons.prems(1) by (simp add: fs) (metis drop_Suc list.sel(3) tl_drop)
    show ?case
    proof (cases "pops = []")
      case True
      then show ?thesis
        using Step_eq [OF Cons.prems(3,1)]
        by (cases r) (simp_all add: Execute.simps [of E vm] sm_simps ex fs finishRun_def split: prod.splits sum.splits)
    next
      case False
      then have "Execute E ?vm = bindE (runOps E pops) (\<lambda>_. finishRun E) ?vm"
        using drop Cons.prems(3) by (intro Cons.IH) (simp_all add: fs)
      then show ?thesis
        using Step_eq [OF Cons.prems(3,1)] False
        by (cases r) (simp_all add: Execute.simps [of E vm] sm_simps ex fs)
    qed
  qed simp
  then show ?thesis
    using assms by simp
qed

section \<open>Push opcodes\<close>

abbreviation pushed :: "bytes \<Rightarrow> engine \<Rightarrow> engine" where
  "pushed x vm \<equiv> vm\<lparr>dstack := (dstack vm)\<lparr>stk := stk (dstack vm) @ [x]\<rparr>\<rparr>"

lemma push_apply [sm_simps]: "on_dstack (PushByteArray x) vm = (Inr (), pushed x vm)"
  by (simp add: on_dstack_def sm_simps)

lemma pushBool_apply [sm_simps]: "on_dstack (PushBool b) vm = (Inr (), pushed (fromBool b) vm)"
  by (simp add: on_dstack_def sm_simps)

lemma scriptNum_Bytes_small:
  assumes "1 \<le> n" and "n \<le> 16"
  shows "scriptNum_Bytes n = Inr [word_of_int n]"
proof -
  have LE: "scriptNumLE n = [word_of_int n]"
    using assms by (simp add: scriptNumLE_pos)
  have "word_of_int n AND (0x80 :: byte) = 0"
  proof -
    have "\<not> 128 \<le> uint (word_of_int n :: byte)"
      using assms by (simp add: uint_word_of_int)
    then show ?thesis
      using byte_high_bit [of "word_of_int n"] by simp
  qed
  then show ?thesis
    using assms by (simp add: scriptNum_Bytes_def Let_def LE)
qed

lemma runOpfunc_pushPop:
  "runOpfunc E (opfunc (popcode (pushPop data))) (pushPop data) vm = (Inr (), pushed (if data = [0] then [] else data) vm)"
proof (cases rule: push_cases [of data])
  case (small d)
  have u: "uint (0x50 + d - 0x50) = uint d" "1 \<le> uint d" "uint d \<le> 16"
    using small by (simp_all add: word_le_def)
  then have "scriptNum_Bytes (uint d) = Inr [d]"
    by (simp add: scriptNum_Bytes_small)
  then show ?thesis
    using small small_byte [of d] u
    by (simp add: pushPop_def opfunc_small_int opcodeN_def on_dstack_def PushInt_def sm_simps)
next
  case neg
  have "scriptNum_Bytes (-1) = Inr [0x81]"
    by (simp add: scriptNum_Bytes_def i64_def Let_def scriptNumLE_pos)
  then show ?thesis
    using neg by (simp add: pushPop_def opcode1Negate_def on_dstack_def PushInt_def sm_simps)
next
  case direct
  then have "opfunc (opcodeAt (word_of_nat (length data))) = fn_opcodePushData"
    using direct_opcode [of "length data"] by (intro opfunc_push) (auto simp: word_le_nat_alt)
  then show ?thesis
    using direct by (simp add: pushPop_direct opcodePushData_def sm_simps pop_data_def)
qed (auto simp: pushPop_def opcodeFalse_def opcodePushData_def sm_simps pop_data_def)

lemma push_not_disabled:
  assumes "pvalue pop \<le> OP_16"
  shows "\<not> isDisabled pop" "\<not> alwaysIllegal pop" "\<not> isConditional pop"
  using assms by (auto simp: isDisabled_def alwaysIllegal_def isConditional_def)

lemma executeOpcode_pushPop:
  assumes "length data \<le> MaxScriptElementSize" and "condStack vm = []"
  shows "executeOpcode E (pushPop data) vm = (Inr (), pushed (if data = [0] then [] else data) vm)"
proof -
  have v: "pvalue (pushPop data) \<le> OP_16"
    using pushPop_push_opcode [of data] by simp
  have "length (pop_data (pushPop data)) \<le> MaxScriptElementSize"
    using assms(1) by (simp add: pushPop_def pop_data_def)
  then show ?thesis
    using v push_not_disabled [OF v] pushPop_minimal [of data] assms(2)
    by (simp add: executeOpcode_def sm_simps isBranchExecuting_def runOpfunc_pushPop not_less)
qed

text \<open>A script of pushes puts its data on the stack.\<close>

definition pushItem :: "bytes \<Rightarrow> bytes" where
  "pushItem data = (if data = [0] then [] else data)"

lemma runOps_pushes:
  assumes "list_all (\<lambda>d. length d \<le> MaxScriptElementSize) ds" and "condStack vm = []"
    and "length (stk (dstack vm)) + length (stk (astack vm)) + length ds \<le> 1000"
  shows "runOps E (map pushPop ds) vm =
    (Inr (), vm\<lparr>dstack := (dstack vm)\<lparr>stk := stk (dstack vm) @ map pushItem ds\<rparr>, scriptOff := scriptOff vm + length ds\<rparr>)"
  using assms
proof (induction ds arbitrary: vm)
  case Nil
  then show ?case by (simp add: sm_simps)
next
  case (Cons d ds)
  let ?vm = "(pushed (pushItem d) vm)\<lparr>scriptOff := Suc (scriptOff vm)\<rparr>"
  have "Depth (dstack (pushed (pushItem d) vm)) + Depth (astack vm) \<le> 1000"
    using Cons.prems by (simp add: Depth_eq)
  then show ?case
    using Cons.prems Cons.IH [of ?vm] by (simp add: sm_simps executeOpcode_pushPop flip: pushItem_def)
qed

section \<open>Opcodes of the standard scripts\<close>

lemma executeOpcode_op:
  assumes "condStack vm = []" and "OP_16 < op" and "op \<noteq> OP_VERIF" and "op \<noteq> OP_VERNOTIF"
    and "\<not> isDisabled \<lparr>popcode = opcodeAt op, pdata = None\<rparr>"
  shows "executeOpcode E \<lparr>popcode = opcodeAt op, pdata = None\<rparr> vm =
    (if numOps vm + 1 > MaxOpsPerScript then (Inl ErrStackTooManyOperations, vm\<lparr>numOps := numOps vm + 1\<rparr>)
     else runOpfunc E (opfunc (opcodeAt op)) \<lparr>popcode = opcodeAt op, pdata = None\<rparr> (vm\<lparr>numOps := numOps vm + 1\<rparr>))"
proof -
  have "\<not> (op \<le> OP_PUSHDATA4)"
    using assms(2) by (auto simp: byte_arith)
  then show ?thesis
    using assms by (simp add: executeOpcode_def sm_simps isBranchExecuting_def alwaysIllegal_def)
qed

lemma pop_apply:
  "length xs < 2 ^ 31 - 1 \<Longrightarrow> stk (dstack vm) = xs @ [x] \<Longrightarrow>
   on_dstack PopByteArray vm = (Inr x, vm\<lparr>dstack := (dstack vm)\<lparr>stk := xs\<rparr>\<rparr>)"
  using PopByteArray_snoc [of "dstack vm" xs x] by (simp add: on_dstack_def)

lemma popBool_apply:
  "length xs < 2 ^ 31 - 1 \<Longrightarrow> stk (dstack vm) = xs @ [x] \<Longrightarrow>
   on_dstack PopBool vm = (Inr (asBool x), vm\<lparr>dstack := (dstack vm)\<lparr>stk := xs\<rparr>\<rparr>)"
  using PopByteArray_snoc [of "dstack vm" xs x] by (simp add: on_dstack_def PopBool_def sm_simps)

lemma opcodeDup_apply:
  assumes "length xs < 2 ^ 31 - 2" and "stk (dstack vm) = xs @ [x]"
  shows "opcodeDup pop vm = (Inr (), pushed x vm)"
  using DupN_spec [of xs "[x]" "dstack vm"] assms by (simp add: opcodeDup_def on_dstack_def)

lemma opcodeHash160_apply:
  assumes "length xs < 2 ^ 31 - 1" and "stk (dstack vm) = xs @ [x]"
  shows "opcodeHash160 E pop vm = (Inr (), vm\<lparr>dstack := (dstack vm)\<lparr>stk := xs @ [Hash160 (envHash E) x]\<rparr>\<rparr>)"
  using pop_apply [OF assms] by (simp add: opcodeHash160_def hashOp_def sm_simps)

lemma opcodeEqual_apply:
  assumes "length xs < 2 ^ 31 - 2" and "stk (dstack vm) = xs @ [b, a]"
  shows "opcodeEqual pop vm = (Inr (), vm\<lparr>dstack := (dstack vm)\<lparr>stk := xs @ [fromBool (a = b)]\<rparr>\<rparr>)"
  using pop_apply [of "xs @ [b]" vm a] pop_apply [of xs "vm\<lparr>dstack := (dstack vm)\<lparr>stk := xs @ [b]\<rparr>\<rparr>" b] assms
  by (simp add: opcodeEqual_def sm_simps)

lemma asBool_fromBool [simp]: "asBool (fromBool b) = b"
  by (simp add: fromBool_def)

lemma opcodeEqualVerify_apply:
  assumes "length xs < 2 ^ 31 - 2" and "stk (dstack vm) = xs @ [b, a]"
  shows "opcodeEqualVerify pop vm =
    (if a = b then Inr () else Inl ErrStackVerifyFailed, vm\<lparr>dstack := (dstack vm)\<lparr>stk := xs\<rparr>\<rparr>)"
  using popBool_apply [of xs "vm\<lparr>dstack := (dstack vm)\<lparr>stk := xs @ [fromBool (a = b)]\<rparr>\<rparr>" "fromBool (a = b)"] assms
  by (simp add: opcodeEqualVerify_def opcodeEqual_apply opcodeVerify_def sm_simps)

section \<open>Reading, replacing and clearing a stack\<close>

lemma drop_all: "small s \<Longrightarrow> snd (DropN (Depth s) s) = s\<lparr>stk := []\<rparr>"
  using DropN_spec [of s "[]" "stk s"] by (cases "stk s = []") (simp_all add: Depth_eq DropN_def sm_simps)

lemma pushAll_apply: "pushAll d s = (Inr (), s\<lparr>stk := stk s @ d\<rparr>)"
  by (induction d arbitrary: s) (simp_all add: sm_simps)

lemma setStack_eq: "small s \<Longrightarrow> setStack s d = s\<lparr>stk := d\<rparr>"
  by (simp add: setStack_def drop_all pushAll_apply)

lemma getStack_eq:
  assumes "small s"
  shows "getStack s = stk s"
proof (rule nth_equalityI)
  show len: "length (getStack s) = length (stk s)"
    using assms by (simp add: getStack_def Depth_eq)
  fix i
  assume "i < length (getStack s)"
  then have i: "i < length (stk s)"
    using len by simp
  define j where "j = length (stk s) - Suc i"
  have split: "stk s = take i (stk s) @ stk s ! i # drop (Suc i) (stk s)"
    using i by (rule id_take_nth_drop)
  have "PeekByteArray (int j) s = (Inr (stk s ! i), s)"
    using PeekByteArray_split [OF assms split] by (simp add: j_def)
  moreover have "getStack s ! i = (case fst (PeekByteArray (int j) s) of Inl e \<Rightarrow> [] | Inr so \<Rightarrow> so)"
    using assms i by (simp add: getStack_def Depth_eq rev_nth j_def)
  ultimately show "getStack s ! i = stk s ! i"
    by simp
qed

text \<open>An engine as \<open>NewEngine\<close> makes it for a signature script that is not empty.\<close>

definition fresh :: "engine \<Rightarrow> bool" where
  "fresh vm \<longleftrightarrow> stk (dstack vm) = [] \<and> stk (astack vm) = [] \<and> condStack vm = [] \<and> scriptIdx vm = 0 \<and> scriptOff vm = 0
     \<and> lastCodeSep vm = 0 \<and> numOps vm = 0"

section \<open>The verdict on a signature\<close>

text \<open>The verdict is the one of the crypto provider, or yes if the cache remembers one.\<close>

definition sigVerdict :: "engine_env \<Rightarrow> sig_cache option \<Rightarrow> bytes \<Rightarrow> bytes \<Rightarrow> bytes \<Rightarrow> bool" where
  "sigVerdict E cache pk sig data \<longleftrightarrow>
     (case cache of None \<Rightarrow> False | Some c \<Rightarrow> cacheExists (cacheKey data) sig pk c) \<or> icVerify (envCrypto E) pk sig data"

definition cacheAfter :: "engine_env \<Rightarrow> sig_cache option \<Rightarrow> bytes \<Rightarrow> bytes \<Rightarrow> bytes \<Rightarrow> sig_cache option" where
  "cacheAfter E cache pk sig data =
     (case cache of
        None \<Rightarrow> None
      | Some c \<Rightarrow>
          Some (if cacheExists (cacheKey data) sig pk c \<or> \<not> icVerify (envCrypto E) pk sig data then c
                else cacheAdd (envRand E) (envOrder E) (cacheKey data) sig pk c))"

lemma verifySig_apply:
  "verifySig E pk sig data vm =
     (Inr (sigVerdict E (sigCache vm) pk sig data), vm\<lparr>sigCache := cacheAfter E (sigCache vm) pk sig data\<rparr>)"
  by (cases vm) (auto simp: verifySig_def sigVerdict_def cacheAfter_def Let_def split: option.splits)

lemma cacheKey_Nil [simp]: "cacheKey data = []"
  by (simp add: cacheKey_def copyAt_def)

section \<open>A concrete environment\<close>

text \<open>
  An environment for examples: hashing keeps the first twenty bytes, filled up with zeros, a signature is valid for the public key
  it equals, and signing with an address gives the address.
\<close>

definition toyEnv :: engine_env where
  "toyEnv = \<lparr>envHash = \<lparr>sha1Sum = take 20, sha256Sum = take 32, ripemd160Sum = \<lambda>b. take 20 (b @ replicate 20 0), keccak256Sum = take 32\<rparr>,
     envRlp = oneInputRlp,
     envCrypto = \<lparr>icHash = \<lambda>m. Inr m, icSign = \<lambda>a m. Inr (addrBytes a), icVerify = \<lambda>pk sig m. pk = sig, icGetPubKey = \<lambda>a. Inr (addrBytes a)\<rparr>,
     envPickup = \<lambda>_. Inr [OP_1], envRand = \<lambda>_. None, envOrder = \<lambda>_ xs. xs, envBase58 = \<lambda>b t. map (\<lambda>x. char_of (unat x)) (t # b)\<rparr>"

definition toyVm :: "engine" where
  "toyVm = \<lparr>etx = oneInputTx [], dstack = \<lparr>stk = [], verifyMinimalData = False\<rparr>, astack = \<lparr>stk = [], verifyMinimalData = False\<rparr>,
     scripts = [[], [op0 OP_CHECKMULTISIG]], condStack = [], savedFirstStack = [], scriptIdx = 1, scriptOff = 0, lastCodeSep = 0,
     msgIdx = 0, txIdx = 0, numOps = 0, sigCache = None, flags = 0, bip16 = False, p2ch = False\<rparr>"

lemma oneInput_request: "GetRequestMsgIndex (oneInputTx s) = -1"
  by (simp add: GetRequestMsgIndex_def oneInputTx_def newTransaction_def IsRequest_def)

lemma oneInput_data:
  "\<exists>d. calcSignatureData oneInputRlp script SigHashAll (oneInputTx s) 0 0 = Inr d"
  "\<exists>d. calcSignatureData oneInputRlp script SigHashRaw (oneInputTx s) 0 0 = Inr d"
  using oneInput_ok [of s]
  by (simp_all add: calcSignatureData_eq sigDataOf_def oneInput_request)
    (simp_all add: oneInputTx_def newTransaction_def NewPaymentPayload_def paymentOf_def idxE_def payment_def signMsg_def
      cutOutputs_def cutInputs_def)

end
