(* ===== verification/EngineLimits.thy ===== *)
theory EngineLimits
  imports EngineRun
begin

text \<open>
  The resource limits of the script engine. A step is one round of \<open>Execute\<close> that does not end the run. In every
  state a run reaches, the two stacks together hold at most a thousand items and a script has counted at most 201
  operations; and a run takes at most as many steps as there are opcodes in its scripts.
\<close>

section \<open>Growth of a state\<close>

text \<open>By how much an operation can increase the size of its state, whatever it returns.\<close>

locale sized_state =
  fixes size_of :: "'s \<Rightarrow> nat"
begin

definition grows :: "nat \<Rightarrow> ('s \<Rightarrow> ('e + 'a) \<times> 's) \<Rightarrow> bool" where
  "grows k m \<longleftrightarrow> (\<forall>s. size_of (snd (m s)) \<le> size_of s + k)"

lemma grows_pure: "grows k (returnE a)" "grows k (throwE e)" "grows k (liftE r)" "grows k getE"
  by (simp_all add: grows_def sm_simps)

lemma grows_modify: "(\<And>s. size_of (f s) \<le> size_of s) \<Longrightarrow> grows k (modifyE f)"
  by (simp add: grows_def sm_simps trans_le_add1)

lemma grows_mono: "grows j m \<Longrightarrow> j \<le> k \<Longrightarrow> grows k m"
  unfolding grows_def by (meson add_left_mono order_trans)

lemma grows_bind:
  assumes "grows j m" and "\<And>a. grows k (f a)"
  shows "grows (j + k) (bindE m f)"
  unfolding grows_def
proof
  fix s
  obtain r t where m: "m s = (r, t)"
    by (cases "m s")
  have t: "size_of t \<le> size_of s + j"
    using assms(1) m unfolding grows_def by (metis snd_conv)
  show "size_of (snd (bindE m f s)) \<le> size_of s + (j + k)"
  proof (cases r)
    case (Inr a)
    have "size_of (snd (f a t)) \<le> size_of t + k"
      using assms(2) by (simp add: grows_def)
    then show ?thesis
      using Inr t m by (simp add: bindE_apply)
  qed (use t m in \<open>simp add: bindE_apply\<close>)
qed

lemma grows_after: "grows 0 m \<Longrightarrow> (\<And>a. grows k (f a)) \<Longrightarrow> grows k (bindE m f)"
  using grows_bind [of 0 m k f] by simp

lemma grows_before: "grows k m \<Longrightarrow> (\<And>a. grows 0 (f a)) \<Longrightarrow> grows k (bindE m f)"
  using grows_bind [of k m 0 f] by simp

lemma grows_repeat: "grows k m \<Longrightarrow> grows (n * k) (repeatE n m)"
proof (induction n)
  case (Suc n)
  then show ?case
    using grows_bind [of k m "n * k" "\<lambda>_. repeatE n m"] by simp
qed (simp add: grows_pure)

lemma grows_popList: "grows 0 m \<Longrightarrow> grows 0 (popListE n m)"
  by (induction n) (simp_all add: grows_pure grows_after)

lemma grows_if: "(b \<Longrightarrow> grows k m) \<Longrightarrow> (\<not> b \<Longrightarrow> grows k m') \<Longrightarrow> grows k (if b then m else m')"
  by simp

lemmas grows_rules = grows_pure grows_if grows_after grows_before

end

interpretation ss: sized_state "\<lambda>s. length (stk s)" .

interpretation es: sized_state "\<lambda>vm. length (stk (dstack vm)) + length (stk (astack vm))" .

lemma stack_grows:
  "ss.grows 0 (nipN i)" "ss.grows k (PeekByteArray i)" "ss.grows (Suc k) (PushByteArray x)"
  by (auto simp: ss.grows_def sm_simps nipN_def PeekByteArray_def Let_def)

lemma pop_grows: "ss.grows k PopByteArray" "ss.grows k PopInt" "ss.grows k PopBool" "ss.grows k (NipN i)"
  by (simp_all add: ss.grows_mono [where j = 0] PopByteArray_def PopInt_def PopBool_def NipN_def ss.grows_rules stack_grows)

lemma push_grows: "ss.grows (Suc k) (PushInt v)" "ss.grows (Suc k) (PushBool b)"
  by (simp_all add: PushInt_def PushBool_def ss.grows_rules stack_grows)

lemma copy_grows:
  "ss.grows (Suc k) (bindE (PeekByteArray i) PushByteArray)" "ss.grows (Suc k) (bindE (nipN i) PushByteArray)"
  by (simp_all add: ss.grows_rules stack_grows)

lemma multi_grows:
  "ss.grows k (DropN n)" "nat n \<le> k \<Longrightarrow> ss.grows k (DupN n)" "nat n \<le> k \<Longrightarrow> ss.grows k (OverN n)"
  "nat n \<le> k \<Longrightarrow> ss.grows k (RotN n)" "nat n \<le> k \<Longrightarrow> ss.grows k (SwapN n)"
  "ss.grows (Suc k) (PickN i)" "ss.grows (Suc k) (RollN i)" "ss.grows 3 Tuck"
proof -
  have "ss.grows 0 (DropN n)"
    using ss.grows_repeat [of 0 "bindE PopByteArray (\<lambda>_. returnE ())" "nat n"]
    by (simp add: DropN_def ss.grows_rules pop_grows)
  then show "ss.grows k (DropN n)"
    by (rule ss.grows_mono) simp
  show "nat n \<le> k \<Longrightarrow> ss.grows k (DupN n)" "nat n \<le> k \<Longrightarrow> ss.grows k (OverN n)"
    "nat n \<le> k \<Longrightarrow> ss.grows k (RotN n)" "nat n \<le> k \<Longrightarrow> ss.grows k (SwapN n)"
    using ss.grows_mono [OF ss.grows_repeat [OF copy_grows(1) [of 0], of "nat n"], of k]
      ss.grows_mono [OF ss.grows_repeat [OF copy_grows(2) [of 0], of "nat n"], of k]
    by (simp_all add: DupN_def OverN_def RotN_def SwapN_def Let_def ss.grows_pure)
  show "ss.grows (Suc k) (PickN i)" "ss.grows (Suc k) (RollN i)"
    by (simp_all only: PickN_def RollN_def copy_grows)
  have "ss.grows (0 + (0 + (1 + (1 + 1)))) Tuck"
    unfolding Tuck_def by (intro ss.grows_bind) (simp_all add: pop_grows stack_grows)
  then show "ss.grows 3 Tuck"
    by (simp add: numeral_3_eq_3)
qed

lemma on_stack_grows: "ss.grows k m \<Longrightarrow> es.grows k (on_dstack m)" "ss.grows k m \<Longrightarrow> es.grows k (on_astack m)"
  by (simp_all add: ss.grows_def es.grows_def on_dstack_def on_astack_def case_prod_beta)

lemma verifySig_grows: "es.grows k (verifySig E pk sig data)"
  by (auto simp: es.grows_def verifySig_def Let_def split: option.splits)

lemma update_grows:
  "es.grows k (modifyE (\<lambda>vm. vm\<lparr>condStack := f vm\<rparr>))" "es.grows k (modifyE (\<lambda>vm. vm\<lparr>numOps := g vm\<rparr>))"
  "es.grows k (modifyE (\<lambda>vm. vm\<lparr>lastCodeSep := h vm\<rparr>))"
  by (simp_all add: es.grows_modify)

lemmas handler_grows = es.grows_rules on_stack_grows verifySig_grows update_grows pop_grows push_grows stack_grows
  multi_grows ss.grows_popList

lemma three_grows:
  "ss.grows 3 (PushByteArray x)" "ss.grows 3 (PushInt v)" "ss.grows 3 (PushBool b)" "ss.grows 3 (PickN i)" "ss.grows 3 (RollN i)"
  by (simp_all add: numeral_3_eq_3 stack_grows push_grows multi_grows)

lemma multiSigLoop_grows: "es.grows 0 (multiSigLoop E script sigs keys)"
  by (induction E script sigs keys rule: multiSigLoop.induct) (simp_all add: Let_def handler_grows)

lemma sig_grows: "es.grows 3 (opcodeCheckSig E pop)" "es.grows 3 (opcodeCheckMultiSig E pop)" "es.grows 0 (opcodeVerify pop)"
  unfolding opcodeCheckSig_def opcodeCheckMultiSig_def opcodeVerify_def Let_def
  by (intro es.grows_pure es.grows_if es.grows_after on_stack_grows verifySig_grows update_grows pop_grows three_grows
      ss.grows_popList multiSigLoop_grows)+

lemma runOpfunc_grows: "es.grows 3 (runOpfunc E f pop)"
proof (cases "f \<in> {fn_opcodeCheckSig, fn_opcodeCheckSigVerify, fn_opcodeCheckMultiSig, fn_opcodeCheckMultiSigVerify}")
  case True
  then show ?thesis
    by (auto simp: opcodeCheckSigVerify_def opcodeCheckMultiSigVerify_def sig_grows es.grows_before)
next
  case False
  then show ?thesis
    by (cases f) (simp_all add: plain_handler_defs handler_grows three_grows)
qed

lemma executeOpcode_grows: "es.grows 3 (executeOpcode E pop)"
  unfolding executeOpcode_def
  by (intro es.grows_if es.grows_pure es.grows_after update_grows runOpfunc_grows)

section \<open>The operation count\<close>

text \<open>An operation that succeeds leaves the count within the limit if it was before.\<close>

definition counts :: "'a vm \<Rightarrow> bool" where
  "counts m \<longleftrightarrow> (\<forall>vm a vm'. m vm = (Inr a, vm') \<longrightarrow> numOps vm \<le> MaxOpsPerScript \<longrightarrow> numOps vm' \<le> MaxOpsPerScript)"

lemma countsD: "counts m \<Longrightarrow> m vm = (Inr a, vm') \<Longrightarrow> numOps vm \<le> MaxOpsPerScript \<Longrightarrow> numOps vm' \<le> MaxOpsPerScript"
  unfolding counts_def by blast

lemma counts_pure: "counts (returnE a)" "counts (throwE e)" "counts (liftE r)" "counts getE"
  by (auto simp: counts_def sm_simps)

lemma counts_bind: "counts m \<Longrightarrow> (\<And>a. counts (k a)) \<Longrightarrow> counts (bindE m k)"
  unfolding counts_def by (blast elim: bindE_InrE)

lemma counts_if: "(b \<Longrightarrow> counts m) \<Longrightarrow> (\<not> b \<Longrightarrow> counts m') \<Longrightarrow> counts (if b then m else m')"
  by simp

lemma counts_stack: "counts (on_dstack m)" "counts (on_astack m)"
  by (auto simp: counts_def on_dstack_def on_astack_def split: prod.splits)

lemma counts_verifySig: "counts (verifySig E pk sig data)"
  by (auto simp: counts_def verifySig_def Let_def split: option.splits if_splits)

lemma counts_update:
  "counts (modifyE (\<lambda>vm. vm\<lparr>condStack := f vm\<rparr>))" "counts (modifyE (\<lambda>vm. vm\<lparr>lastCodeSep := h vm\<rparr>))"
  by (auto simp: counts_def sm_simps)

text \<open>The two places that add to the count check it at once.\<close>

lemma counts_checked:
  assumes "\<And>vm. counts (k vm)"
  shows "counts (bindE (modifyE (\<lambda>vm. vm\<lparr>numOps := g vm\<rparr>)) (\<lambda>_. bindE getE (\<lambda>vm.
    if numOps vm > MaxOpsPerScript then throwE ErrStackTooManyOperations else k vm)))"
  unfolding counts_def
proof (intro allI impI)
  fix vm a vm'
  assume "bindE (modifyE (\<lambda>vm. vm\<lparr>numOps := g vm\<rparr>)) (\<lambda>_. bindE getE (\<lambda>vm.
    if numOps vm > MaxOpsPerScript then throwE ErrStackTooManyOperations else k vm)) vm = (Inr a, vm')"
  then have "k (vm\<lparr>numOps := g vm\<rparr>) (vm\<lparr>numOps := g vm\<rparr>) = (Inr a, vm')" and "g vm \<le> MaxOpsPerScript"
    by (auto simp: sm_simps split: if_splits)
  then show "numOps vm' \<le> MaxOpsPerScript"
    using countsD [OF assms, of "vm\<lparr>numOps := g vm\<rparr>"] by simp
qed

lemmas counts_rules = counts_pure counts_checked counts_bind counts_if counts_stack counts_verifySig counts_update

lemma multiSigLoop_counts: "counts (multiSigLoop E script sigs keys)"
  by (induction E script sigs keys rule: multiSigLoop.induct) (simp_all add: Let_def counts_rules)

lemma counts_multiSig: "counts (opcodeCheckMultiSig E pop)"
  unfolding opcodeCheckMultiSig_def Let_def by (intro counts_rules multiSigLoop_counts)

lemma runOpfunc_counts: "counts (runOpfunc E f pop)"
proof (cases "f = fn_opcodeCheckMultiSig \<or> f = fn_opcodeCheckMultiSigVerify")
  case True
  then show ?thesis
    by (auto simp: opcodeCheckMultiSigVerify_def opcodeVerify_def counts_rules counts_multiSig)
next
  case False
  then show ?thesis
    by (cases f) (simp_all add: handler_defs counts_rules)
qed

lemma executeOpcode_counts: "counts (executeOpcode E pop)"
  unfolding executeOpcode_def by (intro counts_rules runOpfunc_counts)

section \<open>The limits as an invariant\<close>

inductive vm_step :: "engine_env \<Rightarrow> engine \<Rightarrow> engine \<Rightarrow> bool" for E where
  round: "Step E vm = (Inr False, vm') \<Longrightarrow> vm_step E vm vm'"

inductive_cases vm_stepE: "vm_step E vm vm'"

inductive reachable :: "engine_env \<Rightarrow> engine \<Rightarrow> engine \<Rightarrow> bool" for E vm0 where
  start: "reachable E vm0 vm0"
| next_step: "reachable E vm0 vm \<Longrightarrow> vm_step E vm vm' \<Longrightarrow> reachable E vm0 vm'"

definition limits :: "engine \<Rightarrow> bool" where
  "limits vm \<longleftrightarrow> length (stk (dstack vm)) + length (stk (astack vm)) \<le> 1000 \<and> numOps vm \<le> MaxOpsPerScript
     \<and> length (savedFirstStack vm) \<le> 1000"

lemma executeOpcode_limits:
  assumes "limits vm" and "executeOpcode E pop vm = (Inr u, vm')"
    and "Depth (dstack vm') + Depth (astack vm') \<le> maxStackSize"
  shows "limits vm'"
proof -
  have "length (stk (dstack (snd (executeOpcode E pop vm)))) + length (stk (astack (snd (executeOpcode E pop vm))))
      \<le> length (stk (dstack vm)) + length (stk (astack vm)) + 3"
    using executeOpcode_grows [unfolded es.grows_def] by simp
  then have "length (stk (dstack vm')) + length (stk (astack vm')) \<le> 1003"
    using assms(1,2) by (simp add: limits_def)
  then have "Depth (dstack vm') = int (length (stk (dstack vm')))" "Depth (astack vm') = int (length (stk (astack vm')))"
    by (simp_all add: Depth_eq)
  moreover have "numOps vm' \<le> MaxOpsPerScript"
    using countsD [OF executeOpcode_counts assms(2)] assms(1) by (simp add: limits_def)
  ultimately show ?thesis
    using assms(1,3) engine_frameD(3) [OF executeOpcode_keeps [OF assms(2)]] by (simp add: limits_def)
qed

lemma PopBool_shrinks: "PopBool s = (r, t) \<Longrightarrow> length (stk t) \<le> length (stk s)"
  using pop_grows(3) [of 0] unfolding ss.grows_def by (metis add_0_right snd_conv)

lemma nextScript_limits:
  assumes "limits vm" and "nextScript vm = (Inr u, vm')" and "stk (astack vm) = []"
  shows "limits vm'"
proof (cases "scriptIdx vm = 1 \<and> (bip16 vm \<or> p2ch vm)")
  case True
  let ?vm = "vm\<lparr>scriptIdx := Suc (scriptIdx vm)\<rparr>"
  have "enterRedeem ?vm = (Inr u, vm')"
    using True assms(2) by (auto simp: nextScript_def)
  then obtain vm1 pops where c: "CheckErrorCondition False ?vm = (Inr (), vm1)" and f: "engine_frame ?vm vm1"
    and vm': "vm' = SetStack (butlast (savedFirstStack ?vm)) (vm1\<lparr>scripts := scripts ?vm @ [pops]\<rparr>)"
    by (rule enterRedeemE)
  have vm1: "length (stk (dstack vm1)) \<le> length (stk (dstack vm))" "astack vm1 = astack vm" "numOps vm1 = numOps vm"
    using c PopBool_shrinks
    by (auto simp: CheckErrorCondition_def sm_simps on_dstack_def split: if_splits prod.splits sum.splits)
  then have "stk (dstack vm1\<lparr>stk := stk (dstack vm1)\<rparr>) = stk (dstack vm1)" "small (dstack vm1)"
    using assms(1) by (simp_all add: limits_def)
  then show ?thesis
    using assms(1,3) vm1 engine_frameD(3) [OF f]
    by (auto simp: limits_def vm' SetStack_def setStack_eq)
next
  case False
  then show ?thesis
    using assms by (auto simp: nextScript_def limits_def GetStack_def getStack_eq split: if_splits)
qed

lemma Step_limits:
  assumes "limits vm" and "Step E vm = (Inr fin, vm')"
  shows "limits vm'"
  using assms(2)
proof (rule StepE)
  fix vm1
  assume ex: "executeOpcode E (scripts vm ! scriptIdx vm ! scriptOff vm) vm = (Inr (), vm1)"
    and d: "Depth (dstack vm1) + Depth (astack vm1) \<le> maxStackSize"
    and r: "if Suc (scriptOff vm) < length (scripts vm ! scriptIdx vm)
         then \<not> fin \<and> vm' = vm1\<lparr>scriptOff := Suc (scriptOff vm)\<rparr>
         else endScript (vm1\<lparr>scriptOff := Suc (scriptOff vm)\<rparr>) = (Inr fin, vm')"
  have l1: "limits vm1"
    using assms(1) ex d by (rule executeOpcode_limits)
  show ?thesis
  proof (cases "Suc (scriptOff vm) < length (scripts vm ! scriptIdx vm)")
    case True
    then show ?thesis
      using r l1 by (simp add: limits_def)
  next
    case False
    let ?vm = "vm1\<lparr>scriptOff := Suc (scriptOff vm)\<rparr>"
    obtain vm2 where n: "nextScript (?vm\<lparr>astack := snd (DropN (Depth (astack ?vm)) (astack ?vm)), numOps := 0, scriptOff := 0\<rparr>) = (Inr (), vm2)"
      and vm': "vm' = (skipEmpty vm2)\<lparr>lastCodeSep := 0\<rparr>"
      using r False by (auto elim: endScriptE)
    have "limits (?vm\<lparr>astack := snd (DropN (Depth (astack ?vm)) (astack ?vm)), numOps := 0, scriptOff := 0\<rparr>)"
      using l1 drop_all [of "astack vm1"] by (simp add: limits_def)
    then have "limits vm2"
      using n by (rule nextScript_limits) (use l1 drop_all [of "astack vm1"] in \<open>simp add: limits_def\<close>)
    then show ?thesis
      by (simp add: vm' limits_def skipEmpty_def)
  qed
qed

lemma NewEngineE:
  assumes "NewEngine lock tx m i fl cache = Inr vm"
  obtains pay sigPops pkPops where "paymentOf tx m = Inr pay" and "0 \<le> i" and "i < int (length (Inputs pay))"
    and "parseLimited (SignatureScript (Inputs pay ! nat i)) = Inr sigPops" and "parseLimited lock = Inr pkPops"
    and "fl AND ScriptBip16 = ScriptBip16 \<and> isScriptHash pkPops \<or> isContractHash pkPops \<longrightarrow> isPushOnly sigPops"
    and "vm = \<lparr>etx = tx, dstack = \<lparr>stk = [], verifyMinimalData = fl AND ScriptVerifyMinimalData = ScriptVerifyMinimalData\<rparr>,
      astack = \<lparr>stk = [], verifyMinimalData = fl AND ScriptVerifyMinimalData = ScriptVerifyMinimalData\<rparr>,
      scripts = [sigPops, pkPops], condStack = [], savedFirstStack = [],
      scriptIdx = (if length (SignatureScript (Inputs pay ! nat i)) = 0 then 1 else 0), scriptOff = 0, lastCodeSep = 0,
      msgIdx = m, txIdx = i, numOps = 0, sigCache = cache, flags = fl,
      bip16 = fl AND ScriptBip16 = ScriptBip16 \<and> isScriptHash pkPops, p2ch = isContractHash pkPops\<rparr>"
  using assms by (auto simp: NewEngine_def bindS_def Let_def split: sum.splits if_splits)

lemma NewEngine_limits: "NewEngine lock tx m i fl cache = Inr vm \<Longrightarrow> limits vm"
  by (erule NewEngineE) (simp add: limits_def)

section \<open>The length of a run\<close>

lemma parse_length: "length (fst (parseScript s)) \<le> length s"
proof (induction s rule: parseScript.induct)
  case (2 instr rest)
  then show ?case
    by (fastforce simp: Let_def consPop_def split: option.splits intro: le_trans [OF _ diff_le_self])
qed simp

lemma opfunc_push_only:
  "b \<le> OP_16 \<Longrightarrow> opfunc (opcodeAt b) \<in> {fn_opcodeFalse, fn_opcodePushData, fn_opcode1Negate, fn_opcodeReserved, fn_opcodeN}"
  by (rule opcodeAt_all [where P = "\<lambda>b r. b \<le> OP_16 \<longrightarrow>
        opfunc r \<in> {fn_opcodeFalse, fn_opcodePushData, fn_opcode1Negate, fn_opcodeReserved, fn_opcodeN}", rule_format])
    (simp_all add: opcodeRows_simps word_le_nat_alt)

lemma scriptNum_Bytes_short: "scriptNum_Bytes v = Inr bs \<Longrightarrow> \<bar>v\<bar> < 256 \<Longrightarrow> length bs \<le> 2"
  using scriptNum_Bytes_length [of v 1 bs] by simp

lemma executeOpcode_push_only:
  assumes "wf_pop pop" and "pvalue pop \<le> OP_16" and "executeOpcode E pop vm = (Inr u, vm')"
  shows "stk (dstack vm') = stk (dstack vm) \<or>
    (\<exists>x. stk (dstack vm') = stk (dstack vm) @ [x] \<and> length x \<le> MaxScriptElementSize)"
proof -
  have "opfunc (popcode pop) \<in> {fn_opcodeFalse, fn_opcodePushData, fn_opcode1Negate, fn_opcodeReserved, fn_opcodeN}"
    using assms(1) opfunc_push_only [OF assms(2)] by (simp add: wf_pop_def)
  moreover have "uint (pvalue pop - 0x50) < 256"
    using uint_byte_range(2) [of "pvalue pop - 0x50"] by simp
  ultimately show ?thesis
    using assms(2,3) push_not_disabled [OF assms(2)] scriptNum_Bytes_short
    by (fastforce simp: executeOpcode_def sm_simps on_dstack_def opcodeFalse_def opcodePushData_def opcode1Negate_def
        opcodeReserved_def opcodeN_def PushInt_def not_less uint_byte_range split: if_splits sum.splits)
qed

text \<open>
  The opcodes still to be run. While the redeem script of a pay-to-script-hash pair is not yet known, 520 stands
  for it: it is an item that a push opcode of the first script made, and it has at least as many bytes as opcodes.
\<close>

definition work :: "engine \<Rightarrow> nat" where
  "work vm = sum_list (map length (drop (scriptIdx vm) (scripts vm))) - scriptOff vm
     + (if scriptIdx vm \<le> 1 \<and> (bip16 vm \<or> p2ch vm) then MaxScriptElementSize else 0)"

definition short_items :: "bytes list \<Rightarrow> bool" where
  "short_items xs \<longleftrightarrow> list_all (\<lambda>x. length x \<le> MaxScriptElementSize) xs"

definition redeem_inv :: "engine \<Rightarrow> bool" where
  "redeem_inv vm \<longleftrightarrow> limits vm \<and> (scriptIdx vm \<le> 1 \<and> (bip16 vm \<or> p2ch vm) \<longrightarrow>
     length (scripts vm) = 2 \<and>
     (if scriptIdx vm = 0 then list_all wf_pop (scripts vm ! 0) \<and> isPushOnly (scripts vm ! 0) \<and> short_items (stk (dstack vm))
      else short_items (savedFirstStack vm)))"

lemma sum_drop:
  "i < length xs \<Longrightarrow> sum_list (map length (drop i xs)) = length (xs ! i) + sum_list (map length (drop (Suc i) xs))"
  by (simp flip: Cons_nth_drop_Suc)

lemma executeOpcode_redeem_inv:
  assumes "redeem_inv vm" and "scriptIdx vm < length (scripts vm)" and "scriptOff vm < length (scripts vm ! scriptIdx vm)"
    and "executeOpcode E (scripts vm ! scriptIdx vm ! scriptOff vm) vm = (Inr u, vm1)"
    and "Depth (dstack vm1) + Depth (astack vm1) \<le> maxStackSize"
  shows "redeem_inv vm1"
proof -
  note fs = engine_frameD [OF executeOpcode_keeps [OF assms(4)]]
  have "limits vm1"
    using assms(1,4,5) executeOpcode_limits by (auto simp: redeem_inv_def)
  moreover have "short_items (stk (dstack vm1))" if "scriptIdx vm = 0" "bip16 vm \<or> p2ch vm"
  proof -
    let ?pop = "scripts vm ! 0 ! scriptOff vm"
    have "?pop \<in> set (scripts vm ! 0)"
      using assms(3) that(1) by simp
    then have "wf_pop ?pop" "pvalue ?pop \<le> OP_16" "short_items (stk (dstack vm))"
      using assms(1) that by (auto simp: redeem_inv_def isPushOnly_def list_all_iff)
    then show ?thesis
      using executeOpcode_push_only [of ?pop E vm] assms(4) that(1) by (fastforce simp: short_items_def)
  qed
  ultimately show ?thesis
    using assms(1) by (auto simp: redeem_inv_def fs)
qed

lemma nextScript_work:
  assumes "redeem_inv vm" and "nextScript vm = (Inr u, vm')" and "scriptIdx vm < length (scripts vm)"
    and "scripts vm ! scriptIdx vm \<noteq> []" and "scriptOff vm = 0" and "stk (astack vm) = []"
  shows "redeem_inv vm'" and "work vm' + length (scripts vm ! scriptIdx vm) \<le> work vm" and "scriptOff vm' = 0"
proof -
  have l: "limits vm'"
    using assms(1,2,6) nextScript_limits by (auto simp: redeem_inv_def)
  show "scriptOff vm' = 0"
    using nextScript_progress(2) [OF assms(2)] assms(5) by simp
  consider (plain) "\<not> (bip16 vm \<or> p2ch vm) \<or> scriptIdx vm > 1" | (first) "scriptIdx vm = 0" "bip16 vm \<or> p2ch vm"
    | (second) "scriptIdx vm = 1" "bip16 vm \<or> p2ch vm"
    by linarith
  then have "redeem_inv vm' \<and> work vm' + length (scripts vm ! scriptIdx vm) \<le> work vm"
  proof cases
    case plain
    then have vm': "vm' = vm\<lparr>scriptIdx := Suc (scriptIdx vm)\<rparr>" and no: "\<not> (scriptIdx vm \<le> 1 \<and> (bip16 vm \<or> p2ch vm))"
      using assms(2) by (auto simp: nextScript_def split: if_splits)
    then have "\<not> (scriptIdx vm' \<le> 1 \<and> (bip16 vm' \<or> p2ch vm'))"
      by auto
    then show ?thesis
      using l no assms(5) sum_drop [OF assms(3)] unfolding redeem_inv_def work_def by (auto simp: vm')
  next
    case first
    have "getStack (dstack vm) = stk (dstack vm)"
      using assms(1) by (intro getStack_eq) (simp add: redeem_inv_def limits_def)
    then show ?thesis
      using first assms l sum_drop [OF assms(3)] by (auto simp: nextScript_def redeem_inv_def work_def GetStack_def)
  next
    case second
    let ?vm = "vm\<lparr>scriptIdx := Suc (scriptIdx vm)\<rparr>"
    have "enterRedeem ?vm = (Inr u, vm')"
      using second assms(2) by (auto simp: nextScript_def)
    then obtain vm1 pops where f: "engine_frame ?vm vm1" and sv: "savedFirstStack ?vm \<noteq> []"
      and parse: "parseScript (last (savedFirstStack ?vm)) = (pops, None)"
      and vm': "vm' = SetStack (butlast (savedFirstStack ?vm)) (vm1\<lparr>scripts := scripts ?vm @ [pops]\<rparr>)"
      by (rule enterRedeemE)
    have inv: "length (scripts vm) = 2" "short_items (savedFirstStack vm)"
      using assms(1) second by (simp_all add: redeem_inv_def)
    have "length (last (savedFirstStack vm)) \<le> MaxScriptElementSize"
      using inv(2) sv by (simp add: short_items_def list_all_iff)
    then have "length pops \<le> MaxScriptElementSize"
      using parse_length [of "last (savedFirstStack vm)"] parse by simp
    then show ?thesis
      using second l inv(1) assms(5) sum_drop [OF assms(3)] engine_frameD [OF f]
      by (auto simp: redeem_inv_def work_def vm')
  qed
  then show "redeem_inv vm'" and "work vm' + length (scripts vm ! scriptIdx vm) \<le> work vm"
    by simp_all
qed

lemma redeem_inv_update [simp]:
  "redeem_inv (vm\<lparr>scriptOff := k\<rparr>) = redeem_inv vm" "redeem_inv (vm\<lparr>lastCodeSep := j\<rparr>) = redeem_inv vm"
  "work (vm\<lparr>lastCodeSep := j\<rparr>) = work vm"
  by (simp_all add: redeem_inv_def limits_def work_def)

lemma work_scriptOff: "work (vm\<lparr>scriptOff := Suc (scriptOff vm)\<rparr>) < work vm"
  if "scriptOff vm < sum_list (map length (drop (scriptIdx vm) (scripts vm)))"
  using that by (simp add: work_def)

lemma skipEmpty_work:
  assumes "redeem_inv vm" and "scriptOff vm = 0" and "scriptIdx (skipEmpty vm) < length (scripts vm)" and "1 \<le> scriptIdx vm"
  shows "redeem_inv (skipEmpty vm) \<and> work (skipEmpty vm) = work vm"
proof (cases "scriptIdx vm < length (scripts vm) \<and> scripts vm ! scriptIdx vm = []")
  case True
  then have skip: "skipEmpty vm = vm\<lparr>scriptIdx := Suc (scriptIdx vm)\<rparr>"
    by (simp add: skipEmpty_def)
  have *: "scriptIdx vm > 1 \<or> \<not> (bip16 vm \<or> p2ch vm)"
    using assms(1,3,4) by (cases "scriptIdx vm = 1") (auto simp: skip redeem_inv_def)
  have "redeem_inv (skipEmpty vm)"
    using assms(1) * by (auto simp: skip redeem_inv_def limits_def)
  moreover have "work (skipEmpty vm) = work vm"
    using True * assms(2) sum_drop [of "scriptIdx vm" "scripts vm"] by (auto simp: skip work_def)
  ultimately show ?thesis ..
next
  case False
  then have "skipEmpty vm = vm"
    using assms(2) by (auto simp: skipEmpty_def)
  then show ?thesis
    using assms(1) by simp
qed

lemma Step_work:
  assumes "redeem_inv vm" and "Step E vm = (Inr False, vm')"
  shows "redeem_inv vm' \<and> work vm' < work vm"
  using assms(2)
proof (rule StepE)
  fix vm1
  assume pc: "scriptIdx vm < length (scripts vm)" "scriptOff vm < length (scripts vm ! scriptIdx vm)"
    and ex: "executeOpcode E (scripts vm ! scriptIdx vm ! scriptOff vm) vm = (Inr (), vm1)" and f: "engine_frame vm vm1"
    and d: "Depth (dstack vm1) + Depth (astack vm1) \<le> maxStackSize"
    and r: "if Suc (scriptOff vm) < length (scripts vm ! scriptIdx vm)
         then \<not> False \<and> vm' = vm1\<lparr>scriptOff := Suc (scriptOff vm)\<rparr>
         else endScript (vm1\<lparr>scriptOff := Suc (scriptOff vm)\<rparr>) = (Inr False, vm')"
  note fs = engine_frameD [OF f]
  have inv1: "redeem_inv vm1"
    using assms(1) pc ex d by (rule executeOpcode_redeem_inv)
  have left: "scriptOff vm < sum_list (map length (drop (scriptIdx vm) (scripts vm)))"
    using pc sum_drop [OF pc(1)] by simp
  show ?thesis
  proof (cases "Suc (scriptOff vm) < length (scripts vm ! scriptIdx vm)")
    case True
    then have "vm' = vm1\<lparr>scriptOff := Suc (scriptOff vm)\<rparr>"
      using r by simp
    then show ?thesis
      using inv1 left work_scriptOff [of vm1] by (simp add: fs) (simp add: work_def fs)
  next
    case False
    let ?vm = "vm1\<lparr>scriptOff := Suc (scriptOff vm)\<rparr>"
    let ?vm0 = "?vm\<lparr>astack := snd (DropN (Depth (astack ?vm)) (astack ?vm)), numOps := 0, scriptOff := 0\<rparr>"
    obtain vm2 where n: "nextScript ?vm0 = (Inr (), vm2)" and vm': "vm' = (skipEmpty vm2)\<lparr>lastCodeSep := 0\<rparr>"
      and fin: "False \<longleftrightarrow> scriptIdx vm' \<ge> length (scripts vm')"
      using r False by (auto elim: endScriptE)
    have a0: "stk (astack ?vm0) = []"
      using inv1 drop_all [of "astack vm1"] by (simp add: redeem_inv_def limits_def)
    have "redeem_inv ?vm0"
      using inv1 a0 by (auto simp: redeem_inv_def limits_def)
    note n2 = nextScript_work [OF this n]
    have "scripts vm ! scriptIdx vm \<noteq> []"
      using pc(2) by auto
    then have n2': "redeem_inv vm2" "work vm2 + length (scripts vm ! scriptIdx vm) \<le> work ?vm0" "scriptOff vm2 = 0"
      using n2 pc(1) a0 by (simp_all add: fs)
    have "scriptIdx (skipEmpty vm2) < length (scripts vm2)" "1 \<le> scriptIdx vm2"
      using fin nextScript_progress(1) [OF n] by (auto simp: vm' skipEmpty_def split: if_splits)
    then have "redeem_inv (skipEmpty vm2)" "work (skipEmpty vm2) = work vm2"
      using skipEmpty_work n2' by auto
    moreover have "work ?vm0 = work vm + scriptOff vm"
      using left by (auto simp: work_def fs)
    ultimately show ?thesis
      using n2'(2) pc(2) by (simp add: vm')
  qed
qed

lemma parseLimitedD:
  "parseLimited scr = Inr pops \<Longrightarrow> parseScript scr = (pops, None) \<and> length scr \<le> maxScriptSize \<and> length pops \<le> length scr"
  using parse_length [of scr] by (auto simp: parseLimited_def split: if_splits prod.splits option.splits)

lemma NewEngine_work:
  assumes "NewEngine lock tx m i fl cache = Inr vm"
  shows "redeem_inv vm \<and> work vm \<le> 2 * maxScriptSize + MaxScriptElementSize"
  using assms
proof (rule NewEngineE)
  fix pay sigPops pkPops
  let ?sig = "SignatureScript (Inputs pay ! nat i)"
  assume p: "parseLimited ?sig = Inr sigPops" "parseLimited lock = Inr pkPops"
    and push: "fl AND ScriptBip16 = ScriptBip16 \<and> isScriptHash pkPops \<or> isContractHash pkPops \<longrightarrow> isPushOnly sigPops"
    and vm: "vm = \<lparr>etx = tx, dstack = \<lparr>stk = [], verifyMinimalData = fl AND ScriptVerifyMinimalData = ScriptVerifyMinimalData\<rparr>,
      astack = \<lparr>stk = [], verifyMinimalData = fl AND ScriptVerifyMinimalData = ScriptVerifyMinimalData\<rparr>,
      scripts = [sigPops, pkPops], condStack = [], savedFirstStack = [],
      scriptIdx = (if length ?sig = 0 then 1 else 0), scriptOff = 0, lastCodeSep = 0,
      msgIdx = m, txIdx = i, numOps = 0, sigCache = cache, flags = fl,
      bip16 = fl AND ScriptBip16 = ScriptBip16 \<and> isScriptHash pkPops, p2ch = isContractHash pkPops\<rparr>"
  have "list_all wf_pop sigPops"
    using parseLimitedD [OF p(1)] parseScript_iff [of ?sig sigPops] by simp
  then show ?thesis
    using parseLimitedD [OF p(1)] parseLimitedD [OF p(2)] push
    by (auto simp: vm redeem_inv_def limits_def work_def short_items_def)
qed

section \<open>A run\<close>

text \<open>One step of the engine on two scripts that push the number one.\<close>

lemma one_step:
  obtains vm0 vm where "NewEngine [OP_1] (oneInputTx [OP_1]) 0 0 0 None = Inr vm0" and "vm_step toyEnv vm0 vm" and "scriptIdx vm = 1"
proof -
  have parse: "parseScript [OP_1] = ([op0 OP_1], None)"
    by (simp add: consPop_def olength_opcodeAt)
  have pay: "paymentOf (oneInputTx [OP_1]) 0 = Inr (NewPaymentPayload [\<lparr>SignatureScript = [OP_1], Extra = [],
       PreviousOutPoint = Some \<lparr>TxHash = replicate 32 9, MessageIndex = 0, OutIndex = 0\<rparr>\<rparr>] [])"
    by (simp add: paymentOf_def idxE_def oneInputTx_def newTransaction_def payment_def)
  have types: "\<not> isScriptHash [op0 OP_1]" "\<not> isContractHash [op0 OP_1]"
    by (simp_all add: isScriptHash_def isContractHash_def)
  obtain vm0 where vm0: "NewEngine [OP_1] (oneInputTx [OP_1]) 0 0 0 None = Inr vm0" and "scripts vm0 = [[op0 OP_1], [op0 OP_1]]"
    and "fresh vm0" and "\<not> bip16 vm0" and "\<not> p2ch vm0"
    using parse pay types
    by (simp add: NewEngine_def parseLimited_def NewPaymentPayload_def Let_def fresh_def)
  moreover have "pushPop [1] = op0 OP_1"
    by (simp add: pushPop_def)
  ultimately have "\<exists>vm. Step toyEnv vm0 = (Inr False, vm) \<and> scriptIdx vm = 1"
    using executeOpcode_pushPop [of "[1]" vm0 toyEnv] Step_eq [of vm0 "op0 OP_1" "[]" toyEnv] drop_all [of "astack vm0"]
    by (simp add: fresh_def sm_simps Depth_eq endScript_def nextScript_def skipEmpty_def)
  then show ?thesis
    using that vm0 by (auto intro: round)
qed

section \<open>Properties\<close>



text \<open>
  C5. The engine always ends: a run that starts from a new engine takes at most 20520 steps, the opcodes of two
  scripts of ten thousand bytes and of a redeem script of 520 bytes, whatever the scripts are.
\<close>

theorem engine_run_bounded:
  assumes "NewEngine lock tx m i fl cache = Inr vm0" and "(vm_step E ^^ n) vm0 vm"
  shows "n \<le> 20520"
proof -
  have "redeem_inv vm \<and> n + work vm \<le> work vm0"
    using assms(2)
  proof (induction n arbitrary: vm)
    case 0
    then show ?case
      using NewEngine_work [OF assms(1)] by simp
  next
    case (Suc n)
    then obtain u where u: "(vm_step E ^^ n) vm0 u" and s: "vm_step E u vm"
      by auto
    then have "redeem_inv u \<and> n + work u \<le> work vm0"
      by (intro Suc.IH)
    moreover have "redeem_inv vm \<and> work vm < work u" if "redeem_inv u"
      using s that Step_work by (auto elim: vm_stepE)
    ultimately show ?case by auto
  qed
  then show ?thesis
    using NewEngine_work [OF assms(1)] by simp
qed

theorem engine_run_bounded_witness:
  "\<exists>vm0 vm n. NewEngine [OP_1] (oneInputTx [OP_1]) 0 0 0 None = Inr vm0 \<and> (vm_step toyEnv ^^ n) vm0 vm \<and> 0 < n \<and> n \<le> 20520"
proof -
  obtain vm0 vm where v: "NewEngine [OP_1] (oneInputTx [OP_1]) 0 0 0 None = Inr vm0" "vm_step toyEnv vm0 vm"
    by (rule one_step)
  then have n: "(vm_step toyEnv ^^ 1) vm0 vm"
    by auto
  then show ?thesis
    using v engine_run_bounded [OF v(1) n] by blast
qed

end
