(* ===== verification/MultiSig.thy ===== *)
theory MultiSig
  imports EngineRun "HOL-Library.Sublist"
begin

text \<open>
  The multi-signature check of the script engine: the loop of \<open>opcodeCheckMultiSig\<close> in
  \<open>src/tokenengine/internal/txscript/opcode.go\<close> goes through the public keys once and never back. It finds
  a matching of the signatures with the public keys, in the order of both, exactly when there is one.
\<close>

section \<open>The greedy matching\<close>

fun greedy :: "('s \<Rightarrow> 'k \<Rightarrow> bool) \<Rightarrow> 's list \<Rightarrow> 'k list \<Rightarrow> bool" where
  "greedy ok [] ks = True"
| "greedy ok (s # ss) [] = False"
| "greedy ok (s # ss) (k # ks) =
     (if length (s # ss) > length (k # ks) then False
      else if ok s k then greedy ok ss ks else greedy ok (s # ss) ks)"

definition matches :: "('s \<Rightarrow> 'k \<Rightarrow> bool) \<Rightarrow> 's list \<Rightarrow> 'k list \<Rightarrow> bool" where
  "matches ok ss ks \<longleftrightarrow> (\<exists>ks'. subseq ks' ks \<and> list_all2 ok ss ks')"

lemma matches_Nil [simp]: "matches ok [] ks"
  by (auto simp: matches_def intro: exI [of _ "[]"])

lemma matches_Cons_Nil [simp]: "\<not> matches ok (s # ss) []"
  by (auto simp: matches_def list_all2_Cons1)

lemma matches_length: "matches ok ss ks \<Longrightarrow> length ss \<le> length ks"
  by (auto simp: matches_def dest!: list_all2_lengthD list_emb_length)

lemma matches_skip: "matches ok ss ks \<Longrightarrow> matches ok ss (k # ks)"
  by (auto simp: matches_def intro: list_emb_Cons)

lemma matches_tl: "matches ok (s # ss) ks \<Longrightarrow> matches ok ss ks"
  by (auto simp: matches_def list_all2_Cons1 dest: subseq_Cons')

lemma matches_Cons_Cons:
  "matches ok (s # ss) (k # ks) \<longleftrightarrow> (ok s k \<and> matches ok ss ks) \<or> matches ok (s # ss) ks"
proof
  assume "matches ok (s # ss) (k # ks)"
  then obtain k' ks' where sub: "subseq (k' # ks') (k # ks)" and ok: "ok s k'" "list_all2 ok ss ks'"
    by (auto simp: matches_def list_all2_Cons1)
  show "(ok s k \<and> matches ok ss ks) \<or> matches ok (s # ss) ks"
  proof (cases "k' = k \<and> subseq ks' ks")
    case True
    then show ?thesis
      using ok by (auto simp: matches_def)
  next
    case False
    then have "subseq (k' # ks') ks"
      using sub by (auto simp: subseq_Cons2_iff split: if_splits)
    then show ?thesis
      using ok by (auto simp: matches_def)
  qed
next
  assume "(ok s k \<and> matches ok ss ks) \<or> matches ok (s # ss) ks"
  then show "matches ok (s # ss) (k # ks)"
  proof (elim disjE conjE)
    assume "ok s k" "matches ok ss ks"
    then obtain ks' where "subseq ks' ks" "list_all2 ok ss ks'"
      by (auto simp: matches_def)
    with \<open>ok s k\<close> show ?thesis
      by (auto simp: matches_def intro!: exI [of _ "k # ks'"])
  qed (rule matches_skip)
qed

lemma greedy_matches: "greedy ok ss ks \<longleftrightarrow> matches ok ss ks"
proof (induction ok ss ks rule: greedy.induct)
  case (3 ok s ss k ks)
  show ?case
  proof (cases "length (s # ss) > length (k # ks)")
    case True
    then show ?thesis
      using matches_length [of ok "s # ss" "k # ks"] by auto
  next
    case False
    then show ?thesis
      using 3 matches_Cons_Cons [of ok s ss k ks] matches_tl [of ok s ss ks] by auto
  qed
qed simp_all

lemma subseq_revI: "subseq xs ys \<Longrightarrow> subseq (rev xs) (rev ys)"
proof (induction rule: list_emb.induct)
  case (list_emb_Cons xs ys y)
  then show ?case
    by (simp add: subseq_rev_drop_many)
next
  case (list_emb_Cons2 x y xs ys)
  then show ?case
    using list_emb_append_mono [of "(=)" "rev xs" "rev ys" "[x]" "[y]"] by simp
qed simp

lemma matches_revI:
  assumes "matches ok ss ks"
  shows "matches ok (rev ss) (rev ks)"
proof -
  obtain ks' where "subseq ks' ks" and "list_all2 ok ss ks'"
    using assms unfolding matches_def by blast
  then have "subseq (rev ks') (rev ks)" and "list_all2 ok (rev ss) (rev ks')"
    by (simp_all add: subseq_revI)
  then show ?thesis
    unfolding matches_def by blast
qed

lemma matches_rev: "matches ok (rev ss) (rev ks) \<longleftrightarrow> matches ok ss ks"
  using matches_revI [of ok ss ks] matches_revI [of ok "rev ss" "rev ks"] by auto

section \<open>The loop of the opcode\<close>

text \<open>A signature with its hash type byte is good for a public key.\<close>

definition multiSigOk :: "engine_env \<Rightarrow> engine \<Rightarrow> parsedOpcode list \<Rightarrow> bytes \<Rightarrow> bytes \<Rightarrow> bool" where
  "multiSigOk E vm script rawSig pubKey =
     (rawSig \<noteq> [] \<and>
      (case calcSignatureData (envRlp E) script (ucast (last rawSig)) (etx vm) (msgIdx vm) (txIdx vm) of
         Inl e \<Rightarrow> False | Inr data \<Rightarrow> icVerify (envCrypto E) pubKey (butlast rawSig) data))"

text \<open>No signature stops the check with an error.\<close>

definition sigsReadable :: "engine_env \<Rightarrow> engine \<Rightarrow> parsedOpcode list \<Rightarrow> bytes list \<Rightarrow> bool" where
  "sigsReadable E vm script sigs \<longleftrightarrow> list_all (\<lambda>rawSig. rawSig = [] \<or>
     checkHashTypeEncoding vm (ucast (last rawSig)) = Inr () \<and>
     (\<exists>data. calcSignatureData (envRlp E) script (ucast (last rawSig)) (etx vm) (msgIdx vm) (txIdx vm) = Inr data)) sigs"

text \<open>
  The cache of the engine, if it has one, is honest about the signatures of a check: what it remembers
  verifies. Since the cache forgets the data a signature was checked against, two signatures of the check that
  differ in the hash type only would share an entry.
\<close>

definition honest :: "engine_env \<Rightarrow> engine \<Rightarrow> parsedOpcode list \<Rightarrow> bytes list \<Rightarrow> bool" where
  "honest E vm script sigs \<longleftrightarrow> (case sigCache vm of None \<Rightarrow> True
     | Some c \<Rightarrow> inj_on butlast {r \<in> set sigs. r \<noteq> []}
         \<and> (\<forall>r\<in>set sigs. \<forall>k. r \<noteq> [] \<and> cacheExists [] (butlast r) k c \<longrightarrow> multiSigOk E vm script r k))"

lemma honest_subset: "honest E vm script sigs \<Longrightarrow> set sigs' \<subseteq> set sigs \<Longrightarrow> honest E vm script sigs'"
  by (auto simp: honest_def elim!: inj_on_subset split: option.splits)

lemma multiSig_cong:
  assumes "etx vm' = etx vm" and "msgIdx vm' = msgIdx vm" and "txIdx vm' = txIdx vm" and "flags vm' = flags vm"
  shows "multiSigOk E vm' = multiSigOk E vm" and "sigsReadable E vm' = sigsReadable E vm"
    and "sigCache vm' = sigCache vm \<Longrightarrow> honest E vm' = honest E vm"
proof -
  show ok: "multiSigOk E vm' = multiSigOk E vm" and "sigsReadable E vm' = sigsReadable E vm"
    using assms by (simp_all add: fun_eq_iff multiSigOk_def sigsReadable_def checkHashTypeEncoding_def hasFlag_def)
  show "honest E vm' = honest E vm" if "sigCache vm' = sigCache vm"
    unfolding honest_def [abs_def] ok that ..
qed

lemma sigCache_irrelevant [simp]:
  "multiSigOk E (vm\<lparr>sigCache := c\<rparr>) script = multiSigOk E vm script"
  "sigsReadable E (vm\<lparr>sigCache := c\<rparr>) script sigs = sigsReadable E vm script sigs"
  using multiSig_cong [of "vm\<lparr>sigCache := c\<rparr>" vm E] by simp_all

lemma honest_check:
  assumes "honest E vm script sigs" and "r \<in> set sigs" and "r \<noteq> []"
    and "calcSignatureData (envRlp E) script (ucast (last r)) (etx vm) (msgIdx vm) (txIdx vm) = Inr data"
  shows "sigVerdict E (sigCache vm) k (butlast r) data = multiSigOk E vm script r k"
    and "honest E (vm\<lparr>sigCache := cacheAfter E (sigCache vm) k (butlast r) data\<rparr>) script sigs"
proof -
  have ok: "multiSigOk E vm script r k = icVerify (envCrypto E) k (butlast r) data"
    using assms(3,4) by (simp add: multiSigOk_def)
  then show "sigVerdict E (sigCache vm) k (butlast r) data = multiSigOk E vm script r k"
    using assms(1-3) by (auto simp: sigVerdict_def honest_def split: option.splits)
  show "honest E (vm\<lparr>sigCache := cacheAfter E (sigCache vm) k (butlast r) data\<rparr>) script sigs"
  proof (cases "sigCache vm")
    case (Some c)
    have "multiSigOk E vm script r' k'" if r': "r' \<in> set sigs" "r' \<noteq> []" and k: "icVerify (envCrypto E) k (butlast r) data"
      and found: "cacheExists [] (butlast r') k' (cacheAdd (envRand E) (envOrder E) [] (butlast r) k c)" for r' k'
    proof (cases "cacheExists [] (butlast r') k' c")
      case True
      then show ?thesis
        using assms(1) r' Some by (auto simp: honest_def)
    next
      case False
      then have "butlast r' = butlast r" "k' = k"
        using sc.found_add [of "([], butlast r', k')" "envRand E" "envOrder E" "([], butlast r, k)" c] found by simp_all
      moreover have "inj_on butlast {r \<in> set sigs. r \<noteq> []}"
        using assms(1) Some by (simp add: honest_def)
      ultimately have "r' = r"
        using assms(2,3) r' by (auto dest: inj_onD)
      then show ?thesis
        using ok k \<open>k' = k\<close> by simp
    qed
    then show ?thesis
      using assms(1) Some by (auto simp: honest_def cacheAfter_def)
  qed (simp add: honest_def cacheAfter_def)
qed

lemma multiSigLoop_greedy:
  assumes "honest E vm script sigs" and "sigsReadable E vm script sigs"
  shows "\<exists>c. multiSigLoop E script sigs keys vm = (Inr (greedy (multiSigOk E vm script) sigs keys), vm\<lparr>sigCache := c\<rparr>)"
  using assms
proof (induction E script sigs keys arbitrary: vm rule: multiSigLoop.induct)
  case (1 E script pubKeys)
  then show ?case
    by (auto simp: sm_simps intro!: exI [of _ "sigCache vm"])
next
  case (2 E script rawSig sigs)
  then show ?case
    by (auto simp: sm_simps intro!: exI [of _ "sigCache vm"])
next
  case (3 E script rawSig sigs pubKey keys)
  consider "length (rawSig # sigs) > length (pubKey # keys)" | "rawSig = []" "length (rawSig # sigs) \<le> length (pubKey # keys)"
    | "rawSig \<noteq> []" "length (rawSig # sigs) \<le> length (pubKey # keys)"
    by fastforce
  then show ?case
  proof cases
    case 1
    then show ?thesis
      by (auto simp: sm_simps intro!: exI [of _ "sigCache vm"])
  next
    case 2
    then show ?thesis
      using 3(1) [of vm] 3(4,5) by (auto simp: sm_simps multiSigOk_def)
  next
    case len: 3
    then obtain data where d: "checkHashTypeEncoding vm (ucast (last rawSig)) = Inr ()"
      "calcSignatureData (envRlp E) script (ucast (last rawSig)) (etx vm) (msgIdx vm) (txIdx vm) = Inr data"
      using 3(5) by (auto simp: sigsReadable_def)
    define vm' where "vm' = vm\<lparr>sigCache := cacheAfter E (sigCache vm) pubKey (butlast rawSig) data\<rparr>"
    have chk: "verifySig E pubKey (butlast rawSig) data vm = (Inr (multiSigOk E vm script rawSig pubKey), vm')"
      and h: "honest E vm' script (rawSig # sigs)" and r: "sigsReadable E vm' script (rawSig # sigs)"
      using honest_check [OF 3(4) _ len(1) d(2), of pubKey] 3(5) by (simp_all add: verifySig_apply vm'_def)
    have h': "honest E vm' script sigs" and r': "sigsReadable E vm' script sigs"
      using honest_subset [OF h] r by (auto simp: sigsReadable_def)
    have loop: "multiSigLoop E script (rawSig # sigs) (pubKey # keys) vm =
        (if multiSigOk E vm script rawSig pubKey then multiSigLoop E script sigs keys vm' else multiSigLoop E script (rawSig # sigs) keys vm')"
      using len d chk by (simp add: sm_simps Let_def)
    have "\<exists>c. multiSigLoop E script sigs keys vm' = (Inr (greedy (multiSigOk E vm' script) sigs keys), vm'\<lparr>sigCache := c\<rparr>)"
      if "multiSigOk E vm script rawSig pubKey"
      by (rule 3(2) [of "ucast (last rawSig)" "butlast rawSig" True]) (use len h' r' in simp_all)
    moreover have "\<exists>c. multiSigLoop E script (rawSig # sigs) keys vm' = (Inr (greedy (multiSigOk E vm' script) (rawSig # sigs) keys), vm'\<lparr>sigCache := c\<rparr>)"
      if "\<not> multiSigOk E vm script rawSig pubKey"
      by (rule 3(3) [of "ucast (last rawSig)" "butlast rawSig" False]) (use len h r in simp_all)
    ultimately show ?thesis
      using loop len by (simp add: vm'_def)
  qed
qed

lemma popInt_apply:
  assumes "length xs < 2 ^ 31 - 1" and "stk (dstack vm) = xs @ [x]"
    and "makeScriptNum x (verifyMinimalData (dstack vm)) defaultScriptNumLen = Inr n"
  shows "on_dstack PopInt vm = (Inr n, vm\<lparr>dstack := (dstack vm)\<lparr>stk := xs\<rparr>\<rparr>)"
  using PopByteArray_snoc [of "dstack vm" xs x] assms by (simp add: on_dstack_def PopInt_def sm_simps)

lemma popList_apply:
  assumes "length (xs @ ys) < 2 ^ 31" and "stk (dstack vm) = xs @ ys"
  shows "on_dstack (popListE (length ys) PopByteArray) vm = (Inr (rev ys), vm\<lparr>dstack := (dstack vm)\<lparr>stk := xs\<rparr>\<rparr>)"
  using popListE_stack [of xs "rev ys" "dstack vm"] assms by (simp add: on_dstack_def)

lemma opcodeCheckMultiSig_apply:
  assumes "stk (dstack vm) = xs @ [dummy] @ sigs @ [mb] @ keys @ [nb]" and "length (stk (dstack vm)) \<le> 1000"
    and "makeScriptNum nb (verifyMinimalData (dstack vm)) defaultScriptNumLen = Inr (int (length keys))"
    and "makeScriptNum mb (verifyMinimalData (dstack vm)) defaultScriptNumLen = Inr (int (length sigs))"
    and "length keys \<le> 20" and "length sigs \<le> length keys" and "numOps vm + int (length keys) \<le> MaxOpsPerScript"
    and "hasFlag vm ScriptStrictMultiSig \<longrightarrow> dummy = []" and "subScript vm = Inr sub"
    and "script = foldl removeOpcodeByData sub (rev sigs)" and "sigsReadable E vm script sigs" and "honest E vm script sigs"
  shows "\<exists>c. opcodeCheckMultiSig E pop vm =
    (Inr (), vm\<lparr>numOps := numOps vm + int (length keys), sigCache := c,
       dstack := (dstack vm)\<lparr>stk := xs @ [fromBool (matches (multiSigOk E vm script) sigs keys)]\<rparr>\<rparr>)"
proof -
  define st where "st = (\<lambda>n ys. vm\<lparr>numOps := n, dstack := (dstack vm)\<lparr>stk := ys\<rparr>\<rparr>)"
  let ?n = "numOps vm + int (length keys)"
  have i32: "scriptNum_Int32 (int (length keys)) = int (length keys)" "scriptNum_Int32 (int (length sigs)) = int (length sigs)"
    using assms(5,6) by (simp_all add: scriptNum_Int32_def)
  have pop1: "on_dstack PopInt vm = (Inr (int (length keys)), st (numOps vm) (xs @ dummy # sigs @ mb # keys))"
    using popInt_apply [of "xs @ [dummy] @ sigs @ [mb] @ keys" vm nb] assms(1-3) by (simp add: st_def)
  have pop2: "on_dstack (popListE (length keys) PopByteArray) (st ?n (xs @ dummy # sigs @ mb # keys)) =
      (Inr (rev keys), st ?n (xs @ dummy # sigs @ [mb]))"
    using popList_apply [of "xs @ [dummy] @ sigs @ [mb]" keys "st ?n (xs @ dummy # sigs @ mb # keys)"] assms(1,2)
    by (simp add: st_def)
  have pop3: "on_dstack PopInt (st ?n (xs @ dummy # sigs @ [mb])) = (Inr (int (length sigs)), st ?n (xs @ dummy # sigs))"
    using popInt_apply [of "xs @ [dummy] @ sigs" "st ?n (xs @ dummy # sigs @ [mb])" mb] assms(1,2,4) by (simp add: st_def)
  have pop4: "on_dstack (popListE (length sigs) PopByteArray) (st ?n (xs @ dummy # sigs)) = (Inr (rev sigs), st ?n (xs @ [dummy]))"
    using popList_apply [of "xs @ [dummy]" sigs "st ?n (xs @ dummy # sigs)"] assms(1,2) by (simp add: st_def)
  have pop5: "on_dstack PopByteArray (st ?n (xs @ [dummy])) = (Inr dummy, st ?n xs)"
    using pop_apply [of xs "st ?n (xs @ [dummy])" dummy] assms(1,2) by (simp add: st_def)
  have same: "multiSigOk E (st ?n xs) script = multiSigOk E vm script" "sigsReadable E (st ?n xs) script (rev sigs)"
    using multiSig_cong(1,2) [of "st ?n xs" vm E] assms(11) by (simp_all add: sigsReadable_def st_def)
  have "honest E (st ?n xs) script (rev sigs)"
    using multiSig_cong(3) [of "st ?n xs" vm E] honest_subset [OF assms(12), of "rev sigs"] by (simp add: st_def)
  then obtain c where loop: "multiSigLoop E script (rev sigs) (rev keys) (st ?n xs) =
      (Inr (matches (multiSigOk E vm script) sigs keys), (st ?n xs)\<lparr>sigCache := c\<rparr>)"
    using multiSigLoop_greedy [OF _ same(2), of "rev keys"] same(1) by (auto simp: greedy_matches matches_rev)
  have st0: "(st k ys)\<lparr>numOps := k'\<rparr> = st k' ys" "numOps (st k ys) = k" "subScript (st k ys) = subScript vm"
    "hasFlag (st k ys) f = hasFlag vm f" for k k' ys f
    by (simp_all add: st_def subScript_def hasFlag_def)
  have "opcodeCheckMultiSig E pop vm = on_dstack (PushBool (matches (multiSigOk E vm script) sigs keys)) ((st ?n xs)\<lparr>sigCache := c\<rparr>)"
    using assms(5-9)
    by (simp add: opcodeCheckMultiSig_def sm_simps Let_def assms(10) [symmetric] pop1 pop2 pop3 pop4 pop5 loop i32 st0)
  also have "\<dots> = (Inr (), vm\<lparr>numOps := ?n, sigCache := c,
       dstack := (dstack vm)\<lparr>stk := xs @ [fromBool (matches (multiSigOk E vm script) sigs keys)]\<rparr>\<rparr>)"
    by (cases vm) (simp add: st_def sm_simps)
  finally show ?thesis
    by blast
qed

section \<open>Properties\<close>

text \<open>
  C7. The multi-signature opcode accepts exactly when the signatures can be matched with public keys in
  order: for \<open>dummy sig ... m key ... n\<close> on the stack, with at most twenty keys, no more signatures than
  keys and room in the operation budget, the items are replaced by true if there are distinct keys, in the
  order of the script, that verify the signatures one by one, and by false otherwise. The single pass over the
  keys misses no such choice. A cache of verified signatures may take part as long as it is honest.
\<close>

theorem multisig_accepts_iff_matching:
  assumes "stk (dstack vm) = xs @ [dummy] @ sigs @ [mb] @ keys @ [nb]" and "length (stk (dstack vm)) \<le> 1000"
    and "makeScriptNum nb (verifyMinimalData (dstack vm)) defaultScriptNumLen = Inr (int (length keys))"
    and "makeScriptNum mb (verifyMinimalData (dstack vm)) defaultScriptNumLen = Inr (int (length sigs))"
    and "length keys \<le> 20" and "length sigs \<le> length keys" and "numOps vm + int (length keys) \<le> MaxOpsPerScript"
    and "hasFlag vm ScriptStrictMultiSig \<longrightarrow> dummy = []" and "subScript vm = Inr sub"
    and "script = foldl removeOpcodeByData sub (rev sigs)" and "sigsReadable E vm script sigs" and "honest E vm script sigs"
  shows "\<exists>c. opcodeCheckMultiSig E pop vm =
    (Inr (), vm\<lparr>numOps := numOps vm + int (length keys), sigCache := c,
       dstack := (dstack vm)\<lparr>stk := xs @ [fromBool (\<exists>ks. subseq ks keys \<and> list_all2 (multiSigOk E vm script) sigs ks)]\<rparr>\<rparr>)"
  using opcodeCheckMultiSig_apply [OF assms] by (simp only: matches_def)

theorem multisig_accepts_iff_matching_witness:
  "\<exists>c. opcodeCheckMultiSig toyEnv (op0 OP_CHECKMULTISIG) (toyVm\<lparr>dstack := \<lparr>stk = [[], [7, 1], [9, 1], [2], [7], [8], [9], [3]], verifyMinimalData = False\<rparr>\<rparr>) =
     (Inr (), toyVm\<lparr>numOps := 3, sigCache := c, dstack := \<lparr>stk = [[1]], verifyMinimalData = False\<rparr>\<rparr>)"
proof -
  let ?vm = "toyVm\<lparr>dstack := \<lparr>stk = [[], [7, 1], [9, 1], [2], [7], [8], [9], [3]], verifyMinimalData = False\<rparr>\<rparr>"
  let ?script = "foldl removeOpcodeByData [op0 OP_CHECKMULTISIG] (rev [[7, 1], [9, 1]])"
  have env: "envRlp toyEnv = oneInputRlp" "etx ?vm = oneInputTx []" "msgIdx ?vm = 0" "txIdx ?vm = 0"
    by (simp_all add: toyEnv_def toyVm_def)
  have nums: "makeScriptNum [3] False defaultScriptNumLen = Inr 3" "makeScriptNum [2] False defaultScriptNumLen = Inr 2"
    by (simp_all add: makeScriptNum_def defaultScriptNumLen_def)
  have "sigsReadable toyEnv ?vm ?script [[7, 1], [9, 1]]"
    using oneInput_data(1) [of ?script] by (simp add: sigsReadable_def env checkHashTypeEncoding_def hasFlag_def toyVm_def)
  moreover have "honest toyEnv ?vm ?script [[7, 1], [9, 1]]"
    by (simp add: honest_def toyVm_def)
  ultimately have r: "\<exists>c. opcodeCheckMultiSig toyEnv (op0 OP_CHECKMULTISIG) ?vm =
    (Inr (), ?vm\<lparr>numOps := numOps ?vm + int (length [[7 :: byte], [8], [9]]), sigCache := c,
       dstack := (dstack ?vm)\<lparr>stk := [] @ [fromBool (\<exists>ks. subseq ks [[7], [8], [9]] \<and>
         list_all2 (multiSigOk toyEnv ?vm ?script) [[7, 1], [9, 1]] ks)]\<rparr>\<rparr>)"
    by (intro multisig_accepts_iff_matching [where dummy = "[]" and mb = "[2]" and nb = "[3]" and sub = "[op0 OP_CHECKMULTISIG]"])
      (simp_all add: toyVm_def nums subScript_def)
  have ok: "multiSigOk toyEnv ?vm ?script [k, 1] [k]" for k
  proof -
    obtain d where "calcSignatureData oneInputRlp ?script SigHashAll (oneInputTx []) 0 0 = Inr d"
      using oneInput_data(1) by blast
    then show ?thesis
      by (simp add: multiSigOk_def env) (simp add: toyEnv_def)
  qed
  have "\<exists>ks. subseq ks [[7], [8], [9]] \<and> list_all2 (multiSigOk toyEnv ?vm ?script) [[7, 1], [9, 1]] ks"
    using ok by (intro exI [of _ "[[7], [9]]"]) simp
  with r show ?thesis
    by (simp add: fromBool_def toyVm_def)
qed

end
