(* ===== verification/Spend.thy ===== *)
theory Spend
  imports EngineLimits MultiSig
begin

text \<open>
  What it takes to spend an output with a standard lock script: the run of the engine on an unlock script
  of pushes followed by a pay-to-public-key-hash, pay-to-script-hash or pay-to-contract-hash script.
\<close>

section \<open>The verdict of a signature check\<close>

text \<open>
  The data a signature is checked against, with every check that comes before: an error, nothing for an
  empty signature, or the data.
\<close>

definition sigMessage :: "engine_env \<Rightarrow> engine \<Rightarrow> bytes \<Rightarrow> bytes \<Rightarrow> script_error + bytes option" where
  "sigMessage E vm pk sig =
     (if sig = [] then Inr None
      else bindS (checkHashTypeEncoding vm (ucast (last sig))) (\<lambda>_.
           bindS (checkSignatureEncoding vm (butlast sig)) (\<lambda>_.
           bindS (checkPubKeyEncoding vm pk) (\<lambda>_.
           bindS (subScript vm) (\<lambda>sub.
           bindS (calcSignatureData (envRlp E) (removeOpcodeByData sub sig) (ucast (last sig)) (etx vm) (msgIdx vm) (txIdx vm)) (\<lambda>data.
           Inr (Some data)))))))"

lemma liftE_bindS: "bindE (liftE r) k s = (case r of Inl e \<Rightarrow> (Inl e, s) | Inr a \<Rightarrow> k a s)"
  by (simp add: sm_simps split: sum.splits)

lemma sigMessage_dstack [simp]: "sigMessage E (vm\<lparr>dstack := s\<rparr>) pk sig = sigMessage E vm pk sig"
  by (simp add: sigMessage_def checkHashTypeEncoding_def checkSignatureEncoding_def checkPubKeyEncoding_def hasFlag_def
      subScript_def)

lemma sigMessage_numOps [simp]: "sigMessage E (vm\<lparr>numOps := n\<rparr>) pk sig = sigMessage E vm pk sig"
  by (simp add: sigMessage_def checkHashTypeEncoding_def checkSignatureEncoding_def checkPubKeyEncoding_def hasFlag_def
      subScript_def)

lemma sigMessage_scriptOff [simp]: "sigMessage E (vm\<lparr>scriptOff := n\<rparr>) pk sig = sigMessage E vm pk sig"
  by (simp add: sigMessage_def checkHashTypeEncoding_def checkSignatureEncoding_def checkPubKeyEncoding_def hasFlag_def
      subScript_def)

lemma opcodeCheckSig_apply:
  assumes "length xs < 2 ^ 31 - 2" and "stk (dstack vm) = xs @ [sig, pk]"
  shows "opcodeCheckSig E pop vm =
    (let vm' = vm\<lparr>dstack := (dstack vm)\<lparr>stk := xs\<rparr>\<rparr>
     in case sigMessage E vm pk sig of
          Inl e \<Rightarrow> (Inl e, vm')
        | Inr None \<Rightarrow> (Inr (), pushed (fromBool False) vm')
        | Inr (Some data) \<Rightarrow> bindE (verifySig E pk (butlast sig) data) (\<lambda>valid. on_dstack (PushBool valid)) vm')"
proof -
  let ?vm = "vm\<lparr>dstack := (dstack vm)\<lparr>stk := xs\<rparr>\<rparr>"
  have "opcodeCheckSig E pop vm =
    (if length sig < 1 then on_dstack (PushBool False) ?vm
     else
       (case checkHashTypeEncoding ?vm (ucast (last sig)) of Inl e \<Rightarrow> (Inl e, ?vm) | Inr _ \<Rightarrow>
       (case checkSignatureEncoding ?vm (butlast sig) of Inl e \<Rightarrow> (Inl e, ?vm) | Inr _ \<Rightarrow>
       (case checkPubKeyEncoding ?vm pk of Inl e \<Rightarrow> (Inl e, ?vm) | Inr _ \<Rightarrow>
       (case subScript ?vm of Inl e \<Rightarrow> (Inl e, ?vm) | Inr sub \<Rightarrow>
       (case calcSignatureData (envRlp E) (removeOpcodeByData sub sig) (ucast (last sig)) (etx vm) (msgIdx vm) (txIdx vm) of
          Inl e \<Rightarrow> (Inl e, ?vm)
        | Inr data \<Rightarrow> bindE (verifySig E pk (butlast sig) data) (\<lambda>valid. on_dstack (PushBool valid)) ?vm))))))"
    using pop_apply [of "xs @ [sig]" vm pk] pop_apply [of xs "vm\<lparr>dstack := (dstack vm)\<lparr>stk := xs @ [sig]\<rparr>\<rparr>" sig] assms
    unfolding opcodeCheckSig_def bindE_apply [of "on_dstack PopByteArray"]
    by (simp add: Let_def liftE_bindS bindE_apply [of getE] getE_apply cong: sum.case_cong)
  moreover have "sigMessage E vm pk sig = sigMessage E ?vm pk sig"
    by simp
  ultimately show ?thesis
    unfolding sigMessage_def by (simp add: Let_def sm_simps split: sum.splits)
qed

text \<open>A signature is accepted when its data can be computed and the verdict on it is yes.\<close>

definition sigAccepted :: "engine_env \<Rightarrow> engine \<Rightarrow> bytes \<Rightarrow> bytes \<Rightarrow> bool" where
  "sigAccepted E vm pk sig =
     (case sigMessage E vm pk sig of Inr (Some data) \<Rightarrow> sigVerdict E (sigCache vm) pk (butlast sig) data | _ \<Rightarrow> False)"

section \<open>The unlock script\<close>

definition unlocked :: "bytes list \<Rightarrow> engine \<Rightarrow> engine" where
  "unlocked items vm = vm\<lparr>dstack := (dstack vm)\<lparr>stk := items\<rparr>, scriptIdx := 1,
     savedFirstStack := (if bip16 vm \<or> p2ch vm then items else savedFirstStack vm)\<rparr>"

lemma record_same [simp]:
  "stk s = xs \<Longrightarrow> s\<lparr>stk := xs\<rparr> = s" "astack vm = a \<Longrightarrow> vm\<lparr>astack := a\<rparr> = vm" "numOps vm = n \<Longrightarrow> vm\<lparr>numOps := n\<rparr> = vm"
  "lastCodeSep vm = k \<Longrightarrow> vm\<lparr>lastCodeSep := k\<rparr> = vm" "scriptOff vm = k \<Longrightarrow> vm\<lparr>scriptOff := k\<rparr> = vm"
  by auto

lemma Execute_unlock:
  assumes "fresh vm" and "scripts vm = [map pushPop ds, pk]" and "ds \<noteq> []" and "pk \<noteq> []"
    and "list_all (\<lambda>d. length d \<le> MaxScriptElementSize) ds" and "length ds \<le> 1000"
  shows "Execute E vm = Execute E (unlocked (map pushItem ds) vm)"
proof -
  let ?vm = "vm\<lparr>dstack := (dstack vm)\<lparr>stk := map pushItem ds\<rparr>, scriptOff := length ds\<rparr>"
  have "runOps E (map pushPop ds) vm = (Inr (), ?vm)"
    using runOps_pushes [of ds vm E] assms by (simp add: fresh_def)
  then have "Execute E vm = finishRun E ?vm"
    using Execute_runOps [of vm E] assms(1-3) by (simp add: fresh_def sm_simps)
  also have "\<dots> = Execute E (unlocked (map pushItem ds) vm)"
    using assms drop_all [of "astack vm"]
    by (auto simp: finishRun_def endScript_def sm_simps fresh_def nextScript_def skipEmpty_def unlocked_def GetStack_def
        getStack_eq)
  finally show ?thesis .
qed

lemma CheckErrorCondition_top:
  assumes "scriptIdx vm \<ge> length (scripts vm)" and "stk (dstack vm) = xs @ [x]" and "length xs < 2 ^ 31 - 1"
  shows "fst (CheckErrorCondition b vm) =
    (if b \<and> hasFlag vm ScriptVerifyCleanStack \<and> xs \<noteq> [] then Inl ErrStackCleanStack
     else if asBool x then Inr () else Inl ErrStackScriptFailed)"
  using assms popBool_apply [of xs vm x] by (simp add: CheckErrorCondition_def Depth_eq sm_simps)

section \<open>Pay to public key hash\<close>

lemma pushPop_hash: "length h = 20 \<Longrightarrow> pushPop h = opD OP_DATA_20 h"
  using pushPop_direct(1) [of h] by simp

lemma op_not_disabled [simp]:
  "\<not> isDisabled (op0 OP_DUP)" "\<not> isDisabled (op0 OP_HASH160)" "\<not> isDisabled (op0 OP_EQUALVERIFY)"
  "\<not> isDisabled (op0 OP_CHECKSIG)" "\<not> isDisabled (op0 OP_EQUAL)" "\<not> isDisabled (op0 OP_JURY_REDEEM_EQUAL)"
  by (simp_all add: isDisabled_def)

lemma executeOpcode_hash:
  "length h = 20 \<Longrightarrow> condStack vm = [] \<Longrightarrow> executeOpcode E (opD OP_DATA_20 h) vm = (Inr (), pushed h vm)"
  using executeOpcode_pushPop [of h vm E] pushPop_hash [of h] by (cases "h = [0]") simp_all

lemma runOps_p2pkh_prefix:
  assumes "length h = 20" and "condStack vm = []" and "numOps vm = 0" and "stk (dstack vm) = [sig, pk]" and "stk (astack vm) = []"
  shows "runOps E (p2pkhPops h) vm =
    (if Hash160 (envHash E) pk = h
     then runOps E [op0 OP_CHECKSIG] (vm\<lparr>numOps := 3, scriptOff := Suc (Suc (Suc (Suc (scriptOff vm))))\<rparr>)
     else (Inl ErrStackVerifyFailed, vm\<lparr>dstack := (dstack vm)\<lparr>stk := [sig, pk]\<rparr>, numOps := 3, scriptOff := Suc (Suc (Suc (scriptOff vm)))\<rparr>))"
  using assms
  by (simp add: p2pkhPops_def sm_simps executeOpcode_op executeOpcode_hash opcodeDup_apply [of "[sig]" _ pk]
      opcodeHash160_apply [of "[sig, pk]" _ pk] opcodeEqualVerify_apply [of "[sig, pk]" _ "Hash160 (envHash E) pk" h]
      Depth_eq)

lemma finishRun_last:
  assumes "condStack vm = []" and "\<not> bip16 vm \<and> \<not> p2ch vm \<or> scriptIdx vm \<ge> 2" and "Suc (scriptIdx vm) = length (scripts vm)"
    and "stk (dstack vm) = [x]"
  shows "(fst (finishRun E vm) = Inr () \<longleftrightarrow> asBool x) \<and> sigCache (snd (finishRun E vm)) = sigCache vm"
proof -
  let ?vm = "vm\<lparr>astack := snd (DropN (Depth (astack vm)) (astack vm)), numOps := 0, scriptOff := 0,
    scriptIdx := Suc (scriptIdx vm), lastCodeSep := 0\<rparr>"
  have "finishRun E vm = CheckErrorCondition True ?vm"
    using assms by (auto simp: finishRun_def endScript_def sm_simps nextScript_def skipEmpty_def)
  moreover have "sigCache (snd (CheckErrorCondition True ?vm)) = sigCache vm"
    using popBool_apply [of "[]" ?vm x] assms by (simp add: CheckErrorCondition_def sm_simps)
  ultimately show ?thesis
    using CheckErrorCondition_top [of ?vm "[]" x True] assms by simp
qed

lemma opcodeCheckSig_two:
  assumes "stk (dstack vm) = [sig, pk]"
  shows "opcodeCheckSig E pop vm =
    (case sigMessage E vm pk sig of
       Inl e \<Rightarrow> (Inl e, vm\<lparr>dstack := (dstack vm)\<lparr>stk := []\<rparr>\<rparr>)
     | Inr None \<Rightarrow> (Inr (), vm\<lparr>dstack := (dstack vm)\<lparr>stk := [fromBool False]\<rparr>\<rparr>)
     | Inr (Some data) \<Rightarrow>
         (Inr (), vm\<lparr>sigCache := cacheAfter E (sigCache vm) pk (butlast sig) data,
                    dstack := (dstack vm)\<lparr>stk := [fromBool (sigVerdict E (sigCache vm) pk (butlast sig) data)]\<rparr>\<rparr>))"
  using opcodeCheckSig_apply [of "[]" vm sig pk E pop] assms
  by (simp add: Let_def sm_simps verifySig_apply cong: sum.case_cong option.case_cong)

lemma p2pkh_run:
  assumes "length h = 20" and "condStack vm = []" and "numOps vm = 0" and "stk (dstack vm) = [sig, pk]" and "stk (astack vm) = []"
    and "scripts vm = [s0, p2pkhPops h]" and "scriptIdx vm = 1" and "scriptOff vm = 0" and "\<not> bip16 vm" and "\<not> p2ch vm"
  shows "fst (Execute E vm) = Inr () \<longleftrightarrow> Hash160 (envHash E) pk = h \<and> sigAccepted E vm pk sig"
    and "Hash160 (envHash E) pk = h \<Longrightarrow> sigMessage E vm pk sig = Inr (Some data)
      \<Longrightarrow> sigCache (snd (Execute E vm)) = cacheAfter E (sigCache vm) pk (butlast sig) data"
proof -
  let ?vm = "vm\<lparr>scriptOff := 4, numOps := 4\<rparr>"
  let ?res = "\<lambda>b c. (vm\<lparr>numOps := 4, sigCache := c, dstack := (dstack vm)\<lparr>stk := [fromBool b]\<rparr>, scriptOff := 5\<rparr>)"
  have ex: "Execute E vm = bindE (runOps E (p2pkhPops h)) (\<lambda>_. finishRun E) vm"
    using Execute_runOps [of vm E] assms by (simp add: p2pkhPops_def)
  have fin: "(fst (finishRun E (?res b c)) = Inr () \<longleftrightarrow> b) \<and> sigCache (snd (finishRun E (?res b c))) = c" for b c
    using finishRun_last [of "?res b c" "fromBool b" E] assms by simp
  have run: "Execute E vm =
      (case sigMessage E vm pk sig of
         Inl e \<Rightarrow> (Inl e, ?vm\<lparr>dstack := (dstack vm)\<lparr>stk := []\<rparr>\<rparr>)
       | Inr None \<Rightarrow> finishRun E (?res False (sigCache vm))
       | Inr (Some data) \<Rightarrow> finishRun E (?res (sigVerdict E (sigCache vm) pk (butlast sig) data)
           (cacheAfter E (sigCache vm) pk (butlast sig) data)))" if True: "Hash160 (envHash E) pk = h"
  proof -
    have "Suc (Suc (Suc (Suc (scriptOff vm)))) = 4"
      using assms(8) by simp
    then have "runOps E (p2pkhPops h) vm = runOps E [op0 OP_CHECKSIG] (vm\<lparr>numOps := 3, scriptOff := 4\<rparr>)"
      using True runOps_p2pkh_prefix [OF assms(1-5), of E] by (simp only: if_True refl)
    moreover have "executeOpcode E (op0 OP_CHECKSIG) (vm\<lparr>numOps := 3, scriptOff := 4\<rparr>) = opcodeCheckSig E (op0 OP_CHECKSIG) ?vm"
      using assms(2) by (simp add: executeOpcode_op)
    moreover have "?vm\<lparr>dstack := d\<rparr> = vm\<lparr>numOps := 4, sigCache := sigCache vm, dstack := d, scriptOff := 4\<rparr>" for d
      by simp
    ultimately show ?thesis
      using opcodeCheckSig_two [of ?vm sig pk E "op0 OP_CHECKSIG"] assms(4,5)
      by (simp add: ex sm_simps Depth_eq split: sum.splits option.splits)
  qed
  show "fst (Execute E vm) = Inr () \<longleftrightarrow> Hash160 (envHash E) pk = h \<and> sigAccepted E vm pk sig"
  proof (cases "Hash160 (envHash E) pk = h")
    case False
    then show ?thesis
      using runOps_p2pkh_prefix [OF assms(1-5)] by (simp add: ex bindE_apply)
  next
    case True
    then show ?thesis
      using fin fin [of False "sigCache vm"] by (simp add: run [OF True] sigAccepted_def split: sum.splits option.splits)
  qed
  show "sigCache (snd (Execute E vm)) = cacheAfter E (sigCache vm) pk (butlast sig) data"
    if "Hash160 (envHash E) pk = h" "sigMessage E vm pk sig = Inr (Some data)"
    using fin that by (simp add: run [OF that(1)])
qed

section \<open>Pay to script hash and pay to contract hash\<close>

text \<open>
  The engine after the lock script of either form has accepted the redeem script: the redeem script is
  the third script, and the stack is the one the unlock script left, without the redeem script.
\<close>

definition redeeming :: "parsedOpcode list \<Rightarrow> bytes list \<Rightarrow> engine \<Rightarrow> engine" where
  "redeeming rpops items vm = vm\<lparr>numOps := 0, scriptOff := 0, scripts := scripts vm @ [rpops],
     dstack := (dstack vm)\<lparr>stk := items\<rparr>, scriptIdx := (if rpops = [] then 3 else 2), lastCodeSep := 0\<rparr>"

definition runRedeem :: "engine_env \<Rightarrow> bytes list \<Rightarrow> bytes \<Rightarrow> engine \<Rightarrow> script_error + unit" where
  "runRedeem E items redeem vm =
     (case parseScript redeem of
        (_, Some e) \<Rightarrow> Inl e
      | (rpops, None) \<Rightarrow>
          fst (if rpops = [] then CheckErrorCondition True (redeeming rpops items vm) else Execute E (redeeming rpops items vm)))"

lemma finishRun_redeem:
  assumes "condStack vm = []" and "bip16 vm \<or> p2ch vm" and "scriptIdx vm = 1" and "length (scripts vm) = 2"
    and "stk (dstack vm) = items @ [x]" and "stk (astack vm) = []" and "length items < 1000"
    and "savedFirstStack vm = items @ [redeem]"
  shows "fst (finishRun E vm) = (if asBool x then runRedeem E items redeem vm else Inl ErrStackScriptFailed)"
proof -
  let ?vm = "vm\<lparr>numOps := 0, scriptOff := 0, scriptIdx := 2\<rparr>"
  have drop: "snd (DropN (Depth (astack vm)) (astack vm)) = astack vm"
    using drop_all [of "astack vm"] assms(6) by simp
  have chk: "CheckErrorCondition False ?vm =
      (if asBool x then Inr () else Inl ErrStackScriptFailed, ?vm\<lparr>dstack := (dstack vm)\<lparr>stk := items\<rparr>\<rparr>)"
    using assms popBool_apply [of items ?vm x] by (simp add: CheckErrorCondition_def Depth_eq sm_simps)
  obtain rpops err where parse: "parseScript redeem = (rpops, err)"
    by (cases "parseScript redeem")
  have set: "SetStack items (?vm\<lparr>dstack := (dstack vm)\<lparr>stk := items\<rparr>, scripts := scripts vm @ [rpops]\<rparr>) =
      vm\<lparr>numOps := 0, scriptOff := 0, scriptIdx := 2, scripts := scripts vm @ [rpops], dstack := (dstack vm)\<lparr>stk := items\<rparr>\<rparr>"
    using setStack_eq [of "(dstack vm)\<lparr>stk := items\<rparr>" items] assms(7) by (simp add: SetStack_def)
  have comm: "vm\<lparr>scriptIdx := i, scripts := a, dstack := d\<rparr> = vm\<lparr>scripts := a, dstack := d, scriptIdx := i\<rparr>"
    for vm :: engine and i a d
    by simp
  show ?thesis
    using assms(1-4,8) drop chk parse set
    by (cases err; cases "rpops = []")
      (simp_all add: finishRun_def endScript_def nextScript_def enterRedeem_def sm_simps numeral_2_eq_2 numeral_3_eq_3
        skipEmpty_def redeeming_def runRedeem_def nth_append comm)
qed

lemma redeeming_eq:
  "redeeming r items (vm\<lparr>numOps := n, dstack := (dstack vm)\<lparr>stk := xs\<rparr>, scriptOff := k\<rparr>) = redeeming r items vm"
  by (simp add: redeeming_def)

lemma redeeming_cong:
  "runRedeem E items redeem (vm\<lparr>numOps := n, dstack := (dstack vm)\<lparr>stk := xs\<rparr>, scriptOff := k\<rparr>) = runRedeem E items redeem vm"
  by (simp only: runRedeem_def redeeming_eq)

definition at_lock :: "parsedOpcode list \<Rightarrow> bytes list \<Rightarrow> engine \<Rightarrow> bool" where
  "at_lock pk items vm \<longleftrightarrow> (\<exists>s0. scripts vm = [s0, pk]) \<and> scriptIdx vm = 1 \<and> scriptOff vm = 0 \<and> condStack vm = [] \<and> numOps vm = 0
     \<and> stk (dstack vm) = items \<and> stk (astack vm) = []"

lemma Execute_at_lock:
  assumes "at_lock pk items vm" and "pk \<noteq> []"
  shows "Execute E vm = bindE (runOps E pk) (\<lambda>_. finishRun E) vm"
  using Execute_runOps [of vm E] assms by (auto simp: at_lock_def)

lemma p2sh_run:
  assumes "length h = 20" and "at_lock (p2shPops h) (items @ [redeem]) vm" and "bip16 vm" and "length items < 998"
    and "savedFirstStack vm = items @ [redeem]"
  shows "fst (Execute E vm) =
    (if Hash160 (envHash E) redeem = h then runRedeem E items redeem vm else Inl ErrStackScriptFailed)"
proof -
  let ?x = "fromBool (Hash160 (envHash E) redeem = h)"
  let ?vm = "vm\<lparr>numOps := 2, dstack := (dstack vm)\<lparr>stk := items @ [?x]\<rparr>, scriptOff := 3\<rparr>"
  note a = assms(2) [unfolded at_lock_def]
  have eq: "(h = Hash160 (envHash E) redeem) = (Hash160 (envHash E) redeem = h)"
    by auto
  have "runOps E (p2shPops h) vm = (Inr (), ?vm)"
    using a assms(1,4)
    by (simp add: p2shPops_def sm_simps executeOpcode_op executeOpcode_hash opcodeHash160_apply [of items _ redeem]
        opcodeEqual_apply [of items _ "Hash160 (envHash E) redeem" h] Depth_eq eq)
  then have "fst (Execute E vm) = fst (finishRun E ?vm)"
    using Execute_at_lock [OF assms(2), of E] by (simp add: p2shPops_def sm_simps)
  also have "\<dots> = (if asBool ?x then runRedeem E items redeem ?vm else Inl ErrStackScriptFailed)"
    using a assms by (intro finishRun_redeem) auto
  finally show ?thesis
    by (simp only: asBool_fromBool redeeming_cong)
qed

text \<open>The redeem script of a contract: any at all for a system contract, the registered one otherwise.\<close>

definition contractRedeem :: "engine_env \<Rightarrow> bytes \<Rightarrow> bytes \<Rightarrow> script_error + bool" where
  "contractRedeem E h redeem =
     (let addr = NewAddress h ContractHash
      in if IsSystemContractAddress addr then Inr True
         else bindS (envPickup E addr) (\<lambda>dbRedeem. Inr (dbRedeem = redeem)))"

lemma opcodeCheckJuryRedeemEqual_apply:
  assumes "length items < 1000" and "stk (dstack vm) = items @ [redeem, h]"
  shows "opcodeCheckJuryRedeemEqual E pop vm =
    (case contractRedeem E h redeem of
       Inl e \<Rightarrow> (Inl e, vm\<lparr>dstack := (dstack vm)\<lparr>stk := items\<rparr>\<rparr>)
     | Inr b \<Rightarrow> (Inr (), vm\<lparr>dstack := (dstack vm)\<lparr>stk := items @ [fromBool b]\<rparr>\<rparr>))"
  using pop_apply [of "items @ [redeem]" vm h]
    pop_apply [of items "vm\<lparr>dstack := (dstack vm)\<lparr>stk := items @ [redeem]\<rparr>\<rparr>" redeem] assms
  by (simp add: opcodeCheckJuryRedeemEqual_def contractRedeem_def sm_simps Let_def split: sum.splits)

lemma p2ch_run:
  assumes "length h = 20" and "at_lock (p2chPops h) (items @ [redeem]) vm" and "p2ch vm" and "length items < 998"
    and "savedFirstStack vm = items @ [redeem]"
  shows "fst (Execute E vm) =
    (case contractRedeem E h redeem of
       Inl e \<Rightarrow> Inl e | Inr b \<Rightarrow> if b then runRedeem E items redeem vm else Inl ErrStackScriptFailed)"
proof -
  let ?vm = "\<lambda>b. vm\<lparr>numOps := 1, dstack := (dstack vm)\<lparr>stk := items @ [fromBool b]\<rparr>, scriptOff := 2\<rparr>"
  note a = assms(2) [unfolded at_lock_def]
  have op: "opfunc (opcodeAt OP_JURY_REDEEM_EQUAL) = fn_opcodeCheckJuryRedeemEqual"
    by simp
  have run: "fst (runOps E (p2chPops h) vm) = map_sum id (\<lambda>_. ()) (contractRedeem E h redeem)"
    "contractRedeem E h redeem = Inr b \<Longrightarrow> runOps E (p2chPops h) vm = (Inr (), ?vm b)" for b
    using a assms(1,4)
    by (simp_all add: p2chPops_def sm_simps executeOpcode_op executeOpcode_hash op
        opcodeCheckJuryRedeemEqual_apply [of items _ redeem h] Depth_eq split: sum.splits)
  have ex: "Execute E vm = bindE (runOps E (p2chPops h)) (\<lambda>_. finishRun E) vm"
    using Execute_at_lock [OF assms(2), of E] by (simp add: p2chPops_def)
  show ?thesis
  proof (cases "contractRedeem E h redeem")
    case (Inl e)
    then show ?thesis
      using run(1) by (cases "runOps E (p2chPops h) vm") (simp add: ex sm_simps)
  next
    case (Inr b)
    have "fst (finishRun E (?vm b)) = (if asBool (fromBool b) then runRedeem E items redeem (?vm b) else Inl ErrStackScriptFailed)"
      using a assms by (intro finishRun_redeem) auto
    then show ?thesis
      using run(2) [OF Inr] Inr by (simp add: ex sm_simps redeeming_cong)
  qed
qed

section \<open>Multi-signature redeem scripts\<close>

lemma runOps_append: "runOps E (xs @ ys) vm = bindE (runOps E xs) (\<lambda>_. runOps E ys) vm"
proof (induction xs arbitrary: vm)
  case Nil
  then show ?case by (simp add: sm_simps)
next
  case (Cons pop xs)
  show ?case
    by (cases "executeOpcode E pop vm"; cases "fst (executeOpcode E pop vm)") (simp_all add: sm_simps Cons.IH)
qed

lemma small_word:
  assumes "1 \<le> n" and "n \<le> 16"
  shows "uint (word_of_int n :: byte) = n" and "(word_of_int n :: byte) \<noteq> 0"
proof -
  show u: "uint (word_of_int n :: byte) = n"
    using assms by (simp add: uint_word_of_int)
  show "(word_of_int n :: byte) \<noteq> 0"
    using u assms by (metis not_one_le_zero unsigned_0)
qed

lemma pushPop_small: "1 \<le> n \<Longrightarrow> n \<le> 16 \<Longrightarrow> pushPop [word_of_int n] = op0 (80 + word_of_int n)"
  using small_word [of n] by (simp add: pushPop_def word_le_def)

lemma makeScriptNum_small:
  assumes "1 \<le> n" and "n \<le> 16"
  shows "makeScriptNum [word_of_int n] b defaultScriptNumLen = Inr n"
proof -
  obtain v where v: "scriptNum_Bytes n = Inr v" "sn_val v = n" "checkMinimalDataEncoding v = Inr ()"
    using scriptNum_Bytes_ok [of n] assms by auto
  then show ?thesis
    using makeScriptNum_value [of "[word_of_int n]"] scriptNum_Bytes_small [OF assms] assms
    by (auto simp: defaultScriptNumLen_def)
qed

definition multiSigItems :: "bytes list \<Rightarrow> int \<Rightarrow> bytes list" where
  "multiSigItems keys m = [word_of_int m] # keys @ [[word_of_int (int (length keys))]]"

lemma multiSigPops_pushes:
  assumes "length keys \<le> 16" and "1 \<le> m" and "m \<le> int (length keys)"
  shows "multiSigPops keys m = map pushPop (multiSigItems keys m) @ [op0 OP_CHECKMULTISIG]"
  using assms pushPop_small [of m] pushPop_small [of "int (length keys)"]
  by (simp add: multiSigPops_def multiSigItems_def)

lemma multisig_redeem:
  assumes "parseScript redeem = (multiSigPops keys m, None)" and "list_all pubkeyLen keys" and "length keys \<le> 16"
    and "m = int (length sigs)" and "sigs \<noteq> []" and "length sigs \<le> length keys"
    and "length (scripts vm) = 2" and "condStack vm = []" and "stk (astack vm) = []"
    and "script = foldl removeOpcodeByData (multiSigPops keys m) (rev sigs)"
    and "sigsReadable E vm script sigs" and "honest E vm script sigs"
  shows "runRedeem E ([] # sigs) redeem vm = Inr () \<longleftrightarrow> matches (multiSigOk E vm script) sigs keys"
proof -
  let ?vm = "redeeming (multiSigPops keys m) ([] # sigs) vm"
  let ?items = "multiSigItems keys m"
  define vm1 where "vm1 = ?vm\<lparr>dstack := (dstack ?vm)\<lparr>stk := [] # sigs @ ?items\<rparr>, scriptOff := length ?items, numOps := 1\<rparr>"
  have m: "1 \<le> m" "m \<le> 16" "m \<le> int (length keys)"
    using assms(3-6) by (simp_all add: Suc_le_eq)
  note pops = multiSigPops_pushes [OF assms(3) m(1,3)]
  have items: "list_all (\<lambda>d. length d \<le> MaxScriptElementSize) ?items" "map pushItem ?items = ?items"
    using assms(2,3) m small_word(2) [of m] small_word(2) [of "int (length keys)"]
    by (fastforce simp: multiSigItems_def pushItem_def list_all_iff intro!: map_idI)+
  have run: "runOps E (map pushPop ?items) ?vm = (Inr (), vm1\<lparr>numOps := 0\<rparr>)"
    using runOps_pushes [OF items(1), of ?vm E] items(2) assms(3,6,8,9) by (simp add: redeeming_def multiSigItems_def vm1_def)
  have ne: "multiSigPops keys m \<noteq> []"
    by (simp add: multiSigPops_def)
  have fs: "stk (dstack vm1) = [] @ [[]] @ sigs @ [[word_of_int m]] @ keys @ [[word_of_int (int (length keys))]]" "numOps vm1 = 1"
    "subScript vm1 = Inr (multiSigPops keys m)" "stk (astack vm1) = []" "scriptOff vm1 = length ?items"
    using assms(7,9) ne by (simp_all add: vm1_def redeeming_def multiSigItems_def subScript_def nth_append)
  have same: "multiSigOk E vm1 = multiSigOk E vm" "sigsReadable E vm1 = sigsReadable E vm" "honest E vm1 = honest E vm"
    by (rule multiSig_cong; simp add: vm1_def redeeming_def)+
  have "\<exists>c. opcodeCheckMultiSig E (op0 OP_CHECKMULTISIG) vm1 =
    (Inr (), vm1\<lparr>numOps := numOps vm1 + int (length keys), sigCache := c,
       dstack := (dstack vm1)\<lparr>stk := [] @ [fromBool (matches (multiSigOk E vm1 script) sigs keys)]\<rparr>\<rparr>)"
  proof (rule opcodeCheckMultiSig_apply [OF fs(1)])
    show "makeScriptNum [word_of_int (int (length keys))] (verifyMinimalData (dstack vm1)) defaultScriptNumLen = Inr (int (length keys))"
      "makeScriptNum [word_of_int m] (verifyMinimalData (dstack vm1)) defaultScriptNumLen = Inr (int (length sigs))"
      using makeScriptNum_small [of m] makeScriptNum_small [of "int (length keys)"] m assms(3,4) by simp_all
  qed (use fs same assms(3,6,10-12) in simp_all)
  then obtain c where cms: "opcodeCheckMultiSig E (op0 OP_CHECKMULTISIG) vm1 =
    (Inr (), vm1\<lparr>numOps := 1 + int (length keys), sigCache := c,
       dstack := (dstack vm1)\<lparr>stk := [fromBool (matches (multiSigOk E vm script) sigs keys)]\<rparr>\<rparr>)"
    by (auto simp: same fs)
  have "executeOpcode E (op0 OP_CHECKMULTISIG) (vm1\<lparr>numOps := 0\<rparr>) = opcodeCheckMultiSig E (op0 OP_CHECKMULTISIG) vm1"
    using assms(8) by (simp add: vm1_def executeOpcode_op redeeming_def isDisabled_def)
  moreover have append: "runOps E (multiSigPops keys m) s = bindE (runOps E (map pushPop ?items)) (\<lambda>_. runOps E [op0 OP_CHECKMULTISIG]) s" for s
    by (simp only: pops runOps_append)
  ultimately have ops: "runOps E (multiSigPops keys m) ?vm =
      (Inr (), vm1\<lparr>numOps := 1 + int (length keys), sigCache := c,
         dstack := (dstack vm1)\<lparr>stk := [fromBool (matches (multiSigOk E vm script) sigs keys)]\<rparr>,
         scriptOff := Suc (length ?items)\<rparr>)"
    using append fs(4,5) by (simp add: bindE_apply [of "runOps E xs" for xs] run bindE_apply cms getE_apply modifyE_apply Depth_eq
        returnE_apply)
  have "Execute E ?vm = bindE (runOps E (multiSigPops keys m)) (\<lambda>_. finishRun E) ?vm"
    using Execute_runOps [of ?vm E] assms(7) by (simp add: redeeming_def nth_append pops)
  moreover have "(fst (finishRun E (vm1\<lparr>numOps := 1 + int (length keys), sigCache := c,
         dstack := (dstack vm1)\<lparr>stk := [fromBool (matches (multiSigOk E vm script) sigs keys)]\<rparr>,
         scriptOff := Suc (length ?items)\<rparr>)) = Inr ()) = matches (multiSigOk E vm script) sigs keys"
    by (subst finishRun_last [THEN conjunct1, of _ "fromBool (matches (multiSigOk E vm script) sigs keys)"])
      (simp_all add: vm1_def redeeming_def assms(7,8) pops)
  ultimately show ?thesis
    using assms(1) ne by (simp add: runRedeem_def ops bindE_apply)
qed

end
