(* ===== verification/Sign.thy ===== *)
theory Sign
  imports Engine
begin

text \<open>
  Making unlock scripts: \<open>src/tokenengine/internal/txscript/sign.go\<close>. The crypto provider is the one of the
  environment; the script database is a parameter. \<open>mergeScripts\<close> calls itself on the redeem script of a
  pay-to-script-hash output, which need not end: it is a partial function, \<open>None\<close> if it never returns.
\<close>

section \<open>Signing\<close>

definition RawTxInSignature :: "engine_env \<Rightarrow> transaction \<Rightarrow> int \<Rightarrow> int \<Rightarrow> bytes \<Rightarrow> sigHashType \<Rightarrow> address
    \<Rightarrow> script_error + bytes" where
  "RawTxInSignature E tx mIdx idx subScr hashType addr =
     (case parseScript subScr of
        (_, Some e) \<Rightarrow> Inl (ErrOther ''cannot parse output script'')
      | (parsedScript, None) \<Rightarrow>
          bindS (calcSignatureData (envRlp E) parsedScript hashType tx mIdx idx) (\<lambda>data.
          case icSign (envCrypto E) addr data of
            Inl GoPanic \<Rightarrow> Inl GoPanic
          | Inl e \<Rightarrow> Inl (ErrOther ''cannot sign tx input'')
          | Inr sig \<Rightarrow> Inr (sig @ [ucast hashType])))"

text \<open>What a builder returns as a script and an error, as a result.\<close>

definition builtScript :: "script_builder \<Rightarrow> script_error + bytes" where
  "builtScript b = (case BuilderScript b of (s, None) \<Rightarrow> Inr s | (s, Some e) \<Rightarrow> Inl e)"

definition makeSignatureScript :: "engine_env \<Rightarrow> transaction \<Rightarrow> int \<Rightarrow> int \<Rightarrow> bytes \<Rightarrow> sigHashType \<Rightarrow> bytes \<Rightarrow> address
    \<Rightarrow> script_error + bytes" where
  "makeSignatureScript E tx mIdx idx subscr hashType pubKey addr =
     bindS (RawTxInSignature E tx mIdx idx subscr hashType addr) (\<lambda>sig.
     builtScript (AddData pubKey (AddData sig NewScriptBuilder)))"

definition p2pkSignatureScript :: "engine_env \<Rightarrow> transaction \<Rightarrow> int \<Rightarrow> int \<Rightarrow> bytes \<Rightarrow> sigHashType \<Rightarrow> address
    \<Rightarrow> script_error + bytes" where
  "p2pkSignatureScript E tx mIdx idx subScr hashType addr =
     bindS (RawTxInSignature E tx mIdx idx subScr hashType addr) (\<lambda>sig. builtScript (AddData sig NewScriptBuilder))"

fun signMultiLoop :: "(address \<Rightarrow> script_error + bytes) \<Rightarrow> int \<Rightarrow> AddressOriginalData list \<Rightarrow> int \<Rightarrow> script_builder
    \<Rightarrow> script_error + int \<times> script_builder" where
  "signMultiLoop rawSign nRequired [] nSigned builder = Inr (nSigned, builder)"
| "signMultiLoop rawSign nRequired (addr # addrs) nSigned builder =
     (case rawSign (aodAddress addr) of
        Inl GoPanic \<Rightarrow> Inl GoPanic
      | Inl e \<Rightarrow> signMultiLoop rawSign nRequired addrs nSigned builder
      | Inr sig \<Rightarrow>
          if nSigned + 1 = nRequired then Inr (nSigned + 1, AddData sig builder)
          else signMultiLoop rawSign nRequired addrs (nSigned + 1) (AddData sig builder))"

definition signMultiSig :: "engine_env \<Rightarrow> transaction \<Rightarrow> int \<Rightarrow> int \<Rightarrow> bytes \<Rightarrow> sigHashType \<Rightarrow> AddressOriginalData list \<Rightarrow> int
    \<Rightarrow> script_error + bytes \<times> bool" where
  "signMultiSig E tx mIdx idx subScr hashType addresses nRequired =
     bindS (signMultiLoop (RawTxInSignature E tx mIdx idx subScr hashType) nRequired addresses 0 (AddOp OP_0 NewScriptBuilder))
       (\<lambda>(nSigned, builder). Inr (fst (BuilderScript builder), nSigned = nRequired))"

definition signScript :: "engine_env \<Rightarrow> (address \<Rightarrow> script_error + bytes) \<Rightarrow> transaction \<Rightarrow> int \<Rightarrow> int \<Rightarrow> bytes \<Rightarrow> sigHashType
    \<Rightarrow> script_error + bytes \<times> pk_addrs" where
  "signScript E GetScript tx mIdx idx subScr hashType =
     (case ExtractPkScriptAddrs (envHash E) subScr of
        (_, Some e) \<Rightarrow> Inl e
      | (info, None) \<Rightarrow>
          (let addr0 = aodAddress (pkAddrs info ! 0); result = (\<lambda>r. bindS r (\<lambda>script. Inr (script, info)))
           in (case pkClass info of
                 PubKeyTy \<Rightarrow> result (p2pkSignatureScript E tx mIdx idx subScr hashType addr0)
               | PubKeyHashTy \<Rightarrow>
                   bindS (icGetPubKey (envCrypto E) addr0) (\<lambda>pubkey.
                   result (makeSignatureScript E tx mIdx idx subScr hashType pubkey addr0))
               | ScriptHashTy \<Rightarrow> result (GetScript addr0)
               | ContractHashTy \<Rightarrow> result (GetScript addr0)
               | MultiSigTy \<Rightarrow>
                   bindS (signMultiSig E tx mIdx idx subScr hashType (pkAddrs info) (pkSigs info)) (\<lambda>(script, _).
                   Inr (script, info))
               | NullDataTy \<Rightarrow> Inl (ErrOther ''can't sign NULLDATA transactions'')
               | NonStandardTy \<Rightarrow> Inl (ErrOther ''can't sign unknown transactions''))))"

section \<open>Merging\<close>

definition extractSigs :: "parsedOpcode list \<Rightarrow> bytes list" where
  "extractSigs pops = filter (\<lambda>d. length d \<noteq> 0) (map pop_data pops)"

text \<open>Assign to the string of an address the first signature that verifies under its public key.\<close>

fun matchSigs :: "engine_env \<Rightarrow> parsedOpcode list \<Rightarrow> transaction \<Rightarrow> int \<Rightarrow> int \<Rightarrow> AddressOriginalData list \<Rightarrow> bytes list
    \<Rightarrow> (string \<rightharpoonup> bytes) \<Rightarrow> script_error + (string \<rightharpoonup> bytes)" where
  "matchSigs E pkPops tx mIdx idx addresses [] addrToSig = Inr addrToSig"
| "matchSigs E pkPops tx mIdx idx addresses (sig # sigs) addrToSig =
     (if length sig < 1 then matchSigs E pkPops tx mIdx idx addresses sigs addrToSig
      else
        bindS (calcSignatureData (envRlp E) pkPops (ucast (last sig)) tx mIdx idx) (\<lambda>data.
        case find (\<lambda>addr. icVerify (envCrypto E) (aodOriginal addr) (butlast sig) data) addresses of
          None \<Rightarrow> matchSigs E pkPops tx mIdx idx addresses sigs addrToSig
        | Some addr \<Rightarrow>
            (let aStr = addrStr (envBase58 E) (aodAddress addr)
             in matchSigs E pkPops tx mIdx idx addresses sigs
                  (if addrToSig aStr = None then addrToSig(aStr \<mapsto> sig) else addrToSig))))"

fun collectSigs :: "(address \<Rightarrow> string) \<Rightarrow> (string \<rightharpoonup> bytes) \<Rightarrow> int \<Rightarrow> AddressOriginalData list \<Rightarrow> int \<Rightarrow> script_builder
    \<Rightarrow> int \<times> script_builder" where
  "collectSigs str addrToSig nRequired [] doneSigs builder = (doneSigs, builder)"
| "collectSigs str addrToSig nRequired (addr # addrs) doneSigs builder =
     (case addrToSig (str (aodAddress addr)) of
        None \<Rightarrow> collectSigs str addrToSig nRequired addrs doneSigs builder
      | Some sig \<Rightarrow>
          if doneSigs + 1 = nRequired then (doneSigs + 1, AddData sig builder)
          else collectSigs str addrToSig nRequired addrs (doneSigs + 1) (AddData sig builder))"

definition mergeMultiSig :: "engine_env \<Rightarrow> transaction \<Rightarrow> int \<Rightarrow> int \<Rightarrow> AddressOriginalData list \<Rightarrow> int \<Rightarrow> bytes \<Rightarrow> bytes \<Rightarrow> bytes
    \<Rightarrow> script_error + bytes" where
  "mergeMultiSig E tx mIdx idx addresses nRequired pkScript sigScript prevScript =
     (let pkPops = fst (parseScript pkScript)
      in case parseScript sigScript of (sigPops, err) \<Rightarrow>
         if err \<noteq> None \<or> length sigPops = 0 then Inr prevScript
         else case parseScript prevScript of (prevPops, err) \<Rightarrow>
           if err \<noteq> None \<or> length prevPops = 0 then Inr sigScript
           else
             bindS (matchSigs E pkPops tx mIdx idx addresses (extractSigs sigPops @ extractSigs prevPops) Map.empty) (\<lambda>addrToSig.
             case collectSigs (addrStr (envBase58 E)) addrToSig nRequired addresses 0 (AddOp OP_0 NewScriptBuilder) of
               (doneSigs, builder) \<Rightarrow> Inr (fst (BuilderScript ((AddOp OP_0 ^^ nat (nRequired - doneSigs)) builder)))))"

partial_function (option) mergeScripts :: "engine_env \<Rightarrow> transaction \<Rightarrow> int \<Rightarrow> int \<Rightarrow> bytes \<Rightarrow> pk_addrs \<Rightarrow> bytes \<Rightarrow> bytes
    \<Rightarrow> (script_error + bytes) option" where
  "mergeScripts E tx mIdx idx pkScript info sigScript prevScript =
     (case pkClass info of
        ScriptHashTy \<Rightarrow>
          (case parseScript sigScript of (sigPops, err) \<Rightarrow>
           if err \<noteq> None \<or> length sigPops = 0 then Some (Inr prevScript)
           else case parseScript prevScript of (prevPops, err) \<Rightarrow>
             if err \<noteq> None \<or> length prevPops = 0 then Some (Inr sigScript)
             else
               (let script = pop_data (last sigPops);
                    info' = fst (ExtractPkScriptAddrs (envHash E) script);
                    sigScript' = (case unparseScript sigPops of Inl e \<Rightarrow> [] | Inr s \<Rightarrow> s);
                    prevScript' = (case unparseScript prevPops of Inl e \<Rightarrow> [] | Inr s \<Rightarrow> s)
                in Option.bind (mergeScripts E tx mIdx idx script info' sigScript' prevScript') (\<lambda>merged.
                   Some (bindS merged (\<lambda>mergedScript.
                     Inr (fst (BuilderScript (AddData script (NewScriptBuilder\<lparr>bscript := mergedScript\<rparr>)))))))))
      | MultiSigTy \<Rightarrow> Some (mergeMultiSig E tx mIdx idx (pkAddrs info) (pkSigs info) pkScript sigScript prevScript)
      | _ \<Rightarrow> Some (Inr (if length sigScript > length prevScript then sigScript else prevScript)))"

definition SignTxOutput :: "engine_env \<Rightarrow> (address \<Rightarrow> script_error + bytes) \<Rightarrow> transaction \<Rightarrow> int \<Rightarrow> int \<Rightarrow> bytes \<Rightarrow> sigHashType \<Rightarrow> bytes
    \<Rightarrow> (script_error + bytes) option" where
  "SignTxOutput E GetScript tx mIdx idx pkScript hashType previousScript =
     (case signScript E GetScript tx mIdx idx pkScript hashType of
        Inl e \<Rightarrow> Some (Inl e)
      | Inr (sigScript, info) \<Rightarrow>
          (case (if pkClass info = ScriptHashTy \<or> pkClass info = ContractHashTy
                 then bindS (signScript E GetScript tx mIdx idx sigScript hashType) (\<lambda>(realSigScript, _).
                        Inr (fst (BuilderScript (AddData sigScript (NewScriptBuilder\<lparr>bscript := realSigScript\<rparr>)))))
                 else Inr sigScript) of
             Inl e \<Rightarrow> Some (Inl e)
           | Inr sigScript \<Rightarrow> mergeScripts E tx mIdx idx pkScript info sigScript previousScript))"

section \<open>When merging returns\<close>

text \<open>
  The scripts that are merged inside a pay-to-script-hash output: the redeem script with the unlock
  scripts as they came, since parsing and unparsing give them back.
\<close>

definition redeemOf :: "bytes \<Rightarrow> bytes" where
  "redeemOf sigScript = pop_data (last (fst (parseScript sigScript)))"

definition parsesNonempty :: "bytes \<Rightarrow> bool" where
  "parsesNonempty s \<longleftrightarrow> snd (parseScript s) = None \<and> fst (parseScript s) \<noteq> []"

lemma parsesNonempty_unparse: "parsesNonempty s \<Longrightarrow> unparseScript (fst (parseScript s)) = Inr s"
  using parseScript_iff [of s "fst (parseScript s)"] by (metis parsesNonempty_def prod.collapse)

lemma mergeScripts_redeem:
  assumes "pkClass info = ScriptHashTy" and "parsesNonempty sigScript" and "parsesNonempty prevScript"
  shows "mergeScripts E tx mIdx idx pkScript info sigScript prevScript =
    Option.bind (mergeScripts E tx mIdx idx (redeemOf sigScript)
      (fst (ExtractPkScriptAddrs (envHash E) (redeemOf sigScript))) sigScript prevScript) (\<lambda>merged.
      Some (bindS merged (\<lambda>mergedScript.
        Inr (fst (BuilderScript (AddData (redeemOf sigScript) (NewScriptBuilder\<lparr>bscript := mergedScript\<rparr>)))))))"
  using assms parsesNonempty_unparse [OF assms(2)] parsesNonempty_unparse [OF assms(3)]
  by (subst mergeScripts.simps) (simp add: parsesNonempty_def redeemOf_def case_prod_beta Let_def)

lemma mergeScripts_other:
  assumes "pkClass info \<noteq> ScriptHashTy \<or> \<not> parsesNonempty sigScript \<or> \<not> parsesNonempty prevScript"
  shows "mergeScripts E tx mIdx idx pkScript info sigScript prevScript \<noteq> None"
  using assms
  by (subst mergeScripts.simps) (auto simp: parsesNonempty_def case_prod_beta Let_def split: ScriptClass.splits)

text \<open>Merging a redeem script that is again a pay-to-script-hash script calls itself with the same arguments.\<close>

lemma mergeScripts_diverges:
  assumes "mergeScripts E tx mIdx idx pkScript info sigScript prevScript = Some r"
    and "pkClass info = ScriptHashTy" and "parsesNonempty sigScript" and "parsesNonempty prevScript"
  shows "pkClass (fst (ExtractPkScriptAddrs (envHash E) (redeemOf sigScript))) \<noteq> ScriptHashTy"
  using assms
proof (induction rule: mergeScripts.raw_induct [rotated, consumes 1])
  case (1 merge E tx mIdx idx pkScript info sigScript prevScript r)
  let ?redeem = "redeemOf sigScript" and ?info = "fst (ExtractPkScriptAddrs (envHash E) (redeemOf sigScript))"
  have "Option.bind (merge E tx mIdx idx ?redeem ?info sigScript prevScript) (\<lambda>merged. Some (bindS merged (\<lambda>m.
      Inr (fst (BuilderScript (AddData ?redeem (NewScriptBuilder\<lparr>bscript := m\<rparr>))))))) = Some r"
    using 1(2-5) parsesNonempty_unparse [OF 1(4)] parsesNonempty_unparse [OF 1(5)]
    by (simp add: parsesNonempty_def redeemOf_def case_prod_beta Let_def)
  then obtain r' where "merge E tx mIdx idx ?redeem ?info sigScript prevScript = Some r'"
    by (cases "merge E tx mIdx idx ?redeem ?info sigScript prevScript") simp_all
  then show ?case
    using 1(1) 1(4,5) by blast
qed

section \<open>Properties\<close>

text \<open>
  C18. Merging two partial unlock scripts returns unless the output is pay-to-script-hash, both scripts
  parse and are not empty, and the redeem script that the new one carries is itself a
  pay-to-script-hash script; in that case the recursion has the same arguments every time and never ends.
\<close>

theorem mergeScripts_returns_iff:
  "(\<exists>r. mergeScripts E tx mIdx idx pkScript info sigScript prevScript = Some r) \<longleftrightarrow>
    \<not> (pkClass info = ScriptHashTy \<and> parsesNonempty sigScript \<and> parsesNonempty prevScript
       \<and> pkClass (fst (ExtractPkScriptAddrs (envHash E) (redeemOf sigScript))) = ScriptHashTy)"
    (is "?returns \<longleftrightarrow> \<not> ?loops")
proof
  show "?returns \<Longrightarrow> \<not> ?loops"
    using mergeScripts_diverges by blast
  show "?returns" if no: "\<not> ?loops"
  proof (cases "pkClass info = ScriptHashTy \<and> parsesNonempty sigScript \<and> parsesNonempty prevScript")
    case True
    then obtain r where "mergeScripts E tx mIdx idx (redeemOf sigScript)
        (fst (ExtractPkScriptAddrs (envHash E) (redeemOf sigScript))) sigScript prevScript = Some r"
      using mergeScripts_other no by blast
    then show ?thesis
      using True by (simp add: mergeScripts_redeem)
  next
    case False
    then show ?thesis
      using mergeScripts_other by blast
  qed
qed

end
