(* ===== verification/Disasm.thy ===== *)
theory Disasm
  imports Standard
begin

text \<open>
  Scripts as text: the disassembly of \<open>src/tokenengine/internal/txscript\<close> (\<open>parsedOpcode.print\<close> of
  \<open>opcode.go\<close> and \<open>DisasmString\<close> of \<open>script.go\<close>) and what the sources use of the packages \<open>encoding/hex\<close>
  and \<open>strings\<close> to read it back.
\<close>

section \<open>Hexadecimal text\<close>

definition hexDigit :: "nat \<Rightarrow> char" where
  "hexDigit n = ''0123456789abcdef'' ! n"

definition hexByte :: "byte \<Rightarrow> string" where
  "hexByte b = [hexDigit (unat b div 16), hexDigit (unat b mod 16)]"

definition hexString :: "bytes \<Rightarrow> string" where
  "hexString bs = concat (map hexByte bs)"

definition fromHexChar :: "char \<Rightarrow> nat option" where
  "fromHexChar c =
     (let n = of_char c :: nat
      in if 48 \<le> n \<and> n \<le> 57 then Some (n - 48)
         else if 97 \<le> n \<and> n \<le> 102 then Some (n - 97 + 10)
         else if 65 \<le> n \<and> n \<le> 70 then Some (n - 65 + 10)
         else None)"

text \<open>\<open>hex.DecodeString\<close> with its error ignored: the bytes before the first character that does not fit.\<close>

fun hexDecode :: "string \<Rightarrow> bytes" where
  "hexDecode (p # q # cs) =
     (case (fromHexChar p, fromHexChar q) of
        (Some a, Some b) \<Rightarrow> word_of_nat (a * 16 + b) # hexDecode cs
      | _ \<Rightarrow> [])"
| "hexDecode _ = []"

section \<open>Fields of a string\<close>

text \<open>\<open>strings.Split\<close> at single spaces, and \<open>strings.Fields\<close>, which has no empty fields (the texts here have no other white space).\<close>

fun splitSpaces :: "string \<Rightarrow> string list" where
  "splitSpaces [] = [[]]"
| "splitSpaces (c # cs) =
     (if c = CHR '' '' then [] # splitSpaces cs
      else case splitSpaces cs of [] \<Rightarrow> [[c]] | f # fs \<Rightarrow> (c # f) # fs)"

definition fieldsOf :: "string \<Rightarrow> string list" where
  "fieldsOf s = filter (\<lambda>f. f \<noteq> []) (splitSpaces s)"

section \<open>Disassembly\<close>

definition opcodeOnelineRepls :: "(string \<times> string) list" where
  "opcodeOnelineRepls =
     [(''OP_1NEGATE'', ''-1''), (''OP_0'', ''0''), (''OP_1'', ''1''), (''OP_2'', ''2''), (''OP_3'', ''3''),
      (''OP_4'', ''4''), (''OP_5'', ''5''), (''OP_6'', ''6''), (''OP_7'', ''7''), (''OP_8'', ''8''), (''OP_9'', ''9''),
      (''OP_10'', ''10''), (''OP_11'', ''11''), (''OP_12'', ''12''), (''OP_13'', ''13''), (''OP_14'', ''14''),
      (''OP_15'', ''15''), (''OP_16'', ''16'')]"

text \<open>A length in hexadecimal with leading zeros to a width of at least \<open>w\<close> digits.\<close>

fun hexNat :: "nat \<Rightarrow> string" where
  "hexNat n = (if n < 16 then [hexDigit n] else hexNat (n div 16) @ [hexDigit (n mod 16)])"

definition hexPadded :: "nat \<Rightarrow> nat \<Rightarrow> string" where
  "hexPadded w n = replicate (w - length (hexNat n)) (CHR ''0'') @ hexNat n"

definition popPrint :: "bool \<Rightarrow> parsedOpcode \<Rightarrow> string" where
  "popPrint oneline pop =
     (let opcodeName = oname (popcode pop)
      in if oneline then
           (if olength (popcode pop) = 1
            then (case map_of opcodeOnelineRepls opcodeName of Some replName \<Rightarrow> replName | None \<Rightarrow> opcodeName)
            else hexString (pop_data pop))
         else if olength (popcode pop) = 1 then opcodeName
         else
           (let retString =
              (if olength (popcode pop) = -1 then opcodeName @ '' 0x'' @ hexPadded 2 (length (pop_data pop))
               else if olength (popcode pop) = -2 then opcodeName @ '' 0x'' @ hexPadded 4 (length (pop_data pop))
               else if olength (popcode pop) = -4 then opcodeName @ '' 0x'' @ hexPadded 8 (length (pop_data pop))
               else opcodeName)
            in retString @ '' 0x'' @ (if pop_data pop = [] then ''00'' else hexString (pop_data pop))))"

definition DisasmString :: "bytes \<Rightarrow> string \<times> script_error option" where
  "DisasmString buf =
     (case parseScript buf of (opcodes, err) \<Rightarrow>
        (let disbuf = concat (map (\<lambda>pop. popPrint True pop @ '' '') opcodes);
             disbuf = (if length disbuf > 0 then butlast disbuf else disbuf)
         in (if err \<noteq> None then disbuf @ ''[error]'' else disbuf, err)))"

section \<open>Reading the text back\<close>

lemma hexDigit_inverse: "n < 16 \<Longrightarrow> fromHexChar (hexDigit n) = Some n"
proof -
  have "\<forall>n\<in>set [0..<16]. fromHexChar (hexDigit n) = Some n"
    by code_simp
  then show "n < 16 \<Longrightarrow> fromHexChar (hexDigit n) = Some n"
    by simp
qed

lemma hexDigit_visible: "n < 16 \<Longrightarrow> hexDigit n \<noteq> CHR '' ''"
  using hexDigit_inverse [of n] by (auto simp: fromHexChar_def)

lemma unat_byte_digits: "unat (b :: byte) div 16 < 16"
  using unsigned_less [of b, where ?'a = nat] by (simp add: less_mult_imp_div_less)

lemma hexDecode_hexString [simp]: "hexDecode (hexString bs) = bs"
proof (induction bs)
  case (Cons b bs)
  have "word_of_nat (unat b div 16 * 16 + unat b mod 16) = b"
    by simp
  then show ?case
    using Cons unat_byte_digits [of b] by (simp add: hexString_def hexByte_def hexDigit_inverse)
qed (simp add: hexString_def)

lemma hexString_visible: "CHR '' '' \<notin> set (hexString bs)"
proof (induction bs)
  case (Cons b bs)
  then show ?case
    using hexDigit_visible [of "unat b div 16"] hexDigit_visible [of "unat b mod 16"] unat_byte_digits [of b]
    by (auto simp: hexString_def hexByte_def)
qed (simp add: hexString_def)

lemma hexString_length [simp]: "length (hexString bs) = 2 * length bs"
  by (induction bs) (simp_all add: hexString_def hexByte_def)

lemma splitSpaces_nonempty [simp]: "splitSpaces s \<noteq> []"
  by (induction s) (auto split: list.splits)

lemma splitSpaces_visible: "CHR '' '' \<notin> set s \<Longrightarrow> splitSpaces s = [s]"
  by (induction s) auto

lemma splitSpaces_append:
  "CHR '' '' \<notin> set f \<Longrightarrow> splitSpaces (f @ CHR '' '' # s) = f # splitSpaces s"
  by (induction f) auto

text \<open>The words of a line: joined by single spaces, splitting gives them back.\<close>

fun joinSpaces :: "string list \<Rightarrow> string" where
  "joinSpaces [] = []"
| "joinSpaces [w] = w"
| "joinSpaces (w # ws) = w @ CHR '' '' # joinSpaces ws"

lemma joinSpaces_eq:
  assumes "ws \<noteq> []"
  shows "joinSpaces ws @ '' '' = concat (map (\<lambda>w. w @ '' '') ws)"
  using assms by (induction ws rule: joinSpaces.induct) simp_all

lemma splitSpaces_joinSpaces:
  assumes "ws \<noteq> []" and "list_all (\<lambda>w. CHR '' '' \<notin> set w) ws"
  shows "splitSpaces (joinSpaces ws) = ws"
  using assms by (induction ws rule: joinSpaces.induct) (simp_all add: splitSpaces_append splitSpaces_visible)

lemma DisasmString_parsed:
  assumes "parseScript s = (pops, None)" and "pops \<noteq> []"
  shows "DisasmString s = (joinSpaces (map (popPrint True) pops), None)"
proof -
  have "concat (map (\<lambda>pop. popPrint True pop @ '' '') pops) = joinSpaces (map (popPrint True) pops) @ '' ''"
    using joinSpaces_eq [of "map (popPrint True) pops"] assms(2) by (simp add: comp_def)
  then show ?thesis
    using assms by (simp add: DisasmString_def Let_def)
qed

lemma popPrint_push:
  "olength (popcode pop) \<noteq> 1 \<Longrightarrow> popPrint True pop = hexString (pop_data pop)"
  by (simp add: popPrint_def)

lemma popPrint_pushPop:
  assumes "1 < length data"
  shows "popPrint True (pushPop data) = hexString data"
proof -
  have "olength (popcode (pushPop data)) \<noteq> 1 \<and> pop_data (pushPop data) = data"
  proof (cases rule: push_cases [of data])
    case direct
    then show ?thesis
      using direct_opcode [of "length data"] assms by (auto simp: pushPop_direct pop_data_def)
  qed (use assms in \<open>auto simp: pushPop_def pop_data_def olength_opcodeAt\<close>)
  then show ?thesis
    by (simp add: popPrint_push)
qed

end
