(* ===== verification/TokenEngine.thy ===== *)
theory TokenEngine
  imports Spend Sign Disasm "HOL-Library.List_Lexorder" "HOL-Library.Multiset"
begin

text \<open>
  The token engine that the rest of the node calls: \<open>src/tokenengine/api.go\<close>. Its state is the signature
  cache that all validations share, which is passed in and out. The methods that take the accounts' callbacks
  put them into the crypto provider of the environment, as the Go type \<open>account\<close> does; the others use an
  empty account, of which only hashing and verifying are ever called.
\<close>

section \<open>Lock scripts and addresses\<close>

definition GenerateP2PKHLockScript :: "bytes \<Rightarrow> bytes" where
  "GenerateP2PKHLockScript pubKeyHash =
     fst (BuilderScript (AddOp OP_CHECKSIG (AddOp OP_EQUALVERIFY (AddData pubKeyHash (AddOp OP_HASH160 (AddOp OP_DUP NewScriptBuilder))))))"

definition GenerateP2SHLockScript :: "bytes \<Rightarrow> bytes" where
  "GenerateP2SHLockScript redeemScriptHash =
     fst (BuilderScript (AddOp OP_EQUAL (AddData redeemScriptHash (AddOp OP_HASH160 NewScriptBuilder))))"

definition GenerateP2CHLockScript :: "address \<Rightarrow> bytes" where
  "GenerateP2CHLockScript contractId =
     fst (BuilderScript (AddOp OP_JURY_REDEEM_EQUAL (AddData (addrBytes contractId) NewScriptBuilder)))"

definition GetAddressFromScript :: "'a hash_lib_scheme \<Rightarrow> bytes \<Rightarrow> script_error + address" where
  "GetAddressFromScript L lockScript =
     (case ExtractPkScriptAddrs L lockScript of
        (_, Some e) \<Rightarrow> Inl e
      | (info, None) \<Rightarrow>
          if pkClass info = NonStandardTy then Inr (replicate AddressLength 0)
          else if length (pkAddrs info) \<noteq> 1 then Inr (replicate AddressLength 0)
          else Inr (aodAddress (pkAddrs info ! 0)))"

definition PubkeyBytesToAddress :: "'a hash_lib_scheme \<Rightarrow> bytes \<Rightarrow> address" where
  "PubkeyBytesToAddress L pubKey =
     (if length pubKey = 0 then replicate AddressLength 0 else NewAddress (Hash160 L pubKey) PublicKeyHash)"

definition ScriptToAddress :: "'a hash_lib_scheme \<Rightarrow> bytes \<Rightarrow> address" where
  "ScriptToAddress L redeemScript = NewAddress (Hash160 L redeemScript) ScriptHash"

definition GetAddressFromUnlockScript :: "'a hash_lib_scheme \<Rightarrow> bytes \<Rightarrow> script_error + address" where
  "GetAddressFromUnlockScript L unlockScript =
     (case DisasmString unlockScript of
        (_, Some e) \<Rightarrow> Inl e
      | (scriptStr, None) \<Rightarrow>
          (let scriptArray = splitSpaces scriptStr
           in if length scriptArray = 2 then Inr (PubkeyBytesToAddress L (hexDecode (scriptArray ! 1)))
              else if length scriptArray < 2 then Inl (ErrOther ''invalid unlock script'')
              else Inr (ScriptToAddress L (hexDecode (last scriptArray)))))"

text \<open>
  \<open>PubKey4Sort\<close> orders byte strings from the largest to the smallest. \<open>sort.Sort\<close> is not stable, but strings
  that compare equal are equal, so the result is the one sorted permutation; it replaces the caller's slice.
\<close>

definition PubKey4Sort_Less :: "bytes \<Rightarrow> bytes \<Rightarrow> bool" where
  "PubKey4Sort_Less a b = (bytesCompare a b > 0)"

fun insertKey :: "bytes \<Rightarrow> bytes list \<Rightarrow> bytes list" where
  "insertKey k [] = [k]"
| "insertKey k (x # xs) = (if PubKey4Sort_Less x k then x # insertKey k xs else k # x # xs)"

definition sortKeys :: "bytes list \<Rightarrow> bytes list" where
  "sortKeys keys = foldr insertKey keys []"

definition GenerateRedeemScript :: "byte \<Rightarrow> bytes list \<Rightarrow> bytes \<times> bytes list" where
  "GenerateRedeemScript needed pubKeys =
     (if needed = 0 then ([], pubKeys)
      else if length pubKeys = 1 then
        (fst (BuilderScript (AddOp OP_CHECKSIG (AddData (pubKeys ! 0) NewScriptBuilder))), pubKeys)
      else
        (let pubKeys = sortKeys pubKeys
         in (fst (BuilderScript (AddOp OP_CHECKMULTISIG (AddOp (word_of_nat (length pubKeys + 80))
               (fold AddData pubKeys (AddOp (needed + 80) NewScriptBuilder))))), pubKeys)))"

definition GenerateLockScript :: "address \<Rightarrow> bytes" where
  "GenerateLockScript addr = fst (PayToAddrScript addr)"

definition GenerateP2PKHUnlockScript :: "bytes \<Rightarrow> bytes \<Rightarrow> bytes" where
  "GenerateP2PKHUnlockScript sig pubKey = fst (BuilderScript (AddData pubKey (AddData sig NewScriptBuilder)))"

definition MergeContractUnlockScript :: "bytes list \<Rightarrow> bytes \<Rightarrow> bytes" where
  "MergeContractUnlockScript signs redeemScript =
     fst (BuilderScript (AddData redeemScript (fold (\<lambda>sig b. AddData (sig @ [4]) b) signs (AddOp OP_0 NewScriptBuilder))))"

section \<open>Validation\<close>

definition StandardVerifyExcludeSignFlags :: uint32 where
  "StandardVerifyExcludeSignFlags = ScriptBip16 OR ScriptVerifyMinimalData OR ScriptStrictMultiSig
     OR ScriptDiscourageUpgradableNops OR ScriptVerifyCleanStack OR ScriptVerifyCheckLockTimeVerify"

text \<open>
  The transaction a payment is validated in: for a contract transaction whose payment stands before any
  request message, the request part of it.
\<close>

fun pickTx :: "transaction \<Rightarrow> int \<Rightarrow> message list \<Rightarrow> int \<Rightarrow> bool \<Rightarrow> transaction \<Rightarrow> script_error + transaction" where
  "pickTx tx mIdx [] idx isRequestMsg txCopy = Inr txCopy"
| "pickTx tx mIdx (msg # msgs) idx isRequestMsg txCopy =
     (let isRequestMsg = (IsRequest (App msg) \<or> isRequestMsg)
      in if idx = mIdx \<and> \<not> isRequestMsg
         then bindS (GetRequestTx tx) (\<lambda>reqTx. pickTx tx mIdx msgs (idx + 1) isRequestMsg reqTx)
         else pickTx tx mIdx msgs (idx + 1) isRequestMsg txCopy)"

definition unlockTx :: "script_error + message list \<Rightarrow> transaction \<Rightarrow> transaction \<Rightarrow> int \<Rightarrow> script_error + transaction" where
  "unlockTx messages txCopy tx mIdx =
     (if IsContractTx tx then bindS messages (\<lambda>msgs. pickTx tx mIdx msgs 0 False txCopy) else Inr txCopy)"

definition runEngine :: "engine_env \<Rightarrow> sig_cache \<Rightarrow> bytes \<Rightarrow> transaction \<Rightarrow> int \<Rightarrow> int \<Rightarrow> (script_error + unit) \<times> sig_cache" where
  "runEngine E signCache utxoLockScript tx mIdx inputIndex =
     (case NewEngine utxoLockScript tx mIdx inputIndex StandardVerifyExcludeSignFlags (Some signCache) of
        Inl e \<Rightarrow> (Inl e, signCache)
      | Inr vm \<Rightarrow>
          (case Execute E vm of (r, vm') \<Rightarrow> (r, case sigCache vm' of None \<Rightarrow> signCache | Some c \<Rightarrow> c)))"

definition ScriptValidate :: "engine_env \<Rightarrow> sig_cache \<Rightarrow> bytes \<Rightarrow> transaction \<Rightarrow> int \<Rightarrow> int \<Rightarrow> (script_error + unit) \<times> sig_cache" where
  "ScriptValidate E signCache utxoLockScript tx mIdx inputIndex =
     (case unlockTx (TxMessagesCopy tx) (txClone (envRlp E) tx) tx mIdx of
        Inl e \<Rightarrow> (Inl e, signCache)
      | Inr txCopy \<Rightarrow> runEngine E signCache utxoLockScript txCopy mIdx inputIndex)"

fun decString :: "nat \<Rightarrow> string" where
  "decString n = (if n < 10 then [hexDigit n] else decString (n div 10) @ [hexDigit (n mod 10)])"

definition outPointString :: "outPoint \<Rightarrow> string" where
  "outPointString op = ''Outpoint[TxId:{'' @ hexString (TxHash op) @ ''},MsgIdx:{'' @ decString (unat (MessageIndex op))
     @ ''},OutIdx:{'' @ decString (unat (OutIndex op)) @ ''}]''"

fun validateInputs :: "engine_env \<Rightarrow> (string \<rightharpoonup> bytes) \<Rightarrow> transaction \<Rightarrow> int \<Rightarrow> int \<Rightarrow> txInput list \<Rightarrow> sig_cache
    \<Rightarrow> (script_error + unit) \<times> sig_cache" where
  "validateInputs E utxoLockScripts txCopy mIdx inputIndex [] signCache = (Inr (), signCache)"
| "validateInputs E utxoLockScripts txCopy mIdx inputIndex (input # inputs) signCache =
     (case PreviousOutPoint input of
        None \<Rightarrow> (Inl GoPanic, signCache)
      | Some op \<Rightarrow>
          (let utxoLockScript = (case utxoLockScripts (outPointString op) of None \<Rightarrow> [] | Some s \<Rightarrow> s)
           in case runEngine E signCache utxoLockScript txCopy mIdx inputIndex of
                (Inl e, c) \<Rightarrow> (Inl e, c)
              | (Inr _, c) \<Rightarrow> validateInputs E utxoLockScripts txCopy mIdx (inputIndex + 1) inputs c))"

definition ScriptValidate1Msg :: "engine_env \<Rightarrow> sig_cache \<Rightarrow> (string \<rightharpoonup> bytes) \<Rightarrow> transaction \<Rightarrow> int
    \<Rightarrow> (script_error + unit) \<times> sig_cache" where
  "ScriptValidate1Msg E signCache utxoLockScripts tx mIdx =
     (let tx = snd (HashTx (envRlp E) tx)
      in case bindS (unlockTx (Inr (TxMessages tx)) tx tx mIdx) (\<lambda>txCopy. bindS (paymentOf tx mIdx) (\<lambda>pay. Inr (txCopy, pay))) of
           Inl e \<Rightarrow> (Inl e, signCache)
         | Inr (txCopy, pay) \<Rightarrow> validateInputs E utxoLockScripts txCopy mIdx 0 (Inputs pay) signCache)"

section \<open>Signing\<close>

definition account :: "engine_env \<Rightarrow> (address \<Rightarrow> script_error + bytes) \<Rightarrow> (address \<Rightarrow> bytes \<Rightarrow> script_error + bytes) \<Rightarrow> engine_env" where
  "account E pubKeyFn signFn = E\<lparr>envCrypto := (envCrypto E)\<lparr>icSign := signFn, icGetPubKey := pubKeyFn\<rparr>\<rparr>"

definition MultiSignOnePaymentInput :: "engine_env \<Rightarrow> transaction \<Rightarrow> sigHashType \<Rightarrow> int \<Rightarrow> int \<Rightarrow> bytes \<Rightarrow> bytes
    \<Rightarrow> (address \<Rightarrow> script_error + bytes) \<Rightarrow> (address \<Rightarrow> bytes \<Rightarrow> script_error + bytes) \<Rightarrow> bytes \<Rightarrow> (script_error + bytes) option" where
  "MultiSignOnePaymentInput E tx hashType mIdx idx utxoLockScript redeemScript pubKeyFn signFn previousScript =
     SignTxOutput (account E pubKeyFn signFn) (\<lambda>a. Inr redeemScript) tx mIdx idx utxoLockScript hashType previousScript"

definition CalcSignatureHashOf :: "engine_env \<Rightarrow> transaction \<Rightarrow> sigHashType \<Rightarrow> int \<Rightarrow> int \<Rightarrow> bytes \<Rightarrow> script_error + bytes" where
  "CalcSignatureHashOf E tx hashType mIdx inputIdx lockOrRedeemScript =
     CalcSignatureHash (envRlp E) (\<lambda>d. case icHash (envCrypto E) d of Inl _ \<Rightarrow> [] | Inr h \<Rightarrow> h) lockOrRedeemScript hashType tx mIdx inputIdx"

record signatureError =
  seInputIndex :: uint32
  seMsgIndex :: uint32
  seError :: script_error

text \<open>
  Signing goes through the messages and inputs of the transaction and updates it after each signature.
  A result is a panic, or what the function returned early if it did, with the transaction as it is then; \<open>None\<close>
  stands for a call of \<open>SignTxOutput\<close> that never returns.
\<close>

type_synonym sign_result = "(script_error + (signatureError list \<times> script_error option) option \<times> transaction) option"

fun signInputs :: "engine_env \<Rightarrow> (address \<Rightarrow> script_error + bytes) \<Rightarrow> (outPoint \<rightharpoonup> bytes) \<Rightarrow> sigHashType \<Rightarrow> nat \<Rightarrow> message
    \<Rightarrow> nat list \<Rightarrow> paymentPayload \<Rightarrow> transaction \<Rightarrow> sign_result" where
  "signInputs E GetScript utxoLockScripts hashType i msg [] pay tx = Some (Inr (None, tx))"
| "signInputs E GetScript utxoLockScripts hashType i msg (j # js) pay tx =
     (let input = Inputs pay ! j
      in if length (SignatureScript input) > 0 then signInputs E GetScript utxoLockScripts hashType i msg js pay tx
         else case PreviousOutPoint input of
           None \<Rightarrow> Some (Inl GoPanic)
         | Some op \<Rightarrow>
             (case utxoLockScripts op of
                None \<Rightarrow> Some (Inr (Some ([], Some (ErrOther ''utxo not found'')), tx))
              | Some checkscript \<Rightarrow>
                  if hashType AND SigHashSingle \<noteq> SigHashSingle \<or> j < length (Outputs pay) then
                    (case SignTxOutput E GetScript tx (int i) (int j) checkscript hashType (SignatureScript input) of
                       None \<Rightarrow> None
                     | Some (Inl GoPanic) \<Rightarrow> Some (Inl GoPanic)
                     | Some (Inl e) \<Rightarrow>
                         Some (Inr (Some ([\<lparr>seInputIndex = word_of_nat j, seMsgIndex = word_of_nat i, seError = e\<rparr>], Some e), tx))
                     | Some (Inr sigScript) \<Rightarrow>
                         (let pay = pay\<lparr>Inputs := (Inputs pay)[j := input\<lparr>SignatureScript := sigScript\<rparr>]\<rparr>
                          in signInputs E GetScript utxoLockScripts hashType i msg js pay
                               (ModifiedMsg (envRlp E) i (msg\<lparr>Payload := PayPayment pay\<rparr>) tx)))
                  else signInputs E GetScript utxoLockScripts hashType i msg js pay tx))"

fun signMessages :: "engine_env \<Rightarrow> (address \<Rightarrow> script_error + bytes) \<Rightarrow> (outPoint \<rightharpoonup> bytes) \<Rightarrow> sigHashType \<Rightarrow> int \<Rightarrow> nat
    \<Rightarrow> message list \<Rightarrow> transaction \<Rightarrow> sign_result" where
  "signMessages E GetScript utxoLockScripts hashType mIdx i [] tx = Some (Inr (None, tx))"
| "signMessages E GetScript utxoLockScripts hashType mIdx i (msg # msgs) tx =
     (if (int i = mIdx \<or> mIdx = -1) \<and> App msg = APP_PAYMENT then
        (case Payload msg of
           PayPayment pay \<Rightarrow>
             (case signInputs E GetScript utxoLockScripts hashType i msg [0..<length (Inputs pay)] pay tx of
                Some (Inr (None, tx')) \<Rightarrow> signMessages E GetScript utxoLockScripts hashType mIdx (Suc i) msgs tx'
              | r \<Rightarrow> r)
         | _ \<Rightarrow> Some (Inr (Some ([], Some (ErrOther ''Invalid payment message'')), tx)))
      else signMessages E GetScript utxoLockScripts hashType mIdx (Suc i) msgs tx)"

definition SignTx1MsgPaymentInput :: "engine_env \<Rightarrow> transaction \<Rightarrow> int \<Rightarrow> sigHashType \<Rightarrow> (outPoint \<rightharpoonup> bytes) \<Rightarrow> bytes
    \<Rightarrow> (address \<Rightarrow> script_error + bytes) \<Rightarrow> (address \<Rightarrow> bytes \<Rightarrow> script_error + bytes)
    \<Rightarrow> (script_error + (signatureError list \<times> script_error option) \<times> transaction) option" where
  "SignTx1MsgPaymentInput E tx mIdx hashType utxoLockScripts redeemScript pubKeyFn signFn =
     (case TxMessagesCopy tx of
        Inl e \<Rightarrow> Some (Inl e)
      | Inr msgs \<Rightarrow>
          map_option (map_sum id (\<lambda>(ret, tx). (case ret of None \<Rightarrow> ([], None) | Some r \<Rightarrow> r, tx)))
            (signMessages (account E pubKeyFn signFn) (\<lambda>a. Inr redeemScript) utxoLockScripts hashType mIdx 0 msgs tx))"

definition SignTxAllPaymentInput :: "engine_env \<Rightarrow> transaction \<Rightarrow> sigHashType \<Rightarrow> (outPoint \<rightharpoonup> bytes) \<Rightarrow> bytes
    \<Rightarrow> (address \<Rightarrow> script_error + bytes) \<Rightarrow> (address \<Rightarrow> bytes \<Rightarrow> script_error + bytes)
    \<Rightarrow> (script_error + (signatureError list \<times> script_error option) \<times> transaction) option" where
  "SignTxAllPaymentInput E tx hashType utxoLockScripts redeemScript pubKeyFn signFn =
     SignTx1MsgPaymentInput E tx (-1) hashType utxoLockScripts redeemScript pubKeyFn signFn"

section \<open>Signers\<close>

text \<open>The signatures with the last hash type seen, and the public keys of the redeem script, from the words of an unlock script.\<close>

fun signerWords :: "string list \<Rightarrow> (bytes list \<times> byte \<times> bytes list \<times> bytes) \<Rightarrow> script_error + bytes list \<times> byte \<times> bytes list \<times> bytes" where
  "signerWords [] acc = Inr acc"
| "signerWords (op # ops) (signatures, hashType, pubkeys, redeem) =
     (if op = ''0'' then signerWords ops (signatures, hashType, pubkeys, redeem)
      else if ops = [] then
        (let redeem = hexDecode op; rops = fieldsOf (fst (DisasmString redeem))
         in signerWords ops (signatures, hashType, pubkeys @ map hexDecode (drop 1 (take (length rops - 2) rops)), redeem))
      else
        (let s = hexDecode op
         in if s = [] then Inl GoPanic
            else signerWords ops (signatures @ [butlast s], last s, pubkeys, redeem)))"

definition GetScriptSigners :: "engine_env \<Rightarrow> transaction \<Rightarrow> int \<Rightarrow> int \<Rightarrow> script_error + address list" where
  "GetScriptSigners E tx mIdx inputIndex =
     bindS (paymentOf tx mIdx) (\<lambda>pay.
     bindS (idxE (Inputs pay) inputIndex) (\<lambda>input.
     bindS (signerWords (fieldsOf (fst (DisasmString (SignatureScript input)))) ([], 0, [], [])) (\<lambda>(signatures, hashType, pubkeys, redeem).
     case CalcSignatureHashOf E tx (ucast hashType) mIdx inputIndex redeem of
       Inl GoPanic \<Rightarrow> Inl GoPanic
     | r \<Rightarrow>
         (let hash = (case r of Inl _ \<Rightarrow> [] | Inr h \<Rightarrow> h)
          in Inr (concat (map (\<lambda>sig. map (PubkeyBytesToAddress (envHash E)) (filter (\<lambda>pubkey. icVerify (envCrypto E) pubkey sig hash) pubkeys))
               signatures))))))"

section \<open>The engine at the lock script\<close>

text \<open>
  The engine that a validation reaches when the unlock script has pushed its items and the lock script
  is about to run.
\<close>

definition lockVm :: "sig_cache \<Rightarrow> transaction \<Rightarrow> int \<Rightarrow> int \<Rightarrow> bytes list \<Rightarrow> parsedOpcode list \<Rightarrow> engine" where
  "lockVm c t m i ds pk =
     \<lparr>etx = t, dstack = \<lparr>stk = map pushItem ds, verifyMinimalData = True\<rparr>, astack = \<lparr>stk = [], verifyMinimalData = True\<rparr>,
      scripts = [map pushPop ds, pk], condStack = [],
      savedFirstStack = (if isScriptHash pk \<or> isContractHash pk then map pushItem ds else []),
      scriptIdx = 1, scriptOff = 0, lastCodeSep = 0, msgIdx = m, txIdx = i, numOps = 0, sigCache = Some c,
      flags = StandardVerifyExcludeSignFlags, bip16 = isScriptHash pk, p2ch = isContractHash pk\<rparr>"

lemma standard_flags:
  "StandardVerifyExcludeSignFlags AND ScriptBip16 = ScriptBip16"
  "StandardVerifyExcludeSignFlags AND ScriptVerifyMinimalData = ScriptVerifyMinimalData"
  "StandardVerifyExcludeSignFlags AND ScriptVerifyCleanStack = ScriptVerifyCleanStack"
  "StandardVerifyExcludeSignFlags AND ScriptStrictMultiSig = ScriptStrictMultiSig"
  "StandardVerifyExcludeSignFlags AND ScriptVerifySigPushOnly \<noteq> ScriptVerifySigPushOnly"
  "StandardVerifyExcludeSignFlags AND ScriptVerifyDERSignatures \<noteq> ScriptVerifyDERSignatures"
  "StandardVerifyExcludeSignFlags AND ScriptVerifyLowS \<noteq> ScriptVerifyLowS"
  "StandardVerifyExcludeSignFlags AND ScriptVerifyStrictEncoding \<noteq> ScriptVerifyStrictEncoding"
  by (simp_all add: StandardVerifyExcludeSignFlags_def)

lemma isPushOnly_pushes: "isPushOnly (map pushPop ds)"
  using pushPop_push_opcode by (auto simp: isPushOnly_def list_all_iff not_less)

lemma runEngine_unlock:
  assumes "paymentOf t m = Inr pay" and "i < length (Inputs pay)"
    and "parseScript (SignatureScript (Inputs pay ! i)) = (map pushPop ds, None)"
    and "length (SignatureScript (Inputs pay ! i)) \<le> maxScriptSize" and "ds \<noteq> []" and "length ds \<le> 1000"
    and "list_all (\<lambda>d. length d \<le> MaxScriptElementSize) ds"
    and "parseScript lock = (pk, None)" and "length lock \<le> maxScriptSize" and "pk \<noteq> []"
  shows "runEngine E c lock t m (int i) =
    (case Execute E (lockVm c t m (int i) ds pk) of (r, vm') \<Rightarrow> (r, case sigCache vm' of None \<Rightarrow> c | Some c' \<Rightarrow> c'))"
proof -
  let ?vm = "(lockVm c t m (int i) ds pk)\<lparr>dstack := \<lparr>stk = [], verifyMinimalData = True\<rparr>, savedFirstStack := [], scriptIdx := 0\<rparr>"
  have "SignatureScript (Inputs pay ! i) \<noteq> []"
    using assms(3,5) by auto
  then have "NewEngine lock t m (int i) StandardVerifyExcludeSignFlags (Some c) = Inr ?vm"
    using assms isPushOnly_pushes [of ds]
    by (simp add: NewEngine_def parseLimited_def standard_flags Let_def lockVm_def)
  moreover have "Execute E ?vm = Execute E (unlocked (map pushItem ds) ?vm)"
    using assms by (intro Execute_unlock [where pk = pk]) (simp_all add: fresh_def lockVm_def)
  moreover have "unlocked (map pushItem ds) ?vm = lockVm c t m (int i) ds pk"
    by (simp add: unlocked_def lockVm_def)
  ultimately show ?thesis
    by (simp add: runEngine_def)
qed

lemma lockVm_sigMessage:
  assumes "length sig \<noteq> 0"
  shows "sigMessage E (lockVm c t m i ds pk) key sig =
    map_sum id Some (calcSignatureData (envRlp E) (removeOpcodeByData pk sig) (ucast (last sig)) t m i)"
  using assms
  by (simp add: sigMessage_def checkHashTypeEncoding_def checkSignatureEncoding_def checkPubKeyEncoding_def hasFlag_def
      lockVm_def standard_flags subScript_def bindS_def split: sum.splits)

section \<open>Scripts the engine generates\<close>

lemma bytesContains_length: "bytesContains b sub \<Longrightarrow> length sub \<le> length b"
  by (auto simp: bytesContains_iff)

lemma removeSig_p2pkh:
  assumes "length h = 20" and "20 < length sig"
  shows "removeOpcodeByData (p2pkhPops h) sig = p2pkhPops h"
  using assms bytesContains_length [of h sig]
  by (auto simp: removeOpcodeByData_def p2pkhPops_def pop_data_def bytesContains_iff)

lemma lock_p2pkh:
  assumes "length h = 20"
  shows "parseScript (GenerateP2PKHLockScript h) = (p2pkhPops h, None)" "length (GenerateP2PKHLockScript h) = 25"
  using p2pkh_builds [OF assms] by (simp_all add: GenerateP2PKHLockScript_def builds_def BuilderScript_def)

lemma unlock_p2pkh:
  assumes "length sig \<le> MaxScriptElementSize" and "length pk \<le> MaxScriptElementSize"
  shows "parseScript (GenerateP2PKHUnlockScript sig pk) = (map pushPop [sig, pk], None)"
    "length (GenerateP2PKHUnlockScript sig pk) \<le> maxScriptSize"
proof -
  have "builds (0 + canonicalDataSize sig + canonicalDataSize pk) (AddData pk (AddData sig NewScriptBuilder)) (([] @ [pushPop sig]) @ [pushPop pk])"
    using assms canonicalDataSize_bounds [of sig] canonicalDataSize_bounds [of pk]
    by (intro builds_data builds_new) simp_all
  then show "parseScript (GenerateP2PKHUnlockScript sig pk) = (map pushPop [sig, pk], None)"
    "length (GenerateP2PKHUnlockScript sig pk) \<le> maxScriptSize"
    using assms canonicalDataSize_bounds [of sig] canonicalDataSize_bounds [of pk]
    by (simp_all add: GenerateP2PKHUnlockScript_def builds_def BuilderScript_def)
qed

lemma p2pkh_not_hash: "\<not> isScriptHash (p2pkhPops h)" "\<not> isContractHash (p2pkhPops h)"
  by (simp_all add: p2pkhPops_def isScriptHash_def isContractHash_def)

lemma lock_p2sh:
  assumes "length h = 20"
  shows "parseScript (GenerateP2SHLockScript h) = (p2shPops h, None)" "length (GenerateP2SHLockScript h) = 23"
  using p2sh_builds [OF assms] by (simp_all add: GenerateP2SHLockScript_def builds_def BuilderScript_def)

lemma lock_p2ch:
  assumes "wf_addr a"
  shows "parseScript (GenerateP2CHLockScript a) = (p2chPops (addrBytes a), None)" "length (GenerateP2CHLockScript a) = 22"
  using p2ch_builds [OF addrBytes_length [OF assms]] by (simp_all add: GenerateP2CHLockScript_def builds_def BuilderScript_def)

lemma lock_pops [simp]: "p2pkhPops h \<noteq> []" "p2shPops h \<noteq> []" "p2chPops h \<noteq> []"
  by (simp_all add: p2pkhPops_def p2shPops_def p2chPops_def)

lemma hash_pops:
  "isScriptHash (p2shPops h)" "\<not> isContractHash (p2shPops h)" "isContractHash (p2chPops h)" "\<not> isScriptHash (p2chPops h)"
  by (simp_all add: p2shPops_def p2chPops_def isScriptHash_def isContractHash_def)

lemma builds_fold:
  assumes "builds n b pops" and "list_all (\<lambda>d. length d \<le> 520) ds" and "n + 525 * length ds \<le> maxScriptSize"
  shows "\<exists>k \<le> n + 525 * length ds. builds k (fold AddData ds b) (pops @ map pushPop ds)"
  using assms
proof (induction ds arbitrary: n b pops)
  case (Cons d ds)
  have d: "canonicalDataSize d \<le> 525"
    using Cons.prems(2) canonicalDataSize_bounds [of d] by simp
  then have "builds (n + canonicalDataSize d) (AddData d b) (pops @ [pushPop d])"
    using Cons.prems by (intro builds_data) auto
  from Cons.IH [OF this] Cons.prems d
  obtain k where "k \<le> n + canonicalDataSize d + 525 * length ds"
    and "builds k (fold AddData ds (AddData d b)) ((pops @ [pushPop d]) @ map pushPop ds)"
    by auto
  with d show ?case
    by (intro exI [of _ k]) auto
qed auto

lemma unlock_contract:
  assumes "list_all (\<lambda>s. length s < 520) signs" and "length signs \<le> 16" and "length redeem \<le> 520"
  shows "parseScript (MergeContractUnlockScript signs redeem) = (map pushPop ([] # map (\<lambda>s. s @ [4]) signs @ [redeem]), None)"
    "length (MergeContractUnlockScript signs redeem) \<le> maxScriptSize"
proof -
  let ?ds = "map (\<lambda>s. s @ [4]) signs @ [redeem]"
  have "builds 1 (AddOp OP_0 NewScriptBuilder) [op0 OP_0]"
    using builds_op [OF builds_new, of OP_0] by simp
  moreover have "list_all (\<lambda>d. length d \<le> 520) ?ds"
    using assms(1,3) by (simp add: list_all_iff Suc_le_eq)
  ultimately obtain k where "k \<le> 1 + 525 * length ?ds" "builds k (fold AddData ?ds (AddOp OP_0 NewScriptBuilder)) ([op0 OP_0] @ map pushPop ?ds)"
    using builds_fold [of 1 _ "[op0 OP_0]" ?ds] assms(2) by auto
  moreover have "fold AddData (map (\<lambda>s. s @ [4]) signs) b = fold (\<lambda>sig. AddData (sig @ [4])) signs b" for b
    by (simp add: fold_map comp_def)
  ultimately show "parseScript (MergeContractUnlockScript signs redeem) = (map pushPop ([] # map (\<lambda>s. s @ [4]) signs @ [redeem]), None)"
    "length (MergeContractUnlockScript signs redeem) \<le> maxScriptSize"
    using assms(2) by (simp_all add: MergeContractUnlockScript_def BuilderScript_def builds_def pushPop_def)
qed

section \<open>Sorted public keys\<close>

lemma bytesCompare_less: "bytesCompare a b > 0 \<longleftrightarrow> b < a"
  by (induction a b rule: bytesCompare.induct) (auto simp: less_list_code)

lemma insertKey_sorted: "sorted (rev xs) \<Longrightarrow> sorted (rev (insertKey k xs)) \<and> mset (insertKey k xs) = add_mset k (mset xs)"
proof (induction xs)
  case (Cons x xs)
  have "set (insertKey k xs) = insert k (set xs)"
    using Cons by (metis set_mset_add_mset_insert set_mset_mset sorted_append rev.simps(2))
  then show ?case
    using Cons by (auto simp: PubKey4Sort_Less_def bytesCompare_less sorted_append not_less)
qed simp

lemma sortKeys_eq: "sortKeys keys = rev (sort keys)"
proof -
  have "sorted (rev (sortKeys keys)) \<and> mset (sortKeys keys) = mset keys"
    by (induction keys) (auto simp: sortKeys_def dest: insertKey_sorted)
  then have "sort keys = rev (sortKeys keys)"
    by (intro properties_for_sort) simp_all
  then show ?thesis
    by simp
qed

lemma redeem_parse:
  assumes "list_all pubkeyLen keys" and "2 \<le> length keys" and "length keys \<le> 16" and "1 \<le> n" and "n \<le> int (length keys)"
  shows "parseScript (fst (GenerateRedeemScript (word_of_int n) keys)) = (multiSigPops (sortKeys keys) n, None)"
    "length (fst (GenerateRedeemScript (word_of_int n) keys)) \<le> 3 + 66 * length keys"
proof -
  let ?ks = "sortKeys keys"
  have ks: "list_all pubkeyLen ?ks" "length ?ks = length keys"
    using assms(1) by (simp_all add: sortKeys_eq list_all_iff)
  have op: "olength (opcodeAt (80 + word_of_int k)) = 1" if "1 \<le> k" "k \<le> 16" for k
    using small_int_byte [OF that] that by (auto simp: olength_opcodeAt word_le_def word_uint_eq_iff)
  have n: "n \<le> 16" "(word_of_int n :: byte) \<noteq> 0"
    using assms small_word(2) [of n] by auto
  have "builds 1 (AddOp (80 + word_of_int n) NewScriptBuilder) [op0 (80 + word_of_int n)]"
    using builds_op [OF builds_new, of "80 + word_of_int n"] op [of n] assms(4) n by simp
  from builds_keys [OF this ks(1)]
  obtain k where k: "k \<le> 1 + 66 * length keys"
    "builds k (fold AddData ?ks (AddOp (80 + word_of_int n) NewScriptBuilder)) ([op0 (80 + word_of_int n)] @ map pushPop ?ks)"
    using ks assms(3) by auto
  have "builds (Suc (Suc k)) (AddOp OP_CHECKMULTISIG (AddOp (80 + word_of_int (int (length ?ks)))
      (fold AddData ?ks (AddOp (80 + word_of_int n) NewScriptBuilder)))) (multiSigPops ?ks n)"
    using builds_op [OF builds_op [OF k(2), of "80 + word_of_int (int (length ?ks))"], of OP_CHECKMULTISIG]
      op [of "int (length ?ks)"] k(1) ks assms by (simp add: multiSigPops_def)
  moreover have "word_of_nat (length ?ks + 80) = (80 + word_of_int (int (length ?ks)) :: byte)"
    by simp
  ultimately show "parseScript (fst (GenerateRedeemScript (word_of_int n) keys)) = (multiSigPops ?ks n, None)"
    "length (fst (GenerateRedeemScript (word_of_int n) keys)) \<le> 3 + 66 * length keys"
    using n k(1) assms(2) by (simp_all add: GenerateRedeemScript_def Let_def BuilderScript_def builds_def add.commute)
qed

end
