(* ===== verification/TokenProps.thy ===== *)
theory TokenProps
  imports TokenEngine
begin

text \<open>
  What the token engine guarantees about spending: which unlock scripts open the three kinds of outputs,
  what signing produces, and where the shared signature cache and the contract redeem scripts let more through.
\<close>

section \<open>Spending\<close>

text \<open>An input of a transaction as the engine validates it.\<close>

definition spending :: "engine_env \<Rightarrow> transaction \<Rightarrow> int \<Rightarrow> nat \<Rightarrow> transaction \<Rightarrow> bytes \<Rightarrow> bool" where
  "spending E tx m i t s \<longleftrightarrow> unlockTx (TxMessagesCopy tx) (txClone (envRlp E) tx) tx m = Inr t
     \<and> (\<exists>pay. paymentOf t m = Inr pay \<and> i < length (Inputs pay) \<and> SignatureScript (Inputs pay ! i) = s)"

lemma ScriptValidate_unlock:
  assumes "spending E tx m i t s" and "parseScript s = (map pushPop ds, None)" and "length s \<le> maxScriptSize"
    and "ds \<noteq> []" and "length ds \<le> 1000" and "list_all (\<lambda>d. length d \<le> MaxScriptElementSize) ds"
    and "parseScript lock = (pk, None)" and "length lock \<le> maxScriptSize" and "pk \<noteq> []"
  shows "ScriptValidate E c lock tx m (int i) =
    (case Execute E (lockVm c t m (int i) ds pk) of (r, vm') \<Rightarrow> (r, case sigCache vm' of None \<Rightarrow> c | Some c' \<Rightarrow> c'))"
  using assms runEngine_unlock [of t m _ i ds lock pk E c] by (auto simp: ScriptValidate_def spending_def)

lemma p2pkh_validate:
  assumes "spending E tx m i t (GenerateP2PKHUnlockScript sig pk)" and "length h = 20"
    and "20 < length sig" and "length sig \<le> MaxScriptElementSize" and "pk \<noteq> [0]" and "length pk \<le> MaxScriptElementSize"
  shows "fst (ScriptValidate E c (GenerateP2PKHLockScript h) tx m (int i)) = Inr () \<longleftrightarrow>
      Hash160 (envHash E) pk = h \<and>
      (\<exists>data. calcSignatureData (envRlp E) (p2pkhPops h) (ucast (last sig)) t m (int i) = Inr data
         \<and> (cacheExists [] (butlast sig) pk c \<or> icVerify (envCrypto E) pk (butlast sig) data))"
    and "Hash160 (envHash E) pk = h \<Longrightarrow>
      calcSignatureData (envRlp E) (p2pkhPops h) (ucast (last sig)) t m (int i) = Inr data \<Longrightarrow>
      Some (snd (ScriptValidate E c (GenerateP2PKHLockScript h) tx m (int i))) = cacheAfter E (Some c) pk (butlast sig) data"
proof -
  let ?vm = "lockVm c t m (int i) [sig, pk] (p2pkhPops h)"
  have item: "pushItem sig = sig" "pushItem pk = pk"
    using assms(3,5) by (auto simp: pushItem_def)
  have sv: "ScriptValidate E c (GenerateP2PKHLockScript h) tx m (int i) =
    (case Execute E ?vm of (r, vm') \<Rightarrow> (r, case sigCache vm' of None \<Rightarrow> c | Some c' \<Rightarrow> c'))"
    using assms by (intro ScriptValidate_unlock [OF assms(1)])
      (simp_all add: unlock_p2pkh lock_p2pkh p2pkhPops_def)
  have msg: "sigMessage E ?vm pk sig = map_sum id Some (calcSignatureData (envRlp E) (p2pkhPops h) (ucast (last sig)) t m (int i))"
    using assms(3) by (subst lockVm_sigMessage) (auto simp: removeSig_p2pkh assms(2))
  have vm: "condStack ?vm = []" "numOps ?vm = 0" "stk (dstack ?vm) = [sig, pk]" "stk (astack ?vm) = []"
    "scripts ?vm = [map pushPop [sig, pk], p2pkhPops h]" "scriptIdx ?vm = 1" "scriptOff ?vm = 0" "\<not> bip16 ?vm" "\<not> p2ch ?vm"
    "sigCache ?vm = Some c"
    by (simp_all add: lockVm_def item p2pkh_not_hash)
  note run = p2pkh_run [OF assms(2) vm(1-9), of E]
  show "fst (ScriptValidate E c (GenerateP2PKHLockScript h) tx m (int i)) = Inr () \<longleftrightarrow>
      Hash160 (envHash E) pk = h \<and>
      (\<exists>data. calcSignatureData (envRlp E) (p2pkhPops h) (ucast (last sig)) t m (int i) = Inr data
         \<and> (cacheExists [] (butlast sig) pk c \<or> icVerify (envCrypto E) pk (butlast sig) data))"
    by (cases "calcSignatureData (envRlp E) (p2pkhPops h) (ucast (last sig)) t m (int i)")
      (simp_all add: sv case_prod_beta run(1) sigAccepted_def msg sigVerdict_def vm(10))
  show "Some (snd (ScriptValidate E c (GenerateP2PKHLockScript h) tx m (int i))) = cacheAfter E (Some c) pk (butlast sig) data"
    if "Hash160 (envHash E) pk = h" "calcSignatureData (envRlp E) (p2pkhPops h) (ucast (last sig)) t m (int i) = Inr data"
    using run(2) [OF that(1), of data] that(2) by (simp add: sv case_prod_beta msg vm(10)) (simp add: cacheAfter_def)
qed

section \<open>Multi-signature outputs\<close>

text \<open>A signature with its hash type, good for a public key and the given script in an input of a transaction.\<close>

definition signedBy :: "engine_env \<Rightarrow> parsedOpcode list \<Rightarrow> transaction \<Rightarrow> int \<Rightarrow> int \<Rightarrow> bytes \<Rightarrow> bytes \<Rightarrow> bool" where
  "signedBy E script t m i sig key \<longleftrightarrow>
     (\<exists>data. calcSignatureData (envRlp E) script (ucast (last sig)) t m i = Inr data \<and> icVerify (envCrypto E) key (butlast sig) data)"

text \<open>The cache knows nothing false about the signatures, and none of them differ in the hash type only.\<close>

definition cacheHonest :: "engine_env \<Rightarrow> parsedOpcode list \<Rightarrow> transaction \<Rightarrow> int \<Rightarrow> int \<Rightarrow> bytes list \<Rightarrow> sig_cache \<Rightarrow> bool" where
  "cacheHonest E script t m i sigs c \<longleftrightarrow> inj_on butlast (set sigs)
     \<and> (\<forall>sig\<in>set sigs. \<forall>key. cacheExists [] (butlast sig) key c \<longrightarrow> signedBy E script t m i sig key)"

text \<open>A multi-signature unlock script: the dummy item, the signatures and a redeem script that asks for that many.\<close>

definition multiUnlock :: "bytes \<Rightarrow> bytes list \<Rightarrow> bytes \<Rightarrow> bytes list \<Rightarrow> bool" where
  "multiUnlock s sigs redeem keys \<longleftrightarrow>
     parseScript s = (map pushPop ([] # sigs @ [redeem]), None) \<and> length s \<le> maxScriptSize
     \<and> parseScript redeem = (multiSigPops keys (int (length sigs)), None) \<and> length redeem \<le> 520
     \<and> list_all pubkeyLen keys \<and> length keys \<le> 16 \<and> sigs \<noteq> [] \<and> length sigs \<le> length keys
     \<and> list_all (\<lambda>sig. 1 < length sig \<and> length sig \<le> 520) sigs"

abbreviation multiScript :: "bytes list \<Rightarrow> bytes list \<Rightarrow> parsedOpcode list" where
  "multiScript sigs keys \<equiv> foldl removeOpcodeByData (multiSigPops keys (int (length sigs))) (rev sigs)"

lemma multi_items:
  assumes "multiUnlock s sigs redeem keys"
  shows "map pushItem ([] # sigs @ [redeem]) = ([] # sigs) @ [redeem]"
proof -
  have "redeem \<noteq> [0]"
    using assms by (auto simp: multiUnlock_def multiSigPops_def consPop_def)
  moreover have "map pushItem sigs = sigs"
    using assms by (intro map_idI) (auto simp: multiUnlock_def list_all_iff pushItem_def)
  ultimately show ?thesis
    by (simp add: pushItem_def)
qed

lemma multi_validate:
  assumes "spending E tx m i t s" and "multiUnlock s sigs redeem keys"
    and "parseScript lock = (pk, None)" and "length lock \<le> maxScriptSize" and "pk \<noteq> []"
  shows "fst (ScriptValidate E c lock tx m (int i)) = fst (Execute E (lockVm c t m (int i) ([] # sigs @ [redeem]) pk))"
  using assms
  by (simp add: ScriptValidate_unlock [OF assms(1), where ds = "[] # sigs @ [redeem]"] multiUnlock_def list_all_iff case_prod_beta)

lemma multi_at_lock:
  assumes "multiUnlock s sigs redeem keys" and "isScriptHash pk \<or> isContractHash pk"
  shows "at_lock pk (([] # sigs) @ [redeem]) (lockVm c t m i ([] # sigs @ [redeem]) pk)"
    "savedFirstStack (lockVm c t m i ([] # sigs @ [redeem]) pk) = ([] # sigs) @ [redeem]" "length ([] # sigs) < 998"
  using assms multi_items [OF assms(1)] by (auto simp: at_lock_def lockVm_def multiUnlock_def)

lemma multi_redeem:
  assumes "multiUnlock s sigs redeem keys" and "cacheHonest E (multiScript sigs keys) t m i sigs c"
    and "\<forall>sig\<in>set sigs. \<exists>data. calcSignatureData (envRlp E) (multiScript sigs keys) (ucast (last sig)) t m i = Inr data"
  shows "runRedeem E ([] # sigs) redeem (lockVm c t m i ([] # sigs @ [redeem]) pk) = Inr () \<longleftrightarrow>
    (\<exists>ks. subseq ks keys \<and> list_all2 (signedBy E (multiScript sigs keys) t m i) sigs ks)"
proof -
  let ?vm = "lockVm c t m i ([] # sigs @ [redeem]) pk" and ?script = "multiScript sigs keys"
  have ne: "sig \<noteq> []" if "sig \<in> set sigs" for sig
    using assms(1) that by (auto simp: multiUnlock_def list_all_iff)
  have ok: "multiSigOk E ?vm ?script sig key = signedBy E ?script t m i sig key" if "sig \<in> set sigs" for sig key
    using ne [OF that] assms(3) that by (auto simp: multiSigOk_def signedBy_def lockVm_def)
  have r: "sigsReadable E ?vm ?script sigs"
    using assms(3) by (auto simp: sigsReadable_def list_all_iff lockVm_def checkHashTypeEncoding_def hasFlag_def standard_flags)
  have "inj_on butlast {r \<in> set sigs. r \<noteq> []}"
    using assms(2) by (auto simp: cacheHonest_def elim: inj_on_subset)
  then have h: "honest E ?vm ?script sigs"
    using assms(2) ok by (auto simp: honest_def cacheHonest_def) (auto simp: lockVm_def)
  have "runRedeem E ([] # sigs) redeem ?vm = Inr () \<longleftrightarrow> matches (multiSigOk E ?vm ?script) sigs keys"
    using assms(1) r h by (intro multisig_redeem) (auto simp: multiUnlock_def lockVm_def)
  also have "\<dots> \<longleftrightarrow> (\<exists>ks. subseq ks keys \<and> list_all2 (signedBy E ?script t m i) sigs ks)"
    using ok by (auto simp: matches_def list_all2_conv_all_nth)
  finally show ?thesis .
qed

lemma contract_multiUnlock:
  assumes "redeem = fst (GenerateRedeemScript (word_of_nat (length signs)) keys)" and "sigs = map (\<lambda>s. s @ [4]) signs"
    and "list_all pubkeyLen keys" and "2 \<le> length keys" and "length keys \<le> 16" and "length redeem \<le> 520"
    and "signs \<noteq> []" and "length signs \<le> length keys" and "list_all (\<lambda>s. 0 < length s \<and> length s < 520) signs"
  shows "multiUnlock (MergeContractUnlockScript signs redeem) sigs redeem (sortKeys keys)"
proof -
  have "parseScript redeem = (multiSigPops (sortKeys keys) (int (length sigs)), None)"
    using redeem_parse(1) [of keys "int (length signs)"] assms by (simp add: Suc_le_eq)
  then show ?thesis
    using unlock_contract [of signs redeem] assms by (auto simp: multiUnlock_def sortKeys_eq list_all_iff)
qed

section \<open>Signing\<close>

text \<open>A transaction with the signature script of one input set.\<close>

definition withSig :: "int \<Rightarrow> nat \<Rightarrow> bytes \<Rightarrow> transaction \<Rightarrow> transaction" where
  "withSig m i s tx =
     (case paymentOf tx m of
        Inl e \<Rightarrow> tx
      | Inr pay \<Rightarrow> tx\<lparr>TxMessages := (TxMessages tx)[nat m := (TxMessages tx ! nat m)\<lparr>Payload :=
          PayPayment (pay\<lparr>Inputs := (Inputs pay)[i := (Inputs pay ! i)\<lparr>SignatureScript := s\<rparr>]\<rparr>)\<rparr>]\<rparr>)"

lemma withSig_payment:
  assumes "paymentOf tx m = Inr pay"
  shows "paymentOf (withSig m i s tx) m = Inr (pay\<lparr>Inputs := (Inputs pay)[i := (Inputs pay ! i)\<lparr>SignatureScript := s\<rparr>]\<rparr>)"
  using assms by (simp add: withSig_def paymentOf_def idxE_def payment_def bindS_def split: if_splits)

lemma withSig_apps: "map App (TxMessages (withSig m i s tx)) = map App (TxMessages tx)"
proof (cases "paymentOf tx m")
  case (Inr pay)
  then have "nat m < length (TxMessages tx)"
    by (auto simp: paymentOf_def idxE_def bindS_def split: if_splits)
  with Inr show ?thesis
    by (simp add: withSig_def map_update) (metis list_update_id nth_map)
qed (simp add: withSig_def)

lemma withSig_contract: "IsContractTx (withSig m i s tx) = IsContractTx tx"
proof -
  have "IsContractTx tx = list_ex (\<lambda>a. APP_CONTRACT_TPL \<le> a \<and> a \<le> APP_SIGNATURE) (map App (TxMessages tx))" for tx
    by (simp add: IsContractTx_def list_ex_iff)
  then show ?thesis
    by (simp only: withSig_apps)
qed

lemma withSig_wire:
  assumes "paymentOf tx m = Inr pay" and "i < length (Inputs pay)" and "list_all wire_msg (TxMessages tx)"
  shows "list_all wire_msg (TxMessages (withSig m i s tx))"
proof -
  let ?msg = "TxMessages tx ! nat m"
  have pay: "Payload ?msg = PayPayment pay" and m: "nat m < length (TxMessages tx)"
    using assms(1) by (auto simp: paymentOf_def idxE_def bindS_def payment_def split: if_splits payload.splits)
  then have "wire_msg ?msg" and ins: "list_all wire_input (Inputs pay)"
    using assms(3) pay by (auto simp: list_all_iff wire_msg_def split: payload.splits) (metis nth_mem)+
  then have "wire_msg (?msg\<lparr>Payload := PayPayment (pay\<lparr>Inputs := (Inputs pay)[i := (Inputs pay ! i)\<lparr>SignatureScript := s\<rparr>]\<rparr>)\<rparr>)"
    using assms(2) by (auto simp: wire_msg_def list_all_length nth_list_update wire_input_def)
  then show ?thesis
    using assms(1,3) by (auto simp: withSig_def list_all_iff dest!: subsetD [OF set_update_subset_insert])
qed

lemma ucast_byte: "(n :: uint32) < 256 \<Longrightarrow> ucast (ucast n :: byte) = n"
  by (simp add: word_uint_eq_iff word_less_def unsigned_ucast_eq take_bit_int_eq_self take_bit_word_eq_self unsigned_take_bit_eq)

lemma withSig_strip:
  assumes "paymentOf tx m = Inr pay" and "App (TxMessages tx ! nat m) = APP_PAYMENT" and "i < length (Inputs pay)"
  shows "stripSigs (withSig m i s tx) = stripSigs tx"
proof -
  let ?msg = "TxMessages tx ! nat m"
  have pay: "Payload ?msg = PayPayment pay" and m: "nat m < length (TxMessages tx)"
    using assms(1) by (auto simp: paymentOf_def idxE_def bindS_def payment_def split: if_splits payload.splits)
  have "map (\<lambda>inp. inp\<lparr>SignatureScript := []\<rparr>) ((Inputs pay)[i := (Inputs pay ! i)\<lparr>SignatureScript := s\<rparr>]) =
      map (\<lambda>inp. inp\<lparr>SignatureScript := []\<rparr>) (Inputs pay)"
    using assms(3) by (auto simp: map_update intro!: nth_equalityI simp: nth_list_update)
  then have "stripMsg (?msg\<lparr>Payload := PayPayment (pay\<lparr>Inputs := (Inputs pay)[i := (Inputs pay ! i)\<lparr>SignatureScript := s\<rparr>]\<rparr>)\<rparr>) = stripMsg ?msg"
    using assms(2) pay by (cases ?msg) (simp add: stripMsg_def)
  then have "map stripMsg (TxMessages (withSig m i s tx)) = map stripMsg (TxMessages tx)"
    using assms(1) m by (simp add: withSig_def map_update) (metis list_update_id nth_map)
  then show ?thesis
    using assms(1) by (simp add: stripSigs_def withSig_def)
qed

lemma extract_p2pkh:
  assumes "length h = 20"
  shows "ExtractPkScriptAddrs L (GenerateP2PKHLockScript h) =
    (\<lparr>pkClass = PubKeyHashTy, pkAddrs = [\<lparr>aodAddress = NewAddress h PublicKeyHash, aodOriginal = h\<rparr>], pkSigs = 1\<rparr>, None)"
  using lock_p2pkh [OF assms] assms by (simp add: ExtractPkScriptAddrs_def type_p2pkh pops_hash Let_def NewAddressOriginalData_def)

lemma sign_p2pkh:
  assumes "length h = 20" and "icGetPubKey (envCrypto E) (NewAddress h PublicKeyHash) = Inr pk"
    and "calcSignatureData (envRlp E) (p2pkhPops h) hashType tx m i = Inr data"
    and "icSign (envCrypto E) (NewAddress h PublicKeyHash) data = Inr sig"
    and "length sig < MaxScriptElementSize" and "length pk \<le> MaxScriptElementSize"
  shows "SignTxOutput E G tx m i (GenerateP2PKHLockScript h) hashType [] =
    Some (Inr (GenerateP2PKHUnlockScript (sig @ [ucast hashType]) pk))"
proof -
  let ?sig = "sig @ [ucast hashType]"
  let ?info = "\<lparr>pkClass = PubKeyHashTy, pkAddrs = [\<lparr>aodAddress = NewAddress h PublicKeyHash, aodOriginal = h\<rparr>], pkSigs = 1\<rparr>"
  note unlock = unlock_p2pkh [of ?sig pk]
  have "berr (AddData pk (AddData ?sig NewScriptBuilder)) = None"
    using assms(5,6) canonicalDataSize_bounds [of ?sig] canonicalDataSize_bounds [of pk] dataPush_size [of ?sig]
    by (simp add: AddData_def addData_def NewScriptBuilder_def Let_def)
  then have "makeSignatureScript E tx m i (GenerateP2PKHLockScript h) hashType pk (NewAddress h PublicKeyHash) =
      Inr (GenerateP2PKHUnlockScript ?sig pk)"
    using assms lock_p2pkh [OF assms(1)]
    by (simp add: makeSignatureScript_def RawTxInSignature_def builtScript_def BuilderScript_def GenerateP2PKHUnlockScript_def)
  then have "signScript E G tx m i (GenerateP2PKHLockScript h) hashType = Inr (GenerateP2PKHUnlockScript ?sig pk, ?info)"
    using assms(2) by (simp add: signScript_def extract_p2pkh [OF assms(1)] Let_def)
  moreover have "GenerateP2PKHUnlockScript ?sig pk \<noteq> []"
    using unlock(1) assms(5,6) by auto
  ultimately show ?thesis
    by (simp add: SignTxOutput_def mergeScripts.simps)
qed

lemma redeem_one:
  assumes "length (scripts vm) = 2" and "condStack vm = []" and "stk (astack vm) = []"
  shows "runRedeem E [] [OP_1] vm = Inr ()"
proof -
  have pop: "pushPop [1] = op0 OP_1" "parseScript [OP_1] = ([pushPop [1]], None)"
    using parse_op [of OP_1 "[]"] olength_opcodeAt [of OP_1] by (simp_all add: pushPop_def consPop_def)
  let ?vm = "redeeming [pushPop [1]] [] vm"
  let ?vm1 = "?vm\<lparr>dstack := (dstack ?vm)\<lparr>stk := [[1]]\<rparr>, scriptOff := 1\<rparr>"
  have "runOps E (map pushPop [[1]]) ?vm = (Inr (), ?vm1)"
    using assms by (subst runOps_pushes) (simp_all add: redeeming_def pushItem_def)
  then have "Execute E ?vm = finishRun E ?vm1"
    using Execute_runOps [of ?vm E] assms(1) by (simp add: redeeming_def nth_append sm_simps)
  moreover have "fst (finishRun E ?vm1) = Inr ()"
    using finishRun_last [of ?vm1 "[1]" E] assms by (simp add: redeeming_def)
  ultimately show ?thesis
    by (simp add: runRedeem_def pop(2) del: parseScript.simps)
qed

section \<open>An example transaction\<close>

lemma oneInput_payment:
  "\<exists>pay. paymentOf (oneInputTx s) 0 = Inr pay \<and> length (Inputs pay) = 1 \<and> SignatureScript (Inputs pay ! 0) = s"
  by (simp add: oneInputTx_def newTransaction_def NewPaymentPayload_def paymentOf_def idxE_def payment_def)

lemma oneInput_spending: "envRlp E = oneInputRlp \<Longrightarrow> spending E (oneInputTx s) 0 0 (oneInputTx s) s"
proof -
  assume E: "envRlp E = oneInputRlp"
  have "\<not> IsContractTx (oneInputTx s)"
    by (simp add: IsContractTx_def oneInputTx_def newTransaction_def)
  moreover have "txClone oneInputRlp (oneInputTx s) = oneInputTx s"
    using txClone_eq [OF oneInput_ok] by (simp add: oneInputTx_def newTransaction_def)
  ultimately show ?thesis
    using oneInput_payment [of s] E by (auto simp: spending_def unlockTx_def)
qed

lemma toy_env:
  "envRlp toyEnv = oneInputRlp" "Hash160 (envHash toyEnv) (replicate 20 7) = replicate 20 7"
  "icVerify (envCrypto toyEnv) a b d = (a = b)" "(replicate 20 7 :: bytes) \<noteq> [0]" "(replicate 20 7 :: bytes) \<noteq> replicate 20 8"
  "\<not> cacheExists h s p (NewSigCache n)" "length (Hash160 (envHash toyEnv) b) = 20"
  by (simp_all add: toyEnv_def Hash160_def numeral_eq_Suc cacheExists_def NewSigCache_def)

lemmas toy_spending = oneInput_spending [of toyEnv, OF toy_env(1)]

text \<open>A contract with two keys of which one has to sign.\<close>

definition toyKey :: bytes where
  "toyKey = replicate 33 7"

definition toyRedeem :: bytes where
  "toyRedeem = fst (GenerateRedeemScript 1 [toyKey, replicate 33 8])"

definition toyMultiTx :: transaction where
  "toyMultiTx = oneInputTx (MergeContractUnlockScript [toyKey] toyRedeem)"

lemma toyRedeem_length: "length toyRedeem \<le> 520"
  using redeem_parse(2) [of "[toyKey, replicate 33 8]" 1] by (simp add: toyRedeem_def toyKey_def)

lemma toy_multi:
  "multiUnlock (MergeContractUnlockScript [toyKey] toyRedeem) [toyKey @ [4]] toyRedeem (sortKeys [toyKey, replicate 33 8])"
  using toyRedeem_length by (intro contract_multiUnlock) (simp_all add: toyRedeem_def toyKey_def)

lemma toy_signed:
  assumes "envRlp E = oneInputRlp" and "\<And>a d. icVerify (envCrypto E) a a d" and "script = multiScript [toyKey @ [4]] keys"
  shows "cacheHonest E script toyMultiTx 0 0 [toyKey @ [4]] (NewSigCache 10)"
    "\<forall>sig\<in>set [toyKey @ [4]]. \<exists>data. calcSignatureData (envRlp E) script (ucast (last sig)) toyMultiTx 0 0 = Inr data"
    "\<exists>ks. subseq ks (sortKeys [toyKey, replicate 33 8]) \<and> list_all2 (signedBy E script toyMultiTx 0 0) [toyKey @ [4]] ks"
proof -
  obtain d where d: "calcSignatureData oneInputRlp script SigHashRaw toyMultiTx 0 0 = Inr d"
    using oneInput_data(2) unfolding toyMultiTx_def by blast
  then show "\<forall>sig\<in>set [toyKey @ [4]]. \<exists>data. calcSignatureData (envRlp E) script (ucast (last sig)) toyMultiTx 0 0 = Inr data"
    using assms(1) by simp
  show "cacheHonest E script toyMultiTx 0 0 [toyKey @ [4]] (NewSigCache 10)"
    by (simp add: cacheHonest_def toy_env)
  have "subseq [toyKey] (sortKeys [toyKey, replicate 33 8])"
    by (auto simp: sortKeys_eq subseq_singleton_left)
  moreover have "signedBy E script toyMultiTx 0 0 (toyKey @ [4]) toyKey"
    using assms(1,2) d by (simp add: signedBy_def)
  ultimately show "\<exists>ks. subseq ks (sortKeys [toyKey, replicate 33 8]) \<and> list_all2 (signedBy E script toyMultiTx 0 0) [toyKey @ [4]] ks"
    by (intro exI [of _ "[toyKey]"]) simp
qed

section \<open>Properties\<close>

text \<open>
  C2. An unlock script with a signature and a public key opens a pay-to-public-key-hash output exactly when
  the public key has the hash of the output and the signature is good for the data of this transaction, this
  input and this lock script, or the signature cache remembers it under this public key. Nothing else about
  the two scripts matters: no other check of the engine can fail or be skipped.
\<close>

theorem p2pkh_spend:
  assumes "spending E tx m i t (GenerateP2PKHUnlockScript sig pk)" and "length h = 20"
    and "20 < length sig" and "length sig \<le> MaxScriptElementSize" and "pk \<noteq> [0]" and "length pk \<le> MaxScriptElementSize"
  shows "fst (ScriptValidate E c (GenerateP2PKHLockScript h) tx m (int i)) = Inr () \<longleftrightarrow>
      Hash160 (envHash E) pk = h \<and>
      (\<exists>data. calcSignatureData (envRlp E) (p2pkhPops h) (ucast (last sig)) t m (int i) = Inr data
         \<and> (cacheExists [] (butlast sig) pk c \<or> icVerify (envCrypto E) pk (butlast sig) data))"
  using assms by (rule p2pkh_validate(1))

theorem p2pkh_spend_witness:
  "fst (ScriptValidate toyEnv (NewSigCache 10) (GenerateP2PKHLockScript (replicate 20 7))
     (oneInputTx (GenerateP2PKHUnlockScript (replicate 20 7 @ [1]) (replicate 20 7))) 0 (int 0)) = Inr ()
   \<and> fst (ScriptValidate toyEnv (NewSigCache 10) (GenerateP2PKHLockScript (replicate 20 7))
     (oneInputTx (GenerateP2PKHUnlockScript (replicate 20 8 @ [1]) (replicate 20 7))) 0 (int 0)) \<noteq> Inr ()"
  using oneInput_data(1) [of "p2pkhPops (replicate 20 7)" "GenerateP2PKHUnlockScript (replicate 20 7 @ [1]) (replicate 20 7)"]
    p2pkh_spend [OF toy_spending, where sig = "replicate 20 7 @ [1]" and pk = "replicate 20 7" and h = "replicate 20 7" and c = "NewSigCache 10"]
    p2pkh_spend [OF toy_spending, where sig = "replicate 20 8 @ [1]" and pk = "replicate 20 7" and h = "replicate 20 7" and c = "NewSigCache 10"]
  by (simp add: toy_env)





text \<open>
  C10. The signature cache lets a signature be replayed. Once a pay-to-public-key-hash input has been
  accepted, the same unlock script opens an output locked to the same public key in every other transaction that is
  validated with the resulting cache, whatever the crypto provider says about it: the cache key does not contain
  the signed data.
\<close>

theorem signature_replay:
  assumes "spending E tx m i t (GenerateP2PKHUnlockScript sig pk)" and "spending E tx' m' i' t' (GenerateP2PKHUnlockScript sig pk)"
    and "length h = 20" and "20 < length sig" and "length sig \<le> MaxScriptElementSize" and "pk \<noteq> [0]" and "length pk \<le> MaxScriptElementSize"
    and "0 < maxEntries c" and "length (validSigs c) < maxEntries c \<or> envRand E (draws c) \<noteq> None"
    and "ScriptValidate E c (GenerateP2PKHLockScript h) tx m (int i) = (Inr (), c')"
    and "calcSignatureData (envRlp E) (p2pkhPops h) (ucast (last sig)) t' m' (int i') = Inr data'"
  shows "fst (ScriptValidate E c' (GenerateP2PKHLockScript h) tx' m' (int i')) = Inr ()"
proof -
  note v = p2pkh_validate [OF assms(1,3-7), where c = c]
  obtain data where data: "Hash160 (envHash E) pk = h"
    "calcSignatureData (envRlp E) (p2pkhPops h) (ucast (last sig)) t m (int i) = Inr data"
    "cacheExists [] (butlast sig) pk c \<or> icVerify (envCrypto E) pk (butlast sig) data"
    using v(1) assms(10) by auto
  have "Some c' = cacheAfter E (Some c) pk (butlast sig) data"
    using v(2) [OF data(1,2)] assms(10) by simp
  then have "cacheExists [] (butlast sig) pk c'"
    using data(3) cacheExists_add [OF assms(8), where rand = "envRand E"] assms(9) by (auto simp: cacheAfter_def)
  then show ?thesis
    using p2pkh_validate(1) [OF assms(2-7), where c = c'] data(1) assms(11) by blast
qed

theorem signature_replay_witness:
  "fst (ScriptValidate toyEnv (snd (ScriptValidate toyEnv (NewSigCache 10) (GenerateP2PKHLockScript (replicate 20 7))
        (oneInputTx (GenerateP2PKHUnlockScript (replicate 20 7 @ [1]) (replicate 20 7))) 0 (int 0)))
     (GenerateP2PKHLockScript (replicate 20 7)) (oneInputTx (GenerateP2PKHUnlockScript (replicate 20 7 @ [1]) (replicate 20 7))) 0 (int 0)) = Inr ()"
proof -
  let ?sig = "replicate 20 7 @ [1] :: bytes" and ?k = "replicate 20 7 :: bytes"
  let ?tx = "oneInputTx (GenerateP2PKHUnlockScript ?sig ?k)"
  obtain d where d: "calcSignatureData oneInputRlp (p2pkhPops ?k) SigHashAll ?tx 0 0 = Inr d"
    using oneInput_data(1) by blast
  obtain c' where c': "ScriptValidate toyEnv (NewSigCache 10) (GenerateP2PKHLockScript ?k) ?tx 0 (int 0) = (Inr (), c')"
    using p2pkh_validate(1) [OF toy_spending, where sig = ?sig and pk = ?k and h = ?k and c = "NewSigCache 10"] d
    by (cases "ScriptValidate toyEnv (NewSigCache 10) (GenerateP2PKHLockScript ?k) ?tx 0 (int 0)") (simp add: toy_env)
  show ?thesis
    using signature_replay [OF toy_spending toy_spending, where sig = ?sig and pk = ?k and h = ?k and c = "NewSigCache 10" and c' = c' and data' = d] d c'
    by (simp add: toy_env) (simp add: NewSigCache_def)
qed



text \<open>
  C36. The redeem script generated for a group of keys does not depend on the order in which the keys are
  given, so everyone who knows the group computes the same pay-to-script-hash address.
\<close>

theorem redeem_script_order:
  assumes "mset keys = mset keys'"
  shows "fst (GenerateRedeemScript needed keys) = fst (GenerateRedeemScript needed keys')"
proof -
  have "sort keys = sort keys'"
    using assms by (intro properties_for_sort) simp_all
  then have "sortKeys keys = sortKeys keys'"
    by (simp only: sortKeys_eq)
  moreover have "length keys = length keys'"
    using assms by (metis size_mset)
  moreover have "length keys = 1 \<Longrightarrow> keys = keys'"
    using assms calculation(2) by (cases keys; cases keys') auto
  ultimately show ?thesis
    by (auto simp: GenerateRedeemScript_def Let_def)
qed

theorem redeem_script_order_witness:
  "fst (GenerateRedeemScript 2 [[1], [2], [3]]) = fst (GenerateRedeemScript 2 [[3], [1], [2]])"
  by (rule redeem_script_order) simp



text \<open>
  C38. Signing the payments of a transaction always returns: it never signs an input that already has a
  signature script, so the recursion of merging scripts is never entered.
\<close>

theorem signing_returns:
  "\<exists>r. SignTx1MsgPaymentInput E tx mIdx hashType utxoLockScripts redeemScript pubKeyFn signFn = Some r"
proof -
  have "SignTxOutput E G tx m i lock hashType [] \<noteq> None" for E G tx m i lock
    using mergeScripts_other [of _ _ "[]"] by (auto simp: SignTxOutput_def parsesNonempty_def split: sum.splits prod.splits)
  then have inputs: "signInputs E G utxoLockScripts hashType i msg js pay tx \<noteq> None" for E G i msg js pay tx
    by (induction js arbitrary: pay tx) (auto simp: Let_def split: option.splits sum.splits script_error.splits, (metis option.distinct(1))+)
  have "signMessages E G utxoLockScripts hashType mIdx i msgs tx \<noteq> None" for E G i msgs tx
    using inputs by (induction msgs arbitrary: i tx) (auto split: option.splits sum.splits payload.splits prod.splits, (metis option.distinct(1))+)
  then show ?thesis
    by (auto simp: SignTx1MsgPaymentInput_def split: sum.splits)
qed



text \<open>
  C40. A lock script that begins with \<open>OP_RETURN\<close> is reported as unspendable, yet it can be spent: the
  opcode pushes the empty string instead of failing, so a script that goes on to compare it with itself accepts
  an empty unlock script.
\<close>

theorem op_return_spendable:
  assumes "spending E tx m i t []"
  shows "IsUnspendable [OP_RETURN, OP_DUP, OP_EQUAL] \<and> fst (ScriptValidate E c [OP_RETURN, OP_DUP, OP_EQUAL] tx m (int i)) = Inr ()"
proof -
  let ?pk = "[op0 OP_RETURN, op0 OP_DUP, op0 OP_EQUAL]"
  have parse: "parseScript [OP_RETURN, OP_DUP, OP_EQUAL] = (?pk, None)"
    by (simp add: consPop_def)
  let ?vm = "lockVm c t m (int i) [] ?pk"
  let ?vm1 = "?vm\<lparr>numOps := 3, dstack := (dstack ?vm)\<lparr>stk := [fromBool True]\<rparr>, scriptOff := 3\<rparr>"
  have types: "\<not> isScriptHash ?pk" "\<not> isContractHash ?pk" "\<not> isDisabled (op0 OP_RETURN)"
    by (simp_all add: isScriptHash_def isContractHash_def isDisabled_def)
  have "NewEngine [OP_RETURN, OP_DUP, OP_EQUAL] t m (int i) StandardVerifyExcludeSignFlags (Some c) = Inr ?vm"
    using assms types
    by (auto simp: spending_def NewEngine_def parseLimited_def standard_flags Let_def lockVm_def parse simp del: parseScript.simps(2))
  then have "fst (ScriptValidate E c [OP_RETURN, OP_DUP, OP_EQUAL] tx m (int i)) = fst (Execute E ?vm)"
    using assms by (simp add: ScriptValidate_def spending_def runEngine_def case_prod_beta)
  moreover have "runOps E ?pk ?vm = (Inr (), ?vm1)"
    using types(3)
    by (simp add: lockVm_def sm_simps executeOpcode_op opcodeFalse_def opcodeDup_apply [of "[]" _ "[]"]
        opcodeEqual_apply [of "[]" _ "[]" "[]"] Depth_eq)
  moreover have "Execute E ?vm = bindE (runOps E ?pk) (\<lambda>_. finishRun E) ?vm"
    using Execute_runOps [of ?vm E] by (simp add: lockVm_def)
  moreover have "fst (finishRun E ?vm1) = Inr ()"
    using finishRun_last [of ?vm1 "fromBool True" E] types by (simp add: lockVm_def)
  ultimately show ?thesis
    using parse by (simp add: bindE_apply IsUnspendable_def del: parseScript.simps runOps.simps)
qed

theorem op_return_spendable_witness:
  "fst (ScriptValidate toyEnv (NewSigCache 10) [OP_RETURN, OP_DUP, OP_EQUAL] (oneInputTx []) 0 (int 0)) = Inr ()"
  using op_return_spendable [OF toy_spending] by simp

end
