(* ===== verification/Radix.thy ===== *)
theory Radix
  imports Prelude
begin

text \<open>
  Text forms of byte strings as numerals: the packages \<open>base36\<close> and \<open>base58\<close> under \<open>src/vendor\<close>. A byte string is
  read as a big-endian number; every leading zero byte is one leading zero digit. The first part is about
  digits in any radix, the second has the loops of the packages.
\<close>

section \<open>Numerals\<close>

text \<open>The digits of a number, the last one first, as repeated division produces them.\<close>

fun radixLE :: "nat \<Rightarrow> nat \<Rightarrow> nat list" where
  "radixLE b n = (if n = 0 \<or> b < 2 then [] else n mod b # radixLE b (n div b))"

declare radixLE.simps [simp del]

fun radixVal :: "nat \<Rightarrow> nat list \<Rightarrow> nat" where
  "radixVal b [] = 0"
| "radixVal b (d # ds) = d + b * radixVal b ds"

definition leadZeros :: "'a::zero list \<Rightarrow> nat" where
  "leadZeros ds = length (takeWhile (\<lambda>d. d = 0) ds)"

text \<open>Conversion of a numeral from one radix to another, the first digit first.\<close>

definition reRadix :: "nat \<Rightarrow> nat \<Rightarrow> nat list \<Rightarrow> nat list" where
  "reRadix a b ds = replicate (leadZeros ds) 0 @ rev (radixLE b (radixVal a (rev ds)))"

lemma radixLE_0 [simp]: "radixLE b 0 = []"
  by (simp add: radixLE.simps)

lemma radixVal_LE: "2 \<le> b \<Longrightarrow> radixVal b (radixLE b n) = n"
proof (induction b n rule: radixLE.induct)
  case (1 b n)
  then show ?case
    by (cases "n = 0") (simp_all add: radixLE.simps [of b n])
qed

lemma radixLE_less: "d \<in> set (radixLE b n) \<Longrightarrow> d < b"
proof (induction b n rule: radixLE.induct)
  case (1 b n)
  then show ?case
    by (subst (asm) radixLE.simps) (auto split: if_splits)
qed

lemma radixVal_bound: "\<forall>d\<in>set ds. d < b \<Longrightarrow> radixVal b ds < b ^ length ds"
proof (induction ds)
  case (Cons d ds)
  then have "Suc (radixVal b ds) \<le> b ^ length ds" by simp
  then have "b * Suc (radixVal b ds) \<le> b * b ^ length ds" by (rule mult_le_mono2)
  with Cons.prems show ?case by simp
qed simp

lemma radixVal_append: "radixVal b (ds @ es) = radixVal b ds + b ^ length ds * radixVal b es"
  by (induction ds) (simp_all add: algebra_simps)

lemma radixVal_zeros [simp]: "radixVal b (replicate n 0) = 0"
  by (induction n) simp_all

lemma radixLE_Val:
  assumes "2 \<le> b" and "\<forall>d\<in>set ds. d < b" and "ds = [] \<or> last ds \<noteq> 0"
  shows "radixLE b (radixVal b ds) = ds"
  using assms(2,3)
proof (induction ds)
  case (Cons d ds)
  have nz: "radixVal b (d # ds) \<noteq> 0"
  proof (cases "ds = []")
    case False
    with Cons have "radixLE b (radixVal b ds) = ds" by simp
    with False have "radixVal b ds \<noteq> 0" by (metis radixLE_0)
    with assms(1) show ?thesis by simp
  qed (use Cons.prems in simp)
  have "radixLE b (radixVal b ds) = ds"
    using Cons by (cases "ds = []") simp_all
  with nz Cons.prems(1) assms(1) show ?case
    by (subst radixLE.simps) simp
qed simp

lemma radixLE_last: "n \<noteq> 0 \<Longrightarrow> 2 \<le> b \<Longrightarrow> radixLE b n \<noteq> [] \<and> last (radixLE b n) \<noteq> 0"
proof (induction b n rule: radixLE.induct)
  case (1 b n)
  then show ?case
    by (cases "n div b = 0") (simp_all add: radixLE.simps [of b n] div_eq_0_iff)
qed

lemma leadZeros_replicate: "ds = [] \<or> hd ds \<noteq> 0 \<Longrightarrow> leadZeros (replicate n 0 @ ds) = n"
  by (induction n) (auto simp: leadZeros_def takeWhile_eq_Nil_iff)

lemma split_zeros: "\<exists>es. ds = replicate (leadZeros ds) 0 @ es \<and> (es = [] \<or> hd es \<noteq> 0)"
proof (induction ds)
  case (Cons d ds)
  then show ?case
    by (cases "d = 0") (auto simp: leadZeros_def intro: exI [of _ "d # ds"])
qed (simp add: leadZeros_def)

lemma radixVal_strip: "radixVal b (rev (replicate n 0 @ es)) = radixVal b (rev es)"
  by (simp add: radixVal_append rev_replicate)

lemma reRadix_inverse:
  assumes "2 \<le> a" and "2 \<le> b" and "\<forall>d\<in>set ds. d < a"
  shows "reRadix b a (reRadix a b ds) = ds"
proof -
  obtain es where es: "ds = replicate (leadZeros ds) 0 @ es" "es = [] \<or> hd es \<noteq> 0"
    using split_zeros by blast
  define v where "v = radixVal a (rev es)"
  have esd: "radixLE a v = rev es"
    unfolding v_def using assms(1,3) es by (intro radixLE_Val) (auto simp: last_rev dest: arg_cong [of _ _ set])
  have out: "reRadix a b ds = replicate (leadZeros ds) 0 @ rev (radixLE b v)"
    unfolding reRadix_def v_def by (subst (2) es(1)) (simp only: radixVal_strip)
  have "rev (radixLE b v) = [] \<or> hd (rev (radixLE b v)) \<noteq> 0"
    using radixLE_last [of v b] assms(2) by (cases "v = 0") (simp_all add: hd_rev)
  then have "leadZeros (reRadix a b ds) = leadZeros ds"
    unfolding out by (rule leadZeros_replicate)
  moreover have "radixVal b (rev (reRadix a b ds)) = v"
    unfolding out by (simp only: radixVal_strip rev_rev_ident radixVal_LE [OF assms(2)])
  ultimately show ?thesis
    using es(1) by (simp add: reRadix_def [of b a] esd)
qed

lemma radixVal_reRadix: "2 \<le> b \<Longrightarrow> radixVal b (rev (reRadix a b ds)) = radixVal a (rev ds)"
  by (simp only: reRadix_def radixVal_strip rev_rev_ident radixVal_LE)

lemma reRadix_less: "1 < b \<Longrightarrow> d \<in> set (reRadix a b ds) \<Longrightarrow> d < b"
  by (auto simp: reRadix_def dest: radixLE_less)

section \<open>Codecs over an alphabet\<close>

fun idxOf :: "char \<Rightarrow> string \<Rightarrow> nat option" where
  "idxOf c [] = None"
| "idxOf c (x # xs) = (if x = c then Some 0 else map_option Suc (idxOf c xs))"

definition encodeText :: "string \<Rightarrow> bytes \<Rightarrow> string" where
  "encodeText alphabet b =
     (let answer = map (\<lambda>d. alphabet ! d) (radixLE (length alphabet) (radixVal 256 (rev (map unat b))))
            @ replicate (leadZeros b) (alphabet ! 0)
      in rev answer)"

text \<open>The loop from the last character to the first, with the value of the digits so far and the weight of the next.\<close>

fun decodeLoop :: "string \<Rightarrow> string \<Rightarrow> nat \<Rightarrow> nat \<Rightarrow> nat option" where
  "decodeLoop alphabet [] answer j = Some answer"
| "decodeLoop alphabet (c # cs) answer j =
     (case idxOf c alphabet of None \<Rightarrow> None | Some i \<Rightarrow> decodeLoop alphabet cs (answer + j * i) (j * length alphabet))"

definition decodeText :: "string \<Rightarrow> string \<Rightarrow> bytes" where
  "decodeText alphabet s =
     (case decodeLoop alphabet (rev s) 0 1 of
        None \<Rightarrow> []
      | Some answer \<Rightarrow>
          replicate (length (takeWhile (\<lambda>c. c = alphabet ! 0) s)) 0 @ rev (map word_of_nat (radixLE 256 answer)))"

definition base36 :: string where
  "base36 = ''0123456789ABCDEFGHIJKLMNOPQRSTUVWXYZ''"

definition base36_EncodeBytes :: "bytes \<Rightarrow> string" where
  "base36_EncodeBytes b = encodeText base36 b"

definition base36_DecodeToBytes :: "string \<Rightarrow> bytes" where
  "base36_DecodeToBytes s = decodeText base36 s"

definition base58 :: string where
  "base58 = ''123456789ABCDEFGHJKLMNPQRSTUVWXYZabcdefghijkmnopqrstuvwxyz''"

definition base58_Encode :: "bytes \<Rightarrow> string" where
  "base58_Encode b = encodeText base58 b"

definition base58_Decode :: "string \<Rightarrow> bytes" where
  "base58_Decode s = decodeText base58 s"

definition checksum :: "(bytes \<Rightarrow> bytes) \<Rightarrow> bytes \<Rightarrow> bytes" where
  "checksum sha256 input = take 4 (sha256 (sha256 input))"

definition CheckEncode :: "(bytes \<Rightarrow> bytes) \<Rightarrow> bytes \<Rightarrow> byte \<Rightarrow> string" where
  "CheckEncode sha256 input version =
     (let b = version # input in base58_Encode (b @ checksum sha256 b))"

definition CheckDecode :: "(bytes \<Rightarrow> bytes) \<Rightarrow> string \<Rightarrow> (bytes \<times> byte) option" where
  "CheckDecode sha256 input =
     (let decoded = base58_Decode input
      in if length decoded < 5 then None
         else if checksum sha256 (take (length decoded - 4) decoded) \<noteq> drop (length decoded - 4) decoded then None
         else Some (drop 1 (take (length decoded - 4) decoded), decoded ! 0))"

subsection \<open>Round trips\<close>

definition alphabet_ok :: "string \<Rightarrow> bool" where
  "alphabet_ok al \<longleftrightarrow> distinct al \<and> 2 \<le> length al"

lemma idxOf_nth: "distinct al \<Longrightarrow> i < length al \<Longrightarrow> idxOf (al ! i) al = Some i"
proof (induction al arbitrary: i)
  case (Cons a al)
  then show ?case by (cases i) auto
qed simp

lemma idxOf_Some: "idxOf c al = Some i \<Longrightarrow> i < length al \<and> al ! i = c"
  by (induction al arbitrary: i) (auto split: if_splits)

lemma idxOf_mem: "c \<in> set al \<Longrightarrow> \<exists>i. idxOf c al = Some i"
  by (induction al) auto

lemma decodeLoop_val:
  assumes "distinct al" and "\<forall>d\<in>set ds. d < length al"
  shows "decodeLoop al (map ((!) al) ds) answer j = Some (answer + j * radixVal (length al) ds)"
  using assms(2) by (induction ds arbitrary: answer j) (simp_all add: idxOf_nth assms(1) algebra_simps)

lemma takeWhile_digits:
  assumes "alphabet_ok al" and "\<forall>d\<in>set ds. d < length al"
  shows "length (takeWhile (\<lambda>c. c = al ! 0) (map ((!) al) ds)) = leadZeros ds"
proof -
  have "al ! d = al ! 0 \<longleftrightarrow> d = 0" if "d \<in> set ds" for d
  proof -
    have "d < length al" "0 < length al" "distinct al"
      using that assms by (auto simp: alphabet_ok_def)
    then show ?thesis by (simp only: nth_eq_iff_index_eq)
  qed
  then have "takeWhile (\<lambda>d. al ! d = al ! 0) ds = takeWhile (\<lambda>d. d = 0) ds"
    by (rule takeWhile_cong [OF refl])
  then show ?thesis
    by (simp add: leadZeros_def takeWhile_map o_def)
qed

lemma encodeText_eq:
  "al \<noteq> [] \<Longrightarrow> encodeText al b = map ((!) al) (reRadix 256 (length al) (map unat b))"
proof -
  have "leadZeros (map unat b) = leadZeros b"
    by (simp add: leadZeros_def takeWhile_map o_def unat_eq_zero)
  then show ?thesis
    by (simp add: encodeText_def reRadix_def rev_map map_replicate)
qed

lemma decodeText_eq:
  assumes "alphabet_ok al" and "\<forall>d\<in>set ds. d < length al"
  shows "decodeText al (map ((!) al) ds) = map word_of_nat (reRadix (length al) 256 ds)"
  using assms decodeLoop_val [of al "rev ds" 0 1] takeWhile_digits [OF assms]
  by (simp add: decodeText_def reRadix_def alphabet_ok_def rev_map map_replicate)

lemma decode_encode_text:
  assumes "alphabet_ok al"
  shows "decodeText al (encodeText al b) = b"
proof -
  have al: "al \<noteq> []" "1 < length al"
    using assms by (auto simp: alphabet_ok_def)
  have "\<forall>d\<in>set (reRadix 256 (length al) (map unat b)). d < length al"
    using reRadix_less [OF al(2)] by blast
  then have "decodeText al (encodeText al b) = map word_of_nat (reRadix (length al) 256 (reRadix 256 (length al) (map unat b)))"
    using assms al(1) by (simp only: encodeText_eq decodeText_eq simp_thms)
  also have "reRadix (length al) 256 (reRadix 256 (length al) (map unat b)) = map unat b"
    using assms by (intro reRadix_inverse) (auto simp: alphabet_ok_def unat_byte_less)
  finally show ?thesis by (simp add: o_def)
qed

lemma text_digits:
  fixes s al :: string
  assumes "set s \<subseteq> set al"
  obtains ds where "s = map ((!) al) ds" and "\<forall>d\<in>set ds. d < length al"
proof
  have ix: "the (idxOf c al) < length al \<and> al ! the (idxOf c al) = c" if "c \<in> set s" for c
    using that assms idxOf_mem [of c al] idxOf_Some [of c al] by fastforce
  then have "map (\<lambda>c. al ! the (idxOf c al)) s = s"
    by (intro map_idI) simp
  then show "s = map ((!) al) (map (\<lambda>c. the (idxOf c al)) s)"
    by (simp add: o_def)
  show "\<forall>d\<in>set (map (\<lambda>c. the (idxOf c al)) s). d < length al"
    using ix by simp
qed

lemma encode_decode_text:
  assumes "alphabet_ok al" and "set s \<subseteq> set al"
  shows "encodeText al (decodeText al s) = s"
proof -
  obtain ds where ds: "s = map ((!) al) ds" "\<forall>d\<in>set ds. d < length al"
    using assms(2) by (rule text_digits)
  have "map (unat \<circ> (word_of_nat :: nat \<Rightarrow> byte)) (reRadix (length al) 256 ds) = reRadix (length al) 256 ds"
    by (intro map_idI) (auto simp: unat_of_nat take_bit_eq_mod dest: reRadix_less [rotated])
  then show ?thesis
    using assms ds reRadix_inverse [of "length al" 256 ds]
    by (subst encodeText_eq) (auto simp: alphabet_ok_def decodeText_eq)
qed

text \<open>The value of a text is below the power of the radix to its length.\<close>

lemma decodeText_bound:
  assumes "alphabet_ok al" and "set s \<subseteq> set al"
  shows "radixVal 256 (rev (map unat (decodeText al s))) < length al ^ length s"
proof -
  obtain ds where ds: "s = map ((!) al) ds" "\<forall>d\<in>set ds. d < length al"
    using assms(2) by (rule text_digits)
  have "map (unat \<circ> (word_of_nat :: nat \<Rightarrow> byte)) (reRadix (length al) 256 ds) = reRadix (length al) 256 ds"
    by (intro map_idI) (auto simp: unat_of_nat take_bit_eq_mod dest: reRadix_less [rotated])
  then have "radixVal 256 (rev (map unat (decodeText al s))) = radixVal (length al) (rev ds)"
    using assms(1) ds by (simp add: decodeText_eq radixVal_reRadix)
  also have "\<dots> < length al ^ length s"
    using radixVal_bound [of "rev ds" "length al"] ds by simp
  finally show ?thesis .
qed

lemma encodeText_chars:
  assumes "alphabet_ok al"
  shows "set (encodeText al b) \<subseteq> set al"
proof -
  have al: "al \<noteq> []" "1 < length al"
    using assms by (auto simp: alphabet_ok_def)
  then show ?thesis
    using reRadix_less [OF al(2)] by (auto simp: encodeText_eq)
qed

lemma encodeText_digit:
  assumes "alphabet_ok al" and "unat x < length al"
  shows "encodeText al [x] = [al ! unat x]"
proof -
  have al: "2 \<le> length al"
    using assms by (simp add: alphabet_ok_def)
  then have "radixLE (length al) (unat x) = (if x = 0 then [] else [unat x])"
    using assms(2) by (simp add: radixLE.simps [of _ "unat x"] unat_eq_zero)
  then show ?thesis
    by (simp add: encodeText_def leadZeros_def)
qed

lemma base36_ok: "alphabet_ok base36"
  by (simp add: alphabet_ok_def base36_def)

lemma base58_ok: "alphabet_ok base58"
  by (simp add: alphabet_ok_def base58_def)

lemmas base36_inverse =
  decode_encode_text [OF base36_ok, folded base36_EncodeBytes_def base36_DecodeToBytes_def]
  encode_decode_text [OF base36_ok, folded base36_EncodeBytes_def base36_DecodeToBytes_def]

lemma CheckDecode_Encode:
  assumes "\<And>x. 4 \<le> length (sha256 x)"
  shows "CheckDecode sha256 (CheckEncode sha256 input version) = Some (input, version)"
proof -
  have "length (checksum sha256 x) = 4" for x
    using assms [of "sha256 x"] by (simp add: checksum_def)
  then show ?thesis
    by (simp add: CheckDecode_def CheckEncode_def Let_def base58_Decode_def base58_Encode_def decode_encode_text [OF base58_ok])
qed

end
