(* ===== verification/AssetText.thy ===== *)
theory AssetText
  imports TokenEngine Radix
begin

text \<open>
  Assets and their text forms: \<open>src/dag/modules/asset.go\<close>, \<open>assetId.go\<close> and \<open>uniqueId.go\<close>. An asset id packs a
  symbol of up to five base-36 digits, the kind of asset, the kind of its unique ids, the number of decimals and eleven
  bytes of the request that made it into sixteen bytes. The parsing of a decimal number by \<open>math/big\<close>
  is a parameter.
\<close>

section \<open>Model\<close>

abbreviation (input) ID_LENGTH :: nat where "ID_LENGTH \<equiv> 16"
abbreviation (input) AssetType_FungibleToken :: byte where "AssetType_FungibleToken \<equiv> 0"
abbreviation (input) AssetType_NonFungibleToken :: byte where "AssetType_NonFungibleToken \<equiv> 1"
abbreviation (input) UniqueIdType_Null :: byte where "UniqueIdType_Null \<equiv> 0"
abbreviation (input) UniqueIdType_Sequence :: byte where "UniqueIdType_Sequence \<equiv> 1"
abbreviation (input) UniqueIdType_Uuid :: byte where "UniqueIdType_Uuid \<equiv> 2"
abbreviation (input) UniqueIdType_UserDefine :: byte where "UniqueIdType_UserDefine \<equiv> 3"
abbreviation (input) UniqueIdType_Ascii :: byte where "UniqueIdType_Ascii \<equiv> 4"

text \<open>\<open>SetBytes\<close> of both kinds of id on an id of sixteen zero bytes.\<close>

definition idSetBytes :: "bytes \<Rightarrow> bytes" where
  "idSetBytes b =
     (let b' = (if length b > ID_LENGTH then drop (length b - ID_LENGTH) b else b)
      in copyAt (ID_LENGTH - length b') b' (replicate ID_LENGTH 0))"

definition bytesOfString :: "string \<Rightarrow> bytes" where
  "bytesOfString s = map (\<lambda>c. word_of_nat (of_char c)) s"

definition stringOfBytes :: "bytes \<Rightarrow> string" where
  "stringOfBytes b = map (\<lambda>x. char_of (unat x)) b"

definition bigOfBytes :: "bytes \<Rightarrow> nat" where
  "bigOfBytes b = radixVal 256 (rev (map unat b))"

definition bytesOfBig :: "nat \<Rightarrow> bytes" where
  "bytesOfBig n = rev (map word_of_nat (radixLE 256 n))"

subsection \<open>Unique ids\<close>

definition FormatUUID :: "bytes \<Rightarrow> string" where
  "FormatUUID buf = hexString (take 4 buf) @ ''-'' @ hexString (take 2 (drop 4 buf)) @ ''-'' @ hexString (take 2 (drop 6 buf))
     @ ''-'' @ hexString (take 2 (drop 8 buf)) @ ''-'' @ hexString (take 6 (drop 10 buf))"

definition hexValid :: "string \<Rightarrow> bool" where
  "hexValid s = (even (length s) \<and> list_all (\<lambda>c. fromHexChar c \<noteq> None) s)"

definition ParseUUID :: "string \<Rightarrow> script_error + bytes" where
  "ParseUUID uuid =
     (if length uuid \<noteq> 2 * 16 + 4 then Inl (ErrOther ''uuid string is wrong length'')
      else if uuid ! 8 \<noteq> CHR ''-'' \<or> uuid ! 13 \<noteq> CHR ''-'' \<or> uuid ! 18 \<noteq> CHR ''-'' \<or> uuid ! 23 \<noteq> CHR ''-''
      then Inl (ErrOther ''uuid is improperly formatted'')
      else
        (let hexStr = take 8 uuid @ take 4 (drop 9 uuid) @ take 4 (drop 14 uuid) @ take 4 (drop 19 uuid) @ take 12 (drop 24 uuid)
         in if \<not> hexValid hexStr then Inl (ErrOther ''invalid hex'')
            else if length (hexDecode hexStr) \<noteq> 16 then Inl (ErrOther ''decoded hex is the wrong length'')
            else Inr (hexDecode hexStr)))"

definition StringFriendly :: "byte \<Rightarrow> bytes \<Rightarrow> string" where
  "StringFriendly t uid =
     (if t = UniqueIdType_Sequence then decString (bigOfBytes uid)
      else if t = UniqueIdType_Null then ''''
      else if t = UniqueIdType_Uuid then FormatUUID uid
      else if t = UniqueIdType_UserDefine then hexString uid
      else if t = UniqueIdType_Ascii then stringOfBytes uid
      else '''')"

definition String2UniqueId :: "(string \<Rightarrow> nat) \<Rightarrow> string \<Rightarrow> byte \<Rightarrow> bytes \<times> script_error option" where
  "String2UniqueId bigParse str t =
     (if t = UniqueIdType_Sequence then (idSetBytes (bytesOfBig (bigParse str)), None)
      else if t = UniqueIdType_Null then (replicate ID_LENGTH 0, None)
      else if t = UniqueIdType_Uuid then
        (case ParseUUID str of Inl e \<Rightarrow> (replicate ID_LENGTH 0, Some e) | Inr b \<Rightarrow> (idSetBytes b, None))
      else if t = UniqueIdType_UserDefine then
        (idSetBytes (hexDecode str), if hexValid str then None else Some (ErrOther ''invalid hex''))
      else if t = UniqueIdType_Ascii then (idSetBytes (bytesOfString str), None)
      else (replicate ID_LENGTH 0, Some (ErrOther ''Unknown UniequeIdType'')))"

subsection \<open>Asset ids\<close>

definition NewAssetId :: "string \<Rightarrow> byte \<Rightarrow> byte \<Rightarrow> bytes \<Rightarrow> byte \<Rightarrow> script_error + bytes" where
  "NewAssetId symbol assetType decimal requestId uniqueIdType =
     (if length symbol > 5 \<or> length symbol = 0 then Inl (ErrOther ''Symbol must less than 5 characters'')
      else if decimal > 18 then Inl (ErrOther ''Decimal must less than 19'')
      else if length requestId < 11 then Inl (ErrOther ''requestId must more than 10'')
      else
        (let assetSymbol = base36_DecodeToBytes symbol
         in if length assetSymbol > 4 then Inl GoPanic
            else
              (let assetId = copyAt (4 - length assetSymbol) assetSymbol (replicate ID_LENGTH 0);
                   firstByte = assetId ! 0 OR word_of_nat (length assetSymbol * 32);
                   firstByte = firstByte OR push_bit 2 assetType;
                   assetId = assetId[0 := firstByte];
                   assetId = assetId[4 := push_bit 5 uniqueIdType OR decimal]
               in Inr (copyAt 5 (take 11 requestId) assetId))))"

definition GetSymbol :: "bytes \<Rightarrow> script_error + string" where
  "GetSymbol aid =
     (let assetId0 = aid ! 0; len = drop_bit 5 assetId0; assetId = aid[0 := assetId0 AND 3]
      in if len > 4 then Inl GoPanic
         else Inr (base36_EncodeBytes (take (unat len) (drop (4 - unat len) assetId))))"

definition GetAssetType :: "bytes \<Rightarrow> byte" where
  "GetAssetType aid = drop_bit 2 (aid ! 0 AND 0xc)"

definition GetDecimalId :: "bytes \<Rightarrow> byte" where
  "GetDecimalId aid = aid ! 4 AND 0x1f"

definition ParseAssetId :: "bytes \<Rightarrow> script_error + (string \<times> byte \<times> byte \<times> bytes \<times> byte)" where
  "ParseAssetId aid =
     bindS (GetSymbol aid) (\<lambda>symbol. Inr (symbol, GetAssetType aid, GetDecimalId aid, drop 5 aid, drop_bit 5 (aid ! 4)))"

definition assetIdString :: "bytes \<Rightarrow> script_error + string" where
  "assetIdString it =
     (if it = PTNCOIN then Inr ''PTN''
      else bindS (ParseAssetId it) (\<lambda>(symbol, assetType, decimal, txHash, uidType).
        if list_all (\<lambda>b. b = 0) txHash \<and> assetType = AssetType_FungibleToken \<and> decimal = 8 then Inr symbol
        else
          (let type2 = push_bit 3 assetType OR uidType
           in Inr (symbol @ ''+'' @ base36_EncodeBytes [decimal] @ base36_EncodeBytes [type2] @ base36_EncodeBytes txHash))))"

definition toUpperChar :: "char \<Rightarrow> char" where
  "toUpperChar c = (let n = of_char c :: nat in if 97 \<le> n \<and> n \<le> 122 then char_of (n - 32) else c)"

definition ToUpper :: "string \<Rightarrow> string" where
  "ToUpper s = map toUpperChar s"

text \<open>\<open>strings.Split\<close> at a separator of one character.\<close>

fun splitAt :: "char \<Rightarrow> string \<Rightarrow> string list" where
  "splitAt sep [] = [[]]"
| "splitAt sep (c # cs) =
     (if c = sep then [] # splitAt sep cs else case splitAt sep cs of [] \<Rightarrow> [[c]] | f # fs \<Rightarrow> (c # f) # fs)"

definition String2AssetId :: "string \<Rightarrow> script_error + bytes \<times> byte" where
  "String2AssetId str0 =
     (let str = ToUpper str0
      in if str = ''PTN'' then Inr (PTNCOIN, UniqueIdType_Null)
         else
           (let strArray = splitAt (CHR ''+'') str
            in if length strArray < 2 then
                 bindS (NewAssetId (strArray ! 0) AssetType_FungibleToken 8 (replicate 11 0) UniqueIdType_Null)
                   (\<lambda>asset. Inr (asset, UniqueIdType_Null))
               else
                 (let symbol = strArray ! 0; rest = strArray ! 1
                  in if length rest < 2 then Inl GoPanic
                     else case (base36_DecodeToBytes [rest ! 1], base36_DecodeToBytes [rest ! 0]) of
                       (type2 # _, decimal # _) \<Rightarrow>
                         bindS (NewAssetId symbol (drop_bit 3 type2) decimal (base36_DecodeToBytes (drop 2 rest)) (type2 AND 7))
                           (\<lambda>assetId. Inr (assetId, type2 AND 7))
                     | _ \<Rightarrow> Inl GoPanic)))"

subsection \<open>Assets\<close>

definition NewAsset :: "string \<Rightarrow> byte \<Rightarrow> byte \<Rightarrow> bytes \<Rightarrow> byte \<Rightarrow> bytes \<Rightarrow> script_error + asset" where
  "NewAsset symbol assetType decimal requestId uidType uniqueId =
     bindS (NewAssetId symbol assetType decimal requestId uidType) (\<lambda>assetId. Inr \<lparr>AssetId = assetId, UniqueId = uniqueId\<rparr>)"

definition NewPTNAsset :: "script_error + asset" where
  "NewPTNAsset = NewAsset ''PTN'' AssetType_FungibleToken 8 (replicate 16 0) UniqueIdType_Null (replicate ID_LENGTH 0)"

definition assetString :: "asset \<Rightarrow> script_error + string" where
  "assetString asset =
     (if AssetId asset = PTNCOIN then Inr ''PTN''
      else bindS (ParseAssetId (AssetId asset)) (\<lambda>(_, t, _, _, uidType).
        bindS (assetIdString (AssetId asset)) (\<lambda>assetIdStr.
        if t \<noteq> AssetType_NonFungibleToken then Inr assetIdStr
        else Inr (assetIdStr @ ''-'' @ StringFriendly uidType (UniqueId asset)))))"

definition StringToAsset :: "(string \<Rightarrow> nat) \<Rightarrow> string \<Rightarrow> script_error + asset" where
  "StringToAsset bigParse str =
     (if str = ''PTN'' then Inr \<lparr>AssetId = PTNCOIN, UniqueId = replicate ID_LENGTH 0\<rparr>
      else if CHR ''-'' \<notin> set str then
        bindS (String2AssetId str) (\<lambda>(a, _). Inr \<lparr>AssetId = a, UniqueId = replicate ID_LENGTH 0\<rparr>)
      else
        (let strArray = splitAt (CHR ''-'') str
         in bindS (String2AssetId (strArray ! 0)) (\<lambda>(a, uniqueIdType).
            case String2UniqueId bigParse (drop (length (strArray ! 0) + 1) str) uniqueIdType of
              (_, Some e) \<Rightarrow> Inl e
            | (uniqueId, None) \<Rightarrow> Inr \<lparr>AssetId = a, UniqueId = uniqueId\<rparr>)))"

definition assetSetBytes :: "bytes \<Rightarrow> script_error + asset" where
  "assetSetBytes data =
     (if length data \<noteq> 32 then Inl (ErrOther ''data length not equal 32'')
      else Inr \<lparr>AssetId = idSetBytes (take 16 data), UniqueId = idSetBytes (drop 16 data)\<rparr>)"

section \<open>Round trips\<close>

definition symbolText :: "string \<Rightarrow> bool" where
  "symbolText s \<longleftrightarrow> set s \<subseteq> set base36"

lemma base36_length: "length base36 = 36"
  by code_simp

lemma symbol_first_byte:
  assumes "symbolText s" and "length s \<le> 5" and "base36_DecodeToBytes s = b # bs" and "length bs = 3"
  shows "unat b < 4"
proof -
  have "radixVal 256 (rev (map unat (b # bs))) < 36 ^ length s"
    using decodeText_bound [OF base36_ok, of s] assms(1,3)
    by (simp add: symbolText_def base36_DecodeToBytes_def base36_length)
  also have "(36 :: nat) ^ length s \<le> 36 ^ 5"
    using assms(2) by (intro power_increasing) simp_all
  finally have "256 ^ 3 * unat b < 36 ^ 5"
    using assms(4) by (simp add: radixVal_append)
  then show ?thesis by simp
qed

text \<open>The first byte holds the length of the symbol, the kind of asset and the top two bits of the symbol.\<close>

lemma pack_first_byte:
  assumes "b < 4" and "n \<le> 4" and "t < 4"
  shows "drop_bit 5 ((word_of_nat b OR word_of_nat (n * 32) OR push_bit 2 (word_of_nat t)) :: byte) = word_of_nat n
    \<and> drop_bit 2 ((word_of_nat b OR word_of_nat (n * 32) OR push_bit 2 (word_of_nat t)) AND 0xc :: byte) = word_of_nat t
    \<and> (word_of_nat b OR word_of_nat (n * 32) OR push_bit 2 (word_of_nat t)) AND 3 = (word_of_nat b :: byte)"
proof -
  have "\<forall>b\<in>set [0..<4]. \<forall>n\<in>set [0..<5]. \<forall>t\<in>set [0..<4].
    drop_bit 5 ((word_of_nat b OR word_of_nat (n * 32) OR push_bit 2 (word_of_nat t)) :: byte) = word_of_nat n
    \<and> drop_bit 2 ((word_of_nat b OR word_of_nat (n * 32) OR push_bit 2 (word_of_nat t)) AND 0xc :: byte) = word_of_nat t
    \<and> (word_of_nat b OR word_of_nat (n * 32) OR push_bit 2 (word_of_nat t)) AND 3 = (word_of_nat b :: byte)"
    by code_simp
  with assms show ?thesis by simp
qed

lemma pack_fifth_byte:
  assumes "u < 8" and "d \<le> 18"
  shows "drop_bit 5 (push_bit 5 (word_of_nat u) OR word_of_nat d :: byte) = word_of_nat u
    \<and> (push_bit 5 (word_of_nat u) OR word_of_nat d) AND 0x1f = (word_of_nat d :: byte)"
proof -
  have "\<forall>u\<in>set [0..<8]. \<forall>d\<in>set [0..<19].
    drop_bit 5 (push_bit 5 (word_of_nat u) OR word_of_nat d :: byte) = word_of_nat u
    \<and> (push_bit 5 (word_of_nat u) OR word_of_nat d) AND 0x1f = (word_of_nat d :: byte)"
    by code_simp
  with assms show ?thesis by simp
qed

lemma NewAssetId_layout:
  assumes "NewAssetId symbol t dec req u = Inr aid"
  obtains s where "base36_DecodeToBytes symbol = s" and "length s \<le> 4" and "0 < length symbol \<and> length symbol \<le> 5"
    and "dec \<le> 18" and "11 \<le> length req"
    and "aid = (hd (replicate (4 - length s) 0 @ s @ [0]) OR word_of_nat (length s * 32) OR push_bit 2 t)
       # tl (replicate (4 - length s) 0 @ s) @ (push_bit 5 u OR dec) # take 11 req"
proof -
  define s where "s = base36_DecodeToBytes symbol"
  have le: "length s \<le> 4" and ok: "0 < length symbol \<and> length symbol \<le> 5" "dec \<le> 18" "11 \<le> length req"
    using assms by (auto simp: NewAssetId_def Let_def s_def not_less split: if_splits)
  define r where "r = take 11 req"
  have r: "length r = 11" using ok by (simp add: r_def)
  have z: "replicate 16 (0 :: byte) = [0, 0, 0, 0, 0, 0, 0, 0, 0, 0, 0, 0, 0, 0, 0, 0]"
    by (simp add: numeral_eq_Suc)
  have aid: "aid = copyAt 5 r (((copyAt (4 - length s) s (replicate 16 0))
      [0 := copyAt (4 - length s) s (replicate 16 0) ! 0 OR word_of_nat (length s * 32) OR push_bit 2 t])[4 := push_bit 5 u OR dec])"
    using assms by (auto simp: NewAssetId_def Let_def s_def r_def or.assoc split: if_splits)
  from le consider "s = []" | a where "s = [a]" | a b where "s = [a, b]" | a b c where "s = [a, b, c]"
    | a b c d where "s = [a, b, c, d]"
    by (cases s rule: list.exhaust; fastforce simp: length_Suc_conv le_Suc_eq numeral_eq_Suc)
  then have "aid = (hd (replicate (4 - length s) 0 @ s @ [0]) OR word_of_nat (length s * 32) OR push_bit 2 t)
       # tl (replicate (4 - length s) 0 @ s) @ (push_bit 5 u OR dec) # r"
    by cases (simp_all add: aid z r copyAt_def, simp_all add: numeral_eq_Suc)
  then have "aid = (hd (replicate (4 - length s) 0 @ s @ [0]) OR word_of_nat (length s * 32) OR push_bit 2 t)
       # tl (replicate (4 - length s) 0 @ s) @ (push_bit 5 u OR dec) # take 11 req"
    by (simp only: r_def)
  with le ok show thesis by (intro that [of s]) (simp_all add: s_def)
qed

lemma ParseAssetId_New:
  assumes "NewAssetId symbol t dec req u = Inr aid" and "symbolText symbol" and "t < 4" and "u < 8"
  shows "ParseAssetId aid = Inr (symbol, t, dec, take 11 req, u) \<and> length aid = 16"
proof -
  obtain s where s: "base36_DecodeToBytes symbol = s" "length s \<le> 4" "0 < length symbol \<and> length symbol \<le> 5" "dec \<le> 18"
      "11 \<le> length req"
    and aid: "aid = (hd (replicate (4 - length s) 0 @ s @ [0]) OR word_of_nat (length s * 32) OR push_bit 2 t)
       # tl (replicate (4 - length s) 0 @ s) @ (push_bit 5 u OR dec) # take 11 req"
    using assms(1) by (rule NewAssetId_layout)
  define h where "h = hd (replicate (4 - length s) 0 @ s @ [0])"
  define w where "w = replicate (4 - length s) 0 @ s"
  have w4: "length w = 4"
    using s(2) by (simp add: w_def)
  then have "h = hd w"
    by (cases w) (simp_all add: h_def w_def [symmetric] flip: append_assoc)
  with w4 have w: "length w = 4" "w = h # tl w"
    by (cases w; simp)+
  have h4: "unat h < 4"
  proof (cases "length s = 4")
    case True
    then obtain bs where "s = h # bs" "length bs = 3"
      by (cases s) (simp_all add: h_def)
    with symbol_first_byte assms(2) s(1,3) show ?thesis by blast
  next
    case False
    with s(2) show ?thesis by (cases "4 - length s") (simp_all add: h_def)
  qed
  have first: "drop_bit 5 (h OR word_of_nat (length s * 32) OR push_bit 2 t) = word_of_nat (length s)"
    "drop_bit 2 ((h OR word_of_nat (length s * 32) OR push_bit 2 t) AND 0xc) = t"
    "(h OR word_of_nat (length s * 32) OR push_bit 2 t) AND 3 = h"
    using pack_first_byte [of "unat h" "length s" "unat t"] h4 s(2) assms(3) by (simp_all add: word_less_nat_alt)
  have fifth: "drop_bit 5 (push_bit 5 u OR dec) = u" "(push_bit 5 u OR dec) AND 0x1f = dec"
    using pack_fifth_byte [of "unat u" "unat dec"] assms(4) s(4) by (simp_all add: word_less_nat_alt word_le_nat_alt)
  have aid': "aid = (h OR word_of_nat (length s * 32) OR push_bit 2 t) # tl w @ (push_bit 5 u OR dec) # take 11 req"
    using aid by (simp add: h_def w_def)
  have "word_of_nat (length s) \<le> (4 :: byte)" "unat (word_of_nat (length s) :: byte) = length s"
    using s(2) by (simp_all add: word_le_nat_alt unat_of_nat)
  moreover have "take (length s) (drop (4 - length s) (h # tl w @ x)) = s" for x
    using w s(2) by (simp flip: w(2) append_Cons) (simp add: w_def)
  ultimately have "GetSymbol aid = Inr symbol"
    using s(1) assms(2) base36_inverse(2) [of symbol] first(1,3)
    by (simp add: GetSymbol_def Let_def aid' not_less symbolText_def)
  with w(1) s(5) first(2) fifth show ?thesis
    by (simp add: ParseAssetId_def bindS_def GetAssetType_def GetDecimalId_def aid' nth_Cons' nth_append)
qed

lemma base36_plain: "c \<in> set base36 \<Longrightarrow> toUpperChar c = c \<and> c \<noteq> CHR ''+'' \<and> c \<noteq> CHR ''-''"
proof -
  have "\<forall>c\<in>set base36. toUpperChar c = c \<and> c \<noteq> CHR ''+'' \<and> c \<noteq> CHR ''-''"
    by code_simp
  then show "c \<in> set base36 \<Longrightarrow> toUpperChar c = c \<and> c \<noteq> CHR ''+'' \<and> c \<noteq> CHR ''-''"
    by blast
qed

lemma ToUpper_symbol: "symbolText s \<Longrightarrow> ToUpper s = s"
  using base36_plain by (auto simp: ToUpper_def symbolText_def intro!: map_idI)

lemma splitAt_none: "sep \<notin> set s \<Longrightarrow> splitAt sep s = [s]"
  by (induction s) auto

lemma splitAt_first: "sep \<notin> set s \<Longrightarrow> splitAt sep (s @ sep # r) = s # splitAt sep r"
  by (induction s) auto

lemma symbolText_encode: "symbolText (base36_EncodeBytes b)"
  using encodeText_chars [OF base36_ok] by (simp add: symbolText_def base36_EncodeBytes_def)

lemma base36_digit: "unat x < 36 \<Longrightarrow> base36_EncodeBytes [x] = [base36 ! unat x]"
  by (simp add: base36_EncodeBytes_def encodeText_digit [OF base36_ok] base36_length)

lemma base36_digit_decode: "unat x < 36 \<Longrightarrow> base36_DecodeToBytes [base36 ! unat x] = [x]"
  using base36_inverse(1) [of "[x]"] by (simp add: base36_digit)

lemma type2_pack:
  assumes "t < 4" and "u < 8"
  shows "drop_bit 3 (push_bit 3 t OR u) = t \<and> (push_bit 3 t OR u) AND 7 = u \<and> unat (push_bit 3 t OR u :: byte) < 36"
proof -
  have "\<forall>t\<in>set [0..<4]. \<forall>u\<in>set [0..<8].
    drop_bit 3 (push_bit 3 (word_of_nat t) OR word_of_nat u) = (word_of_nat t :: byte)
    \<and> (push_bit 3 (word_of_nat t) OR word_of_nat u) AND 7 = (word_of_nat u :: byte)
    \<and> unat (push_bit 3 (word_of_nat t) OR word_of_nat u :: byte) < 36"
    by code_simp
  from this [rule_format, of "unat t" "unat u"] show ?thesis
    using assms by (simp add: word_less_nat_alt)
qed

lemma NewAssetId_take: "11 \<le> length req \<Longrightarrow> NewAssetId symbol t dec (take 11 req) u = NewAssetId symbol t dec req u"
  by (simp add: NewAssetId_def Let_def)

lemma base36_PTN: "base36_DecodeToBytes ''PTN'' = [0x82, 0xBB]"
proof -
  have digits: "idxOf (CHR ''N'') base36 = Some 23" "idxOf (CHR ''T'') base36 = Some 29" "idxOf (CHR ''P'') base36 = Some 25"
    "base36 ! 0 = CHR ''0''"
    by code_simp+
  have "decodeLoop base36 (rev ''PTN'') 0 1 = Some 33467"
    by (simp add: digits base36_length)
  moreover have "radixLE 256 33467 = [0xBB, 0x82]"
    by (simp add: radixLE.simps)
  ultimately show ?thesis
    by (simp add: base36_DecodeToBytes_def decodeText_def digits(4))
qed

lemma NewAssetId_PTN: "NewAssetId ''PTN'' 0 8 (replicate 11 0) 0 = Inr PTNCOIN"
proof -
  have "replicate 16 (0 :: byte) = [0, 0, 0, 0, 0, 0, 0, 0, 0, 0, 0, 0, 0, 0, 0, 0]"
    "replicate 11 (0 :: byte) = [0, 0, 0, 0, 0, 0, 0, 0, 0, 0, 0]"
    by (simp_all add: numeral_eq_Suc)
  then show ?thesis
    by (simp add: NewAssetId_def base36_PTN Let_def copyAt_def PTNCOIN_def)
qed

lemma ParseAssetId_PTN: "ParseAssetId PTNCOIN = Inr (''PTN'', 0, 8, replicate 11 0, 0)"
proof -
  have "symbolText ''PTN''" by code_simp
  then show ?thesis using ParseAssetId_New [OF NewAssetId_PTN] by simp
qed

text \<open>An asset id that \<open>NewAssetId\<close> made and whose kinds fit their fields.\<close>

definition assetId_of :: "string \<Rightarrow> byte \<Rightarrow> byte \<Rightarrow> bytes \<Rightarrow> byte \<Rightarrow> bytes \<Rightarrow> bool" where
  "assetId_of symbol t dec req u aid \<longleftrightarrow> NewAssetId symbol t dec req u = Inr aid \<and> symbolText symbol \<and> t < 4 \<and> u < 8
     \<and> (take 11 req = replicate 11 0 \<and> t = AssetType_FungibleToken \<and> dec = 8 \<longrightarrow> u = UniqueIdType_Null)"

lemma assetIdString_of:
  assumes "assetId_of symbol t dec req u aid"
  shows "\<exists>s. assetIdString aid = Inr s \<and> String2AssetId s = Inr (aid, u) \<and> CHR ''-'' \<notin> set s \<and> (s = ''PTN'' \<longrightarrow> aid = PTNCOIN)"
proof (cases "aid = PTNCOIN")
  case True
  then have "u = 0"
    using assms ParseAssetId_New [of symbol t dec req u aid] ParseAssetId_PTN by (simp add: assetId_of_def)
  with True show ?thesis
    by (simp add: assetIdString_def String2AssetId_def ToUpper_def toUpperChar_def)
next
  case False
  have new: "NewAssetId symbol t dec req u = Inr aid" and sym: "symbolText symbol" and tu: "t < 4" "u < 8"
    using assms by (simp_all add: assetId_of_def)
  have parse: "ParseAssetId aid = Inr (symbol, t, dec, take 11 req, u)"
    using ParseAssetId_New [OF new sym tu] by simp
  have ok: "dec \<le> 18" "11 \<le> length req"
    using new by (auto simp: NewAssetId_def not_less split: if_splits)
  have no: "CHR ''+'' \<notin> set symbol" "CHR ''-'' \<notin> set symbol"
    using sym base36_plain by (auto simp: symbolText_def)
  have zeros: "list_all (\<lambda>b. b = 0) (take 11 req) \<longleftrightarrow> take 11 req = replicate 11 0"
    using ok(2) by (auto simp: list_all_iff intro!: replicate_eqI)
  show ?thesis
  proof (cases "take 11 req = replicate 11 0 \<and> t = AssetType_FungibleToken \<and> dec = 8")
    case True
    then have u: "u = 0"
      using assms by (simp add: assetId_of_def)
    moreover from u True new have "NewAssetId symbol 0 8 (replicate 11 0) 0 = Inr aid"
      using NewAssetId_take [OF ok(2), of symbol t dec u] by simp
    moreover from this False have "symbol \<noteq> ''PTN''"
      using NewAssetId_PTN by auto
    moreover have "assetIdString aid = Inr symbol"
      using True False parse zeros by (simp add: assetIdString_def bindS_def)
    ultimately show ?thesis
      using sym no by (simp add: String2AssetId_def ToUpper_symbol Let_def splitAt_none bindS_def)
  next
    case long: False
    define ty where "ty = push_bit 3 t OR u"
    have ty: "drop_bit 3 ty = t" "ty AND 7 = u" "unat ty < 36"
      using type2_pack [OF tu] by (simp_all add: ty_def)
    have d: "unat dec < 36"
      using ok(1) by (simp add: word_le_nat_alt)
    define tail where "tail = (base36 ! unat dec) # (base36 ! unat ty) # base36_EncodeBytes (take 11 req)"
    have str: "assetIdString aid = Inr (symbol @ CHR ''+'' # tail)"
      using long False parse zeros d ty(3) unfolding tail_def ty_def
      by (auto simp: assetIdString_def bindS_def Let_def base36_digit)
    have tl: "symbolText tail"
      using symbolText_encode [of "take 11 req"] d ty(3) by (simp add: symbolText_def tail_def base36_length)
    then have plain: "CHR ''+'' \<notin> set tail" "CHR ''-'' \<notin> set tail"
      using base36_plain by (auto simp: symbolText_def)
    have up: "ToUpper (symbol @ CHR ''+'' # tail) = symbol @ CHR ''+'' # tail"
      using ToUpper_symbol [OF sym] ToUpper_symbol [OF tl] by (simp add: ToUpper_def toUpperChar_def)
    have split: "splitAt (CHR ''+'') (symbol @ CHR ''+'' # tail) = [symbol, tail]"
      using no(1) plain(1) by (simp add: splitAt_first splitAt_none)
    have parts: "\<not> length tail < 2" "base36_DecodeToBytes [tail ! Suc 0] = [ty]" "base36_DecodeToBytes [tail ! 0] = [dec]"
      "base36_DecodeToBytes (drop 2 tail) = take 11 req"
      using d ty(3) base36_inverse(1) [of "take 11 req"] by (simp_all add: tail_def base36_digit_decode)
    have "symbol @ CHR ''+'' # tail \<noteq> ''PTN''"
      using no(1) by (auto simp: append_eq_Cons_conv)
    then have "String2AssetId (symbol @ CHR ''+'' # tail) = Inr (aid, u)"
      using new ty NewAssetId_take [OF ok(2), of symbol t dec u]
      by (simp add: String2AssetId_def up split parts Let_def bindS_def)
    with str no(2) plain(2) show ?thesis
      by (auto simp: append_eq_Cons_conv)
  qed
qed

subsection \<open>Unique ids\<close>

lemma idSetBytes_full: "length b = 16 \<Longrightarrow> idSetBytes b = b"
  by (simp add: idSetBytes_def copyAt_def)

lemma idSetBytes_big:
  assumes "length uid = 16"
  shows "idSetBytes (bytesOfBig (bigOfBytes uid)) = uid"
proof -
  define z where "z = leadZeros uid"
  obtain es where es: "uid = replicate z 0 @ es" "es = [] \<or> hd es \<noteq> 0"
    using split_zeros [of uid] by (auto simp: z_def)
  have "radixLE 256 (radixVal 256 (rev (map unat es))) = rev (map unat es)"
    using es(2) by (intro radixLE_Val; cases es) (auto simp: unat_byte_less unat_eq_zero)
  moreover have "bigOfBytes uid = radixVal 256 (rev (map unat es))"
    unfolding es(1) bigOfBytes_def by (simp add: radixVal_append)
  ultimately have "bytesOfBig (bigOfBytes uid) = es"
    by (simp add: bytesOfBig_def o_def flip: rev_map)
  moreover have "16 - length es = z" "length es \<le> 16"
    using assms es(1) by auto
  ultimately show ?thesis
    using es(1) by (simp add: idSetBytes_def copyAt_def Let_def)
qed

lemma hexValid_hexString: "hexValid (hexString b)"
proof -
  have "list_all (\<lambda>c. fromHexChar c \<noteq> None) (hexString b)"
    using unat_byte_digits by (induction b) (simp_all add: hexString_def hexByte_def hexDigit_inverse)
  then show ?thesis by (simp add: hexValid_def hexString_length)
qed

lemma ParseUUID_Format:
  assumes "length uid = 16"
  shows "ParseUUID (FormatUUID uid) = Inr uid"
proof -
  obtain x0 x1 x2 x3 x4 x5 x6 x7 x8 x9 x10 x11 x12 x13 x14 x15
    where uid: "uid = [x0, x1, x2, x3, x4, x5, x6, x7, x8, x9, x10, x11, x12, x13, x14, x15]"
    using assms by (auto simp: numeral_eq_Suc length_Suc_conv)
  define uuid where "uuid = FormatUUID uid"
  have "length uuid = 36" "uuid ! 8 = CHR ''-''" "uuid ! 13 = CHR ''-''" "uuid ! 18 = CHR ''-''" "uuid ! 23 = CHR ''-''"
    by (simp_all add: uuid_def FormatUUID_def uid hexString_def hexByte_def)
  moreover have "take 8 uuid @ take 4 (drop 9 uuid) @ take 4 (drop 14 uuid) @ take 4 (drop 19 uuid) @ take 12 (drop 24 uuid) = hexString uid"
    by (simp add: uuid_def FormatUUID_def uid hexString_def hexByte_def)
  ultimately show ?thesis
    using assms hexValid_hexString [of uid] by (simp add: ParseUUID_def Let_def flip: uuid_def)
qed

lemma String2UniqueId_Friendly:
  assumes "length uid = 16" and "t \<in> {UniqueIdType_Sequence, UniqueIdType_Uuid, UniqueIdType_UserDefine, UniqueIdType_Ascii}
      \<or> t = UniqueIdType_Null \<and> uid = replicate 16 0"
    and "\<And>n. bigParse (decString n) = n"
  shows "String2UniqueId bigParse (StringFriendly t uid) t = (uid, None)"
proof -
  have "bytesOfString (stringOfBytes uid) = uid"
    by (simp add: bytesOfString_def stringOfBytes_def o_def unat_byte_less)
  with assms show ?thesis
    by (auto simp: String2UniqueId_def StringFriendly_def idSetBytes_big idSetBytes_full ParseUUID_Format hexValid_hexString)
qed

text \<open>
  An asset whose text determines it: its id was made by \<open>NewAssetId\<close>, and it has a unique id only if its kind
  prints one.
\<close>

definition assetText_ok :: "string \<Rightarrow> byte \<Rightarrow> byte \<Rightarrow> bytes \<Rightarrow> byte \<Rightarrow> asset \<Rightarrow> bool" where
  "assetText_ok symbol t dec req u a \<longleftrightarrow> assetId_of symbol t dec req u (AssetId a) \<and> length (UniqueId a) = 16
     \<and> (t = AssetType_NonFungibleToken \<and>
          u \<in> {UniqueIdType_Sequence, UniqueIdType_Uuid, UniqueIdType_UserDefine, UniqueIdType_Ascii}
        \<or> (t = AssetType_NonFungibleToken \<longrightarrow> u = UniqueIdType_Null) \<and> UniqueId a = replicate 16 0)"

text \<open>
  C27. The text of an asset reads back as the asset: the symbol, the kind of asset, the decimals, the request and
  the unique id in each of its four notations survive the packing into sixteen bytes, base 36 and the separators.
\<close>

theorem asset_text_roundtrip:
  assumes "assetText_ok symbol t dec req u a" and "\<And>n. bigParse (decString n) = n"
  shows "\<exists>s. assetString a = Inr s \<and> StringToAsset bigParse s = Inr a"
proof -
  have of: "assetId_of symbol t dec req u (AssetId a)" and l: "length (UniqueId a) = 16"
    using assms(1) by (simp_all add: assetText_ok_def)
  obtain s where s: "assetIdString (AssetId a) = Inr s" "String2AssetId s = Inr (AssetId a, u)" "CHR ''-'' \<notin> set s"
      "s = ''PTN'' \<longrightarrow> AssetId a = PTNCOIN"
    using assetIdString_of [OF of] by blast
  have parse: "ParseAssetId (AssetId a) = Inr (symbol, t, dec, take 11 req, u)"
    using of ParseAssetId_New by (auto simp: assetId_of_def)
  show ?thesis
  proof (cases "t = AssetType_NonFungibleToken")
    case True
    then have "AssetId a \<noteq> PTNCOIN"
      using parse ParseAssetId_PTN by auto
    moreover have "String2UniqueId bigParse (StringFriendly u (UniqueId a)) u = (UniqueId a, None)"
      using assms True by (intro String2UniqueId_Friendly) (auto simp: assetText_ok_def)
    moreover have "splitAt (CHR ''-'') (s @ CHR ''-'' # x) ! 0 = s" for x
      using s(3) by (simp add: splitAt_first)
    moreover have "s @ CHR ''-'' # x \<noteq> ''PTN''" for x
      by (auto simp: append_eq_Cons_conv)
    ultimately show ?thesis
      using True s parse by (simp add: assetString_def StringToAsset_def bindS_def Let_def)
  next
    case False
    then have "UniqueId a = replicate 16 0"
      using assms(1) by (auto simp: assetText_ok_def)
    then show ?thesis
      using False s parse
      by (cases "AssetId a = PTNCOIN") (auto simp: assetString_def StringToAsset_def bindS_def Let_def intro: asset.equality)
  qed
qed

fun decParse :: "string \<Rightarrow> nat" where
  "decParse s = foldl (\<lambda>n c. 10 * n + (of_char c - 48)) 0 s"

lemma decParse_decString: "decParse (decString n) = n"
proof (induction n rule: decString.induct)
  case (1 n)
  have digit: "\<forall>d\<in>set [0..<10]. of_char (hexDigit d) = 48 + d"
    by code_simp
  show ?case
  proof (cases "n < 10")
    case True
    with digit show ?thesis by (subst decString.simps) simp
  next
    case False
    with 1 have "foldl (\<lambda>n c. 10 * n + (of_char c - 48)) 0 (decString (n div 10)) = n div 10"
      by simp
    moreover have "of_char (hexDigit (n mod 10)) = 48 + n mod 10"
      using digit by simp
    ultimately show ?thesis
      using False by (subst decString.simps) simp
  qed
qed

theorem asset_text_roundtrip_witness:
  "\<exists>s. assetString \<lparr>AssetId = [0x44, 0, 0x82, 0xBB, 0x20, 7, 7, 7, 7, 7, 7, 7, 7, 7, 7, 7], UniqueId = replicate 15 0 @ [42]\<rparr> = Inr s
     \<and> StringToAsset decParse s = Inr \<lparr>AssetId = [0x44, 0, 0x82, 0xBB, 0x20, 7, 7, 7, 7, 7, 7, 7, 7, 7, 7, 7], UniqueId = replicate 15 0 @ [42]\<rparr>"
proof -
  have z: "replicate 16 (0 :: byte) = [0, 0, 0, 0, 0, 0, 0, 0, 0, 0, 0, 0, 0, 0, 0, 0]"
    "replicate 11 (7 :: byte) = [7, 7, 7, 7, 7, 7, 7, 7, 7, 7, 7]" "replicate 11 (0 :: byte) = [0, 0, 0, 0, 0, 0, 0, 0, 0, 0, 0]"
    by (simp_all add: numeral_eq_Suc)
  have "NewAssetId ''PTN'' 1 0 (replicate 11 7) 1 = Inr [0x44, 0, 0x82, 0xBB, 0x20, 7, 7, 7, 7, 7, 7, 7, 7, 7, 7, 7]"
    by (simp add: NewAssetId_def base36_PTN Let_def copyAt_def z)
  moreover have "symbolText ''PTN''" by code_simp
  ultimately have "assetText_ok ''PTN'' 1 0 (replicate 11 7) 1
      \<lparr>AssetId = [0x44, 0, 0x82, 0xBB, 0x20, 7, 7, 7, 7, 7, 7, 7, 7, 7, 7, 7], UniqueId = replicate 15 0 @ [42]\<rparr>"
    by (simp add: assetText_ok_def assetId_of_def)
  then show ?thesis
    by (rule asset_text_roundtrip) (rule decParse_decString)
qed

text \<open>
  C26. The string of an address determines it: with the base58 encoding, its leading zeros and its checksum of four
  bytes, the string of every address of a known type is read back as that address, and the string of an address
  of any other type is refused.
\<close>

theorem address_text_roundtrip:
  assumes "\<And>x. 4 \<le> length (sha256 x)" and "wf_addr a"
  shows "StringToAddress (CheckDecode sha256) (addrStr (CheckEncode sha256) a) =
    (if GetType a \<in> {PublicKeyHash, ScriptHash, ContractHash} then Inr a else Inl AddressTypeInvalid)"
  using CheckDecode_Encode [OF assms(1)] assms(2) by (intro StringToAddress_addrStr) simp_all

theorem address_text_roundtrip_witness:
  "StringToAddress (CheckDecode (\<lambda>x. take 32 (x @ replicate 32 0))) (addrStr (CheckEncode (\<lambda>x. take 32 (x @ replicate 32 0))) (replicate 20 7 @ [5]))
     = Inr (replicate 20 7 @ [5])"
proof -
  have "wf_addr (replicate 20 7 @ [5])" "GetType (replicate 20 7 @ [5]) = 5"
    by (simp_all add: wf_addr_def GetType_def nth_append)
  then show ?thesis
    using address_text_roundtrip [of "\<lambda>x. take 32 (x @ replicate 32 0)" "replicate 20 7 @ [5]"] by simp
qed

text \<open>
  Symbols and ids outside these forms are not all refused with an error: a symbol of five characters with enough leading
  zeros and an asset id with a large first byte run out of an array.
\<close>

lemma NewAssetId_panics:
  assumes "dec \<le> 18" and "11 \<le> length req"
  shows "NewAssetId ''0000Z'' t dec req u = Inl GoPanic"
proof -
  have digits: "idxOf (CHR ''0'') base36 = Some 0" "idxOf (CHR ''Z'') base36 = Some 35" "base36 ! 0 = CHR ''0''"
    by code_simp+
  have "radixLE 256 35 = [35]" by (simp add: radixLE.simps)
  then have "length (base36_DecodeToBytes ''0000Z'') = 5"
    by (simp add: base36_DecodeToBytes_def decodeText_def digits base36_length)
  with assms show ?thesis by (simp add: NewAssetId_def not_less)
qed

lemma GetSymbol_panics: "0xA0 \<le> aid ! 0 \<Longrightarrow> GetSymbol aid = Inl GoPanic"
proof -
  have "list_all (\<lambda>n. 0xA0 \<le> (word_of_nat n :: byte) \<longrightarrow> 4 < drop_bit 5 (word_of_nat n :: byte)) [0..<256]"
    by code_simp
  then have "0xA0 \<le> b \<longrightarrow> 4 < drop_bit 5 b" for b :: byte
    by (rule byte_all)
  then show "0xA0 \<le> aid ! 0 \<Longrightarrow> GetSymbol aid = Inl GoPanic"
    by (simp add: GetSymbol_def Let_def)
qed

end
