(* ===== verification/Float64.thy ===== *)
theory Float64
  imports Complex_Main Prelude
begin

text \<open>
  The \<open>float64\<close> numbers of Go, as far as the code computes with them: a finite number is the rational it
  stands for, every operation is the exact operation followed by rounding to the nearest number with a
  significand of 53 bits, ties to even. The exponent is not bounded: fees and rates stay far from the largest and the
  smallest normal number, so that infinities, subnormal numbers and NaN do not arise.
\<close>

section \<open>Model\<close>

type_synonym float64 = rat

fun ilog2 :: "nat \<Rightarrow> nat" where
  "ilog2 n = (if n \<le> 1 then 0 else Suc (ilog2 (n div 2)))"

declare ilog2.simps [simp del]

definition pow2 :: "int \<Rightarrow> rat" where
  "pow2 k = (if 0 \<le> k then 2 ^ nat k else 1 / 2 ^ nat (- k))"

text \<open>The exponent of a positive number: it lies between \<open>pow2 e\<close> and \<open>pow2 (e + 1)\<close>.\<close>

definition expo :: "rat \<Rightarrow> int" where
  "expo x =
     (let (n, d) = quotient_of x; k = int (ilog2 (nat n)) - int (ilog2 (nat d))
      in if pow2 k \<le> x then k else k - 1)"

definition roundEven :: "rat \<Rightarrow> int" where
  "roundEven x =
     (let f = \<lfloor>x\<rfloor>; r = x - of_int f
      in if r < 1 / 2 then f else if r > 1 / 2 then f + 1 else if even f then f else f + 1)"

definition flPos :: "rat \<Rightarrow> float64" where
  "flPos x = (let u = pow2 (expo x - 52) in of_int (roundEven (x / u)) * u)"

definition fl :: "rat \<Rightarrow> float64" where
  "fl x = (if x = 0 then 0 else if x > 0 then flPos x else - flPos (- x))"

definition fadd :: "float64 \<Rightarrow> float64 \<Rightarrow> float64" where
  "fadd x y = fl (x + y)"

definition fmul :: "float64 \<Rightarrow> float64 \<Rightarrow> float64" where
  "fmul x y = fl (x * y)"

definition fdiv :: "float64 \<Rightarrow> float64 \<Rightarrow> float64" where
  "fdiv x y = fl (x / y)"

definition floatOfNat :: "nat \<Rightarrow> float64" where
  "floatOfNat n = fl (of_nat n)"

definition floatOfU64 :: "uint64 \<Rightarrow> float64" where
  "floatOfU64 w = floatOfNat (unat w)"

text \<open>
  The conversion to \<open>uint64\<close> drops the fraction. Go leaves the result open for a number that does not fit;
  here it wraps around, and the theorems that use it show that the number fits.
\<close>

definition u64OfFloat :: "float64 \<Rightarrow> uint64" where
  "u64OfFloat x = word_of_int (if x \<ge> 0 then \<lfloor>x\<rfloor> else \<lceil>x\<rceil>)"

section \<open>Rounding\<close>

lemma ilog2_bounds: "0 < n \<Longrightarrow> 2 ^ ilog2 n \<le> n \<and> n < 2 ^ Suc (ilog2 n)"
proof (induction n rule: ilog2.induct)
  case (1 n)
  show ?case
  proof (cases "n \<le> 1")
    case True
    with 1 show ?thesis by (simp add: ilog2.simps [of n])
  next
    case False
    with 1 have "2 ^ ilog2 (n div 2) \<le> n div 2" "n div 2 < 2 ^ Suc (ilog2 (n div 2))"
      by simp_all
    with False show ?thesis
      by (simp add: ilog2.simps [of n]) linarith
  qed
qed

lemma pow2_pos: "0 < pow2 k"
  by (simp add: pow2_def)

lemma pow2_of_nat: "pow2 (int n) = 2 ^ n"
  by (simp add: pow2_def)

lemma pow2_suc: "pow2 (k + 1) = 2 * pow2 k"
proof (cases "0 \<le> k")
  case True
  then show ?thesis by (simp add: pow2_def nat_add_distrib)
next
  case False
  then have "nat (- k) = Suc (nat (- (k + 1)))" by simp
  with False show ?thesis by (simp add: pow2_def)
qed

lemma pow2_add: "pow2 (a + b) = pow2 a * pow2 b"
proof -
  have up: "pow2 (a + int n) = pow2 a * 2 ^ n" for a n
  proof (induction n)
    case (Suc n)
    have "pow2 (a + int (Suc n)) = pow2 ((a + int n) + 1)"
      by (simp add: algebra_simps)
    with Suc show ?case by (simp only: pow2_suc) simp
  qed simp
  show ?thesis
  proof (cases "0 \<le> b")
    case True
    then show ?thesis using up [of a "nat b"] pow2_of_nat [of "nat b"] by simp
  next
    case False
    then have "pow2 a = pow2 (a + b) * 2 ^ nat (- b)"
      using up [of "a + b" "nat (- b)"] by simp
    with False show ?thesis by (simp add: pow2_def [of b])
  qed
qed

lemma pow2_diff: "pow2 (a - b) = pow2 a / pow2 b"
  using pow2_add [of "a - b" b] pow2_pos [of b] by (simp add: field_simps)

lemma ilog2_rat:
  assumes "0 < n"
  shows "(2 ^ ilog2 (nat n) :: rat) \<le> of_int n \<and> (of_int n :: rat) < 2 * 2 ^ ilog2 (nat n)"
proof -
  have "(of_nat (2 ^ ilog2 (nat n)) :: rat) \<le> of_nat (nat n) \<and> (of_nat (nat n) :: rat) < of_nat (2 ^ Suc (ilog2 (nat n)))"
    using ilog2_bounds [of "nat n"] assms by (simp only: of_nat_le_iff of_nat_less_iff zero_less_nat_eq)
  with assms show ?thesis by simp
qed

lemma expo_bounds:
  assumes "0 < x"
  shows "pow2 (expo x) \<le> x \<and> x < 2 * pow2 (expo x)"
proof -
  obtain n d where q: "quotient_of x = (n, d)" by (cases "quotient_of x")
  have x: "x = of_int n / of_int d" and d: "0 < d"
    using q by (simp_all add: quotient_of_div quotient_of_denom_pos)
  with assms have n: "0 < n"
    by (simp add: zero_less_divide_iff)
  define A B :: rat where "A = 2 ^ ilog2 (nat n)" and "B = 2 ^ ilog2 (nat d)"
  define k where "k = int (ilog2 (nat n)) - int (ilog2 (nat d))"
  have pos: "0 < A" "0 < B" by (simp_all add: A_def B_def)
  have an: "A \<le> of_int n" "of_int n < 2 * A" and bd: "B \<le> of_int d" "of_int d < 2 * B"
    using ilog2_rat [OF n] ilog2_rat [OF d] by (simp_all add: A_def B_def)
  have pk: "pow2 k = A / B"
    by (simp add: k_def pow2_diff pow2_of_nat A_def B_def)
  then have pk1: "2 * pow2 (k - 1) = A / B"
    using pow2_suc [of "k - 1"] by simp
  have "x < 2 * A / B"
    unfolding x using an(2) bd(1) pos n by (intro frac_less) simp_all
  moreover have "A / (2 * B) \<le> x"
    unfolding x using an(1) bd(2) pos d by (intro frac_le) simp_all
  ultimately show ?thesis
    using pk pk1 by (auto simp: expo_def q Let_def k_def [symmetric])
qed

lemma roundEven_near: "\<bar>of_int (roundEven x) - x\<bar> \<le> 1 / 2"
proof -
  have "of_int \<lfloor>x\<rfloor> \<le> x" "x < of_int \<lfloor>x\<rfloor> + 1" by linarith+
  then show ?thesis unfolding roundEven_def Let_def by (simp add: abs_if) linarith
qed

lemma roundEven_floor: "\<lfloor>x\<rfloor> \<le> roundEven x \<and> roundEven x \<le> \<lfloor>x\<rfloor> + 1"
  by (simp add: roundEven_def Let_def)

lemma roundEven_mono:
  assumes "x \<le> y"
  shows "roundEven x \<le> roundEven y"
proof (cases "\<lfloor>x\<rfloor> = \<lfloor>y\<rfloor>")
  case True
  have "(if r < 1 / 2 then f else if r > 1 / 2 then f + 1 else if even f then f else f + 1)
      \<le> (if s < 1 / 2 then f else if s > 1 / 2 then f + 1 else if even f then f else f + (1 :: int))"
    if "r \<le> s" for r s :: rat and f
    using that by (cases "s < 1 / 2"; cases "1 / 2 < r") simp_all
  then show ?thesis
    unfolding roundEven_def Let_def True using assms by simp
next
  case False
  then have "\<lfloor>x\<rfloor> + 1 \<le> \<lfloor>y\<rfloor>" using floor_mono [OF assms] by linarith
  then show ?thesis using roundEven_floor [of x] roundEven_floor [of y] by linarith
qed

lemma roundEven_of_int [simp]: "roundEven (of_int n) = n"
  by (simp add: roundEven_def Let_def)

text \<open>The relative error of rounding, and the numbers that rounding leaves alone.\<close>

lemma fl_error:
  assumes "0 < x"
  shows "\<bar>fl x - x\<bar> \<le> x / 2 ^ 53"
proof -
  define u where "u = pow2 (expo x - 52)"
  have u: "0 < u" "u * 2 ^ 52 = pow2 (expo x)"
    using pow2_add [of "expo x - 52" 52] by (simp_all add: u_def pow2_pos pow2_of_nat [of 52, simplified])
  have "of_int (roundEven (x / u)) * u - x = (of_int (roundEven (x / u)) - x / u) * u"
    using u(1) by (simp add: left_diff_distrib)
  then have "\<bar>of_int (roundEven (x / u)) * u - x\<bar> = \<bar>of_int (roundEven (x / u)) - x / u\<bar> * u"
    using u(1) by (simp only: abs_mult abs_of_pos)
  also have "\<dots> \<le> 1 / 2 * u"
    using u(1) roundEven_near by (intro mult_right_mono) simp_all
  also have "\<dots> \<le> x / 2 ^ 53"
    using expo_bounds [OF assms] u by (simp add: field_simps)
  finally show ?thesis
    using assms by (simp add: fl_def flPos_def Let_def u_def)
qed

lemma fl_nonneg: "0 \<le> x \<Longrightarrow> 0 \<le> fl x"
proof (cases "x = 0")
  case False
  assume "0 \<le> x"
  with False have "0 < x" by simp
  with fl_error [of x] have "x - fl x \<le> x / 2 ^ 53" by linarith
  with \<open>0 < x\<close> show ?thesis by simp
qed (simp add: fl_def)

lemma fl_upper: "0 \<le> x \<Longrightarrow> fl x \<le> x * (1 + 1 / 2 ^ 53)"
proof (cases "x = 0")
  case False
  assume "0 \<le> x"
  with False have "0 < x" by simp
  with fl_error [of x] have "fl x - x \<le> x / 2 ^ 53" by linarith
  then show ?thesis by (simp add: distrib_left)
qed (simp add: fl_def)

lemma fl_int:
  assumes "n < 2 ^ 53"
  shows "fl (of_nat n) = of_nat n"
proof (cases "n = 0")
  case False
  define e where "e = expo (of_nat n)"
  have b: "pow2 e \<le> of_nat n" "of_nat n < 2 * pow2 e"
    using expo_bounds [of "of_nat n"] False by (simp_all add: e_def)
  have "e < 53"
  proof (rule ccontr)
    assume "\<not> e < 53"
    then have "(2 ^ 53 :: rat) \<le> pow2 e"
      using power_increasing [of 53 "nat e" "2 :: rat"] by (simp add: pow2_def)
    moreover have "(of_nat n :: rat) < 2 ^ 53"
      using assms by (simp flip: of_nat_less_iff)
    ultimately show False using b(1) by linarith
  qed
  then have "of_nat n / pow2 (e - 52) = of_int (int n * 2 ^ nat (52 - e))"
    by (simp add: pow2_def)
  then have "of_int (roundEven (of_nat n / pow2 (e - 52))) * pow2 (e - 52) = of_nat n"
    using pow2_pos [of "e - 52"] by (simp only: roundEven_of_int) (metis nonzero_divide_eq_eq order_less_irrefl)
  then have "flPos (of_nat n) = of_nat n"
    by (simp only: flPos_def Let_def e_def)
  then show ?thesis
    using False by (simp add: fl_def)
qed (simp add: fl_def)

lemma floatOfNat_exact: "n < 2 ^ 53 \<Longrightarrow> floatOfNat n = of_nat n"
  by (simp add: floatOfNat_def fl_int)

end
