(* ===== verification/FeeRules.thy ===== *)
theory FeeRules
  imports AssetText Float64
begin

text \<open>
  The fee rules of the validator: how a fee is shared between the jury and the mediator (\<open>GetTxFeeAllocate\<close> and its
  older version in \<open>src/dag/modules/transaction.go\<close>) and when it is enough (\<open>ValidateTxFeeEnough\<close> and
  \<open>validateTxFeeValid\<close> of \<open>src/validator/validate_tx.go\<close>). The queries of \<open>src/validator/dependency.go\<close> that
  read the database, the text and JSON forms of state values and the signature check of contract results are fields of an
  environment. Amounts are computed in \<open>float64\<close> where the code does so.
\<close>

section \<open>Environment\<close>

text \<open>A call whose error the caller answers itself; a panic is not an error.\<close>

definition recoverS :: "script_error + 'a \<Rightarrow> script_error + 'b \<Rightarrow> ('a \<Rightarrow> script_error + 'b) \<Rightarrow> script_error + 'b" where
  "recoverS r onErr k = (case r of Inl e \<Rightarrow> if e = GoPanic then Inl GoPanic else onErr | Inr a \<Rightarrow> k a)"

record chainParameters =
  ContractTxTimeoutUnitFee :: uint64
  ContractTxSizeUnitFee :: uint64
  ContractTxInstallFeeLevel :: float64
  ContractTxDeployFeeLevel :: float64
  ContractTxInvokeFeeLevel :: float64
  ContractTxStopFeeLevel :: float64
  TransferPtnPricePerKByte :: uint64
  AccountUpdateFee :: uint64
  TransferPtnBaseFee :: uint64
  MaximumMediatorCount :: byte

record addition =
  adAddr :: address
  adAmount :: uint64
  adAsset :: asset

text \<open>An entry of a list of rewards, the Go type \<open>AmountAsset\<close> with its asset present.\<close>

type_synonym reward = "uint64 \<times> asset"

record validate_env =
  veEngine :: engine_env
  veGasToken :: bytes
  veJuryPercent :: float64
  veUnitReward :: uint64
  veParams :: chainParameters
  veUtxoQuerySet :: bool
  vePropQuerySet :: bool
  veStateQuerySet :: bool
  veDagQuerySet :: bool
  veEnableTxFeeCheck :: bool
  veEnableContractSignCheck :: bool
  veEnableDeveloperCheck :: bool
  veEnableContractRwSetCheck :: bool
  veUtxo :: "outPoint \<Rightarrow> script_error + utxo"
  veStxo :: "outPoint \<Rightarrow> bytes option"
  veBlacklist :: "address list"
  veContractState :: "bytes \<Rightarrow> string \<Rightarrow> script_error + bytes"
  veStatesByPrefix :: "bytes \<Rightarrow> string \<Rightarrow> script_error + (string \<times> bytes) list"
  veTokenStatus :: "bytes \<Rightarrow> byte option"
  veContractJury :: "bytes \<Rightarrow> script_error + electionNode"
  veJurorPubKey :: "bytes \<Rightarrow> script_error + bytes"
  veContractTpl :: "bytes \<Rightarrow> bool"
  veMediators :: "address \<Rightarrow> bool"
  veVotes :: "bytes \<Rightarrow> (string \<times> bool) list option"
  veRequester :: "transaction \<Rightarrow> script_error + address"
  veIsDeveloper :: "address \<Rightarrow> bool"
  veJurorReward :: "address \<Rightarrow> address"
  veContractCheck :: "transaction \<Rightarrow> bool"
  veTxExists :: "bytes \<Rightarrow> bool"
  veVerify :: "bytes \<Rightarrow> bytes \<Rightarrow> bytes \<Rightarrow> bool option"
  veAddrHash :: "address \<Rightarrow> bytes"
  veCheckDecode :: "string \<Rightarrow> (bytes \<times> byte) option"
  veRewardsDec :: "bytes \<Rightarrow> reward list option"
  veRewardsEnc :: "reward list \<Rightarrow> bytes"
  veAdditionsEnc :: "addition list \<Rightarrow> bytes"
  veAdditionsDec :: "bytes \<Rightarrow> addition list option"

abbreviation veRlp :: "validate_env \<Rightarrow> rlp_lib" where
  "veRlp V \<equiv> envRlp (veEngine V)"

abbreviation veHash :: "validate_env \<Rightarrow> hash_lib" where
  "veHash V \<equiv> envHash (veEngine V)"

section \<open>Sharing a fee\<close>

text \<open>
  The jury of a contract run: the keys of signature messages after the request, replaced by the signers of
  the first input of every payment of the contract. \<open>isReq\<close> tells which messages count as the request.
\<close>

fun feeJury :: "engine_env \<Rightarrow> (byte \<Rightarrow> bool) \<Rightarrow> transaction \<Rightarrow> nat \<Rightarrow> message list \<Rightarrow> bool \<Rightarrow> address list
    \<Rightarrow> script_error + bool \<times> address list" where
  "feeJury E isReq tx mIdx [] isResultMsg jury = Inr (isResultMsg, jury)"
| "feeJury E isReq tx mIdx (msg # msgs) isResultMsg jury =
     (if isReq (App msg) then feeJury E isReq tx (Suc mIdx) msgs True jury
      else if isResultMsg \<and> App msg = APP_SIGNATURE then
        (case Payload msg of
           PaySignature sigs \<Rightarrow>
             feeJury E isReq tx (Suc mIdx) msgs isResultMsg (jury @ map (\<lambda>s. PubkeyBytesToAddress (envHash E) (sigPubKey s)) sigs)
         | _ \<Rightarrow> Inl GoPanic)
      else if isResultMsg \<and> App msg = APP_PAYMENT then
        bindS (payment msg) (\<lambda>pay.
        if \<not> IsCoinbase pay then
          (case recoverS (GetScriptSigners E tx (int mIdx) 0) (Inl (ErrOther ''Parse unlock script to get signers error'')) Inr of
             Inl e \<Rightarrow> Inl e
           | Inr jury \<Rightarrow> feeJury E isReq tx (Suc mIdx) msgs isResultMsg jury)
        else feeJury E isReq tx (Suc mIdx) msgs isResultMsg jury)
      else feeJury E isReq tx (Suc mIdx) msgs isResultMsg jury)"

definition juryShare :: "float64 \<Rightarrow> uint64 \<Rightarrow> nat \<Rightarrow> uint64" where
  "juryShare percent fee juryCount = u64OfFloat (fdiv (fmul (floatOfU64 fee) percent) (floatOfNat juryCount))"

definition shareFee :: "float64 \<Rightarrow> uint64 \<Rightarrow> asset \<Rightarrow> address \<Rightarrow> address list \<Rightarrow> addition list" where
  "shareFee percent fee asset mediatorReward jury =
     (let shares = map (\<lambda>juror. \<lparr>adAddr = juror, adAmount = juryShare percent fee (length jury), adAsset = asset\<rparr>) jury;
          juryAllocatedAmt = sum_list (map adAmount shares)
      in shares @ [\<lparr>adAddr = mediatorReward, adAmount = fee - juryAllocatedAmt, adAsset = asset\<rparr>])"

definition allocateFee :: "validate_env \<Rightarrow> (byte \<Rightarrow> bool) \<Rightarrow> (address \<Rightarrow> address) \<Rightarrow> address \<Rightarrow> transaction \<Rightarrow> script_error + addition list" where
  "allocateFee V isReq rewardOf mediatorReward tx =
     bindS (GetTxFee \<lparr>AssetId = PTNCOIN, UniqueId = replicate 16 0\<rparr> (veUtxo V) tx) (\<lambda>fee.
     if aaAmount fee = 0 then Inr []
     else
       bindS (TxMessagesCopy tx) (\<lambda>msgs.
       bindS (feeJury (veEngine V) isReq tx 0 msgs False []) (\<lambda>(isResultMsg, jury).
       case aaAsset fee of
         None \<Rightarrow> Inl GoPanic
       | Some asset \<Rightarrow>
           Inr (shareFee (veJuryPercent V) (aaAmount fee) asset mediatorReward (if isResultMsg then map rewardOf jury else [])))))"

definition GetTxFeeAllocate :: "validate_env \<Rightarrow> address \<Rightarrow> transaction \<Rightarrow> script_error + addition list" where
  "GetTxFeeAllocate V mediatorReward tx =
     allocateFee V (\<lambda>app. app = APP_CONTRACT_INVOKE_REQUEST \<or> app = APP_CONTRACT_DEPLOY_REQUEST \<or> app = APP_CONTRACT_STOP_REQUEST)
       (veJurorReward V) mediatorReward tx"

definition GetTxFeeAllocateLegacyV1 :: "validate_env \<Rightarrow> address \<Rightarrow> transaction \<Rightarrow> script_error + addition list" where
  "GetTxFeeAllocateLegacyV1 V mediatorReward tx = allocateFee V IsRequest (\<lambda>juror. juror) mediatorReward tx"

definition additionKey :: "addition \<Rightarrow> string" where
  "additionKey a = hexString (Bytes21 (adAddr a) @ assetBytes (adAsset a))"

section \<open>When a fee is enough\<close>

definition txSize :: "validate_env \<Rightarrow> transaction \<Rightarrow> nat" where
  "txSize V tx = length (encodeTx (veRlp V) tx)"

record feeTerms =
  ftOnlyPayment :: bool
  ftTimeout :: uint32
  ftOpFee :: float64
  ftAccountUpdateFee :: float64
  ftAppDataFee :: float64

fun feeTermsOf :: "chainParameters \<Rightarrow> float64 \<Rightarrow> message list \<Rightarrow> feeTerms \<Rightarrow> script_error + feeTerms" where
  "feeTermsOf cp sz [] t = Inr t"
| "feeTermsOf cp sz (msg # msgs) t =
     (if App msg = APP_CONTRACT_TPL_REQUEST
      then feeTermsOf cp sz msgs (t\<lparr>ftOnlyPayment := False, ftOpFee := ContractTxInstallFeeLevel cp\<rparr>)
      else if App msg = APP_CONTRACT_DEPLOY_REQUEST
      then feeTermsOf cp sz msgs (t\<lparr>ftOnlyPayment := False, ftOpFee := ContractTxDeployFeeLevel cp\<rparr>)
      else if App msg = APP_CONTRACT_INVOKE_REQUEST
      then (case Payload msg of
          PayInvokeRequest _ _ timeout \<Rightarrow>
            feeTermsOf cp sz msgs (t\<lparr>ftOnlyPayment := False, ftTimeout := timeout, ftOpFee := ContractTxInvokeFeeLevel cp\<rparr>)
        | _ \<Rightarrow> Inl GoPanic)
      else if App msg = APP_CONTRACT_STOP_REQUEST
      then feeTermsOf cp sz msgs (t\<lparr>ftOnlyPayment := False, ftOpFee := ContractTxStopFeeLevel cp\<rparr>)
      else if App msg = APP_DATA
      then feeTermsOf cp sz msgs (t\<lparr>ftOnlyPayment := False,
             ftAppDataFee := fmul (floatOfU64 (TransferPtnPricePerKByte cp)) (fdiv sz 1024)\<rparr>)
      else if App msg = APP_ACCOUNT_UPDATE
      then feeTermsOf cp sz msgs (t\<lparr>ftOnlyPayment := False, ftAccountUpdateFee := floatOfU64 (AccountUpdateFee cp)\<rparr>)
      else feeTermsOf cp sz msgs t)"

text \<open>The least fee: \<open>sizeFee + timeFee + accountUpdateFee + appDataFee\<close>, or the base fee of a plain transfer.\<close>

definition requiredFee :: "chainParameters \<Rightarrow> float64 \<Rightarrow> float64 \<Rightarrow> feeTerms \<Rightarrow> float64" where
  "requiredFee cp sz extTime t =
     (if ftOnlyPayment t then floatOfU64 (TransferPtnBaseFee cp)
      else
        (let sizeFee = fmul (fmul (ftOpFee t) (floatOfU64 (ContractTxSizeUnitFee cp))) sz;
             timeFee = fmul (fmul (ftOpFee t) (floatOfU64 (ContractTxTimeoutUnitFee cp))) (fadd (floatOfNat (unat (ftTimeout t))) extTime)
         in fadd (fadd (fadd sizeFee timeFee) (ftAccountUpdateFee t)) (ftAppDataFee t)))"

definition ValidateTxFeeEnough :: "validate_env \<Rightarrow> transaction \<Rightarrow> float64 \<Rightarrow> float64 \<Rightarrow> script_error + bool" where
  "ValidateTxFeeEnough V tx extSize extTime =
     (if \<not> veEnableTxFeeCheck V then Inr True
      else bindS (RequestHash (veRlp V) tx) (\<lambda>_.
        if \<not> vePropQuerySet V \<or> \<not> veUtxoQuerySet V then Inr True
        else recoverS (GetTxFee \<lparr>AssetId = PTNCOIN, UniqueId = replicate 16 0\<rparr> (veUtxo V) tx) (Inr False) (\<lambda>fees.
            bindS (TxMessagesCopy tx) (\<lambda>msgs.
            let sz = fadd (floatOfNat (txSize V tx)) extSize
            in bindS (feeTermsOf (veParams V) sz msgs
                 \<lparr>ftOnlyPayment = True, ftTimeout = 0, ftOpFee = 0, ftAccountUpdateFee = 0, ftAppDataFee = 0\<rparr>) (\<lambda>t.
               Inr (max (floatOfU64 (aaAmount fees)) (requiredFee (veParams V) sz extTime t) = floatOfU64 (aaAmount fees)))))))"

fun feeAssetsOk :: "bytes \<Rightarrow> addition list \<Rightarrow> script_error + bool" where
  "feeAssetsOk gasToken [] = Inr True"
| "feeAssetsOk gasToken (a # as) =
     bindS (assetString (adAsset a)) (\<lambda>s. bindS (assetIdString gasToken) (\<lambda>gas.
     if s \<noteq> gas then Inr False else feeAssetsOk gasToken as))"

definition validateTxFeeValid :: "validate_env \<Rightarrow> transaction \<Rightarrow> script_error + bool \<times> addition list" where
  "validateTxFeeValid V tx =
     bindS (RequestHash (veRlp V) tx) (\<lambda>_.
     if \<not> veUtxoQuerySet V then Inr (True, [])
     else
       bindS (if veEnableTxFeeCheck V then ValidateTxFeeEnough V tx 0 0 else Inr True) (\<lambda>enough.
       if \<not> enough then Inr (False, [])
       else recoverS (if veEnableTxFeeCheck V then GetTxFeeAllocate V (replicate AddressLength 0) tx
                      else GetTxFeeAllocateLegacyV1 V (replicate AddressLength 0) tx) (Inr (False, [])) (\<lambda>feeAllocate.
           bindS (feeAssetsOk (veGasToken V) feeAllocate) (\<lambda>ok. Inr (ok, feeAllocate)))))"

section \<open>Every part of a fee is handed out\<close>

lemma fl_le_scale:
  assumes "0 \<le> x" and "x \<le> y"
  shows "fl x \<le> y * (1 + 1 / 2 ^ 53)"
  using fl_upper [OF assms(1)] mult_right_mono [OF assms(2), of "1 + 1 / 2 ^ 53"] by simp

lemma juryShare_bound:
  assumes "0 \<le> p" and "p \<le> 9 / 10" and "0 < n" and "n < 2 ^ 53"
  shows "n * unat (juryShare p fee n) \<le> unat fee"
proof -
  define f where "f = unat fee"
  define F where "F = (of_nat f :: rat)"
  define d where "d = (1 + 1 / 2 ^ 53 :: rat)"
  have F: "0 \<le> F" by (simp add: F_def)
  define x where "x = fdiv (fmul (floatOfU64 fee) p) (floatOfNat n)"
  have a: "0 \<le> floatOfU64 fee" "floatOfU64 fee \<le> F * d"
    using fl_upper [OF F] fl_nonneg [OF F] by (simp_all add: floatOfU64_def floatOfNat_def F_def d_def f_def [symmetric])
  then have "floatOfU64 fee * p \<le> F * d * (9 / 10)"
    using assms(1,2) by (intro mult_mono) simp_all
  then have b: "0 \<le> fmul (floatOfU64 fee) p" "fmul (floatOfU64 fee) p \<le> F * d * (9 / 10) * d"
    using fl_le_scale [of "floatOfU64 fee * p" "F * d * (9 / 10)"] fl_nonneg a(1) assms(1) by (simp_all add: fmul_def d_def)
  have n: "floatOfNat n = of_nat n" "0 < (of_nat n :: rat)"
    using floatOfNat_exact [OF assms(4)] assms(3) by simp_all
  have "fmul (floatOfU64 fee) p / of_nat n \<le> F * d * (9 / 10) * d / of_nat n"
    using b n(2) by (intro divide_right_mono) simp_all
  then have x: "0 \<le> x" "x \<le> F * d * (9 / 10) * d / of_nat n * d"
    using fl_le_scale [of "fmul (floatOfU64 fee) p / of_nat n" "F * d * (9 / 10) * d / of_nat n"] fl_nonneg b(1) n
    by (simp_all add: x_def fdiv_def d_def)
  have "of_nat n * x \<le> of_nat n * (F * d * (9 / 10) * d / of_nat n * d)"
    using x(2) n(2) by (intro mult_left_mono) simp_all
  also have "\<dots> = F * (d * d * d * (9 / 10))"
    using n(2) by (simp add: field_simps)
  also have "\<dots> \<le> F * 1"
    using F by (intro mult_left_mono) (simp_all add: d_def)
  finally have nx: "of_nat n * x \<le> F" by simp
  then have "x \<le> F"
    using n(2) x(1) assms(3) mult_right_mono [of 1 "of_nat n :: rat" x] by simp
  then have "\<lfloor>x\<rfloor> \<le> int f"
    using floor_mono [of x F] by (simp add: F_def)
  moreover have "int f < 2 ^ 64"
    using unsigned_less [of fee, where ?'a = int] by (simp add: f_def)
  ultimately have "\<lfloor>x\<rfloor> < 2 ^ 64"
    by (rule le_less_trans)
  moreover have "0 \<le> \<lfloor>x\<rfloor>"
    using x(1) by simp
  ultimately have share: "uint (juryShare p fee n) = \<lfloor>x\<rfloor>"
    using x(1) by (simp add: juryShare_def u64OfFloat_def x_def [symmetric] uint_word_of_int_eq take_bit_int_eq_self)
  have "of_nat n * (of_int \<lfloor>x\<rfloor> :: rat) \<le> of_nat n * x"
    using n(2) by (intro mult_left_mono) simp_all
  with nx have "(of_int (int n * \<lfloor>x\<rfloor>) :: rat) \<le> of_int (int f)"
    by (simp add: F_def)
  then have "int n * uint (juryShare p fee n) \<le> int f"
    by (simp only: of_int_le_iff share)
  then have "int (n * unat (juryShare p fee n)) \<le> int (unat fee)"
    by (simp add: f_def)
  then show ?thesis
    by (simp only: of_nat_le_iff)
qed

lemma sum_list_share:
  assumes "length xs * unat (w :: uint64) < 2 ^ 64"
  shows "unat (sum_list (map (\<lambda>_. w) xs)) = length xs * unat w"
  using assms by (induction xs) (simp_all add: unat_word_ariths)

lemma shareFee_exact:
  assumes "0 \<le> p" and "p \<le> 9 / 10" and "length jury < 2 ^ 53"
  shows "(\<Sum>a\<leftarrow>shareFee p fee asset mediator jury. unat (adAmount a)) = unat fee"
proof -
  define s where "s = juryShare p fee (length jury)"
  have le: "length jury * unat s \<le> unat fee"
    using juryShare_bound [of p "length jury" fee] assms by (cases "jury = []") (simp_all add: s_def)
  then have "length jury * unat s < 2 ^ 64"
    using unsigned_less [of fee, where ?'a = nat] by simp
  then have sum: "unat (sum_list (map (\<lambda>_. s) jury)) = length jury * unat s"
    by (rule sum_list_share)
  then have "unat (fee - sum_list (map (\<lambda>_. s) jury)) = unat fee - length jury * unat s"
    using le by (simp add: unat_sub word_le_nat_alt)
  moreover have "(\<Sum>a\<leftarrow>jury. unat s) = length jury * unat s"
    by (simp add: sum_list_triv)
  ultimately show ?thesis
    using le by (simp add: shareFee_def Let_def o_def s_def [symmetric])
qed

end
