(* ===== verification/Validator.thy ===== *)
theory Validator
  imports FeeRules
begin

text \<open>
  Validation of a transaction: \<open>src/validator/validate_payment.go\<close>, \<open>validate_contract.go\<close> and
  \<open>validate_tx.go\<close>. A verdict is a validation code; a run-time panic is \<open>Inl\<close>. The state that is passed along
  holds the outpoints the transaction has used so far and the signature cache of the token engine.
\<close>

section \<open>Codes\<close>

type_synonym validationCode = byte

abbreviation (input) VALID :: validationCode where "VALID \<equiv> 0"
abbreviation (input) INVALID_CONTRACT_TEMPLATE :: validationCode where "INVALID_CONTRACT_TEMPLATE \<equiv> 1"
abbreviation (input) INVALID_FEE :: validationCode where "INVALID_FEE \<equiv> 2"
abbreviation (input) UNSUPPORTED_TX_PAYLOAD :: validationCode where "UNSUPPORTED_TX_PAYLOAD \<equiv> 7"
abbreviation (input) DUPLICATE_TXID :: validationCode where "DUPLICATE_TXID \<equiv> 9"
abbreviation (input) UNKNOWN_TX_TYPE :: validationCode where "UNKNOWN_TX_TYPE \<equiv> 13"
abbreviation (input) STATE_DATA_NOT_FOUND :: validationCode where "STATE_DATA_NOT_FOUND \<equiv> 14"
abbreviation (input) INVALID_CONTRACT_SIGN :: validationCode where "INVALID_CONTRACT_SIGN \<equiv> 24"
abbreviation (input) INVALID_MSG :: validationCode where "INVALID_MSG \<equiv> 25"
abbreviation (input) INVALID_PAYMMENTLOAD :: validationCode where "INVALID_PAYMMENTLOAD \<equiv> 26"
abbreviation (input) INVALID_PAYMMENT_INPUT :: validationCode where "INVALID_PAYMMENT_INPUT \<equiv> 27"
abbreviation (input) INVALID_PAYMMENT_INPUT_COUNT :: validationCode where "INVALID_PAYMMENT_INPUT_COUNT \<equiv> 28"
abbreviation (input) INVALID_COINBASE :: validationCode where "INVALID_COINBASE \<equiv> 29"
abbreviation (input) ADDRESS_IN_BLACKLIST :: validationCode where "ADDRESS_IN_BLACKLIST \<equiv> 30"
abbreviation (input) INVALID_AMOUNT :: validationCode where "INVALID_AMOUNT \<equiv> 31"
abbreviation (input) INVALID_ASSET :: validationCode where "INVALID_ASSET \<equiv> 32"
abbreviation (input) INVALID_CONTRACT :: validationCode where "INVALID_CONTRACT \<equiv> 33"
abbreviation (input) INVALID_DATAPAYLOAD :: validationCode where "INVALID_DATAPAYLOAD \<equiv> 34"
abbreviation (input) INVALID_DOUBLE_SPEND :: validationCode where "INVALID_DOUBLE_SPEND \<equiv> 35"
abbreviation (input) INVALID_TOKEN_STATUS :: validationCode where "INVALID_TOKEN_STATUS \<equiv> 36"
abbreviation (input) NOT_COMPARE_SIZE :: validationCode where "NOT_COMPARE_SIZE \<equiv> 37"
abbreviation (input) NOT_TPL_DEVELOPER :: validationCode where "NOT_TPL_DEVELOPER \<equiv> 38"
abbreviation (input) ORPHAN :: validationCode where "ORPHAN \<equiv> 255"

abbreviation (input) TX_MAXSIZE :: nat where "TX_MAXSIZE \<equiv> 256 * 1024"

record vstate =
  usedUtxo :: "string set"
  vsSignCache :: sig_cache

type_synonym 'a vd = "(vstate, script_error, 'a) sm"

section \<open>Payments\<close>

definition generateJuryRedeemScript :: "validate_env \<Rightarrow> electionNode \<Rightarrow> script_error + bytes" where
  "generateJuryRedeemScript V jury =
     (let count = length (EleList jury);
          needed = word_of_int \<lceil>fdiv (fadd (fmul (floatOfNat count) 2) 1) 3\<rceil> :: byte
      in bindS (mapSum (\<lambda>ju. veJurorPubKey V (eiAddrHash ju)) (EleList jury)) (\<lambda>pubKeys.
         Inr (fst (GenerateRedeemScript needed pubKeys))))"

definition pickJuryFn :: "validate_env \<Rightarrow> address \<Rightarrow> script_error + bytes" where
  "pickJuryFn V contractAddr =
     (if \<not> IsSystemContractAddress contractAddr then
        recoverS (veContractJury V (addrBytes contractAddr)) (Inl (ErrOther ''Cannot get contract jury'')) (generateJuryRedeemScript V)
      else Inr [])"

definition checkTokenStatus :: "validate_env \<Rightarrow> asset \<Rightarrow> script_error + validationCode" where
  "checkTokenStatus V asset =
     bindS (GetSymbol (AssetId asset)) (\<lambda>symbol.
     recoverS (veContractState V (replicate 20 0) (''Tokens_'' @ symbol)) (Inr INVALID_ASSET) (\<lambda>result.
     case veTokenStatus V result of
       None \<Rightarrow> Inr INVALID_ASSET
     | Some status \<Rightarrow> Inr (if status \<noteq> 0 then INVALID_TOKEN_STATUS else VALID)))"

definition getBlacklistAddress :: "validate_env \<Rightarrow> address set" where
  "getBlacklistAddress V = (if \<not> veStateQuerySet V then {} else set (veBlacklist V))"

text \<open>\<open>GetAddressFromScript\<close> with its error dropped.\<close>

definition scriptAddr :: "validate_env \<Rightarrow> bytes \<Rightarrow> address" where
  "scriptAddr V script = (case GetAddressFromScript (veHash V) script of Inl e \<Rightarrow> replicate AddressLength 0 | Inr a \<Rightarrow> a)"

text \<open>The output an input spends: an output of the transaction itself, or one of the database.\<close>

definition spentUtxo :: "validate_env \<Rightarrow> transaction \<Rightarrow> outPoint \<Rightarrow> script_error + (validationCode + utxo)" where
  "spentUtxo V tx pt =
     (if IsSelfHash (TxHash pt) then
        bindS (idxE (TxMessages tx) (int (unat (MessageIndex pt)))) (\<lambda>m.
        bindS (payment m) (\<lambda>pay.
        bindS (idxE (Outputs pay) (int (unat (OutIndex pt)))) (\<lambda>output.
        Inr (Inr \<lparr>Amount = Value output, utxoAsset = outAsset output, utxoPkScript = PkScript output, utxoLockTime = 0,
                  Timestamp = 0, Flags = 0\<rparr>))))
      else
        recoverS (veUtxo V pt)
          (case veStxo V pt of
             Some spentBy \<Rightarrow> Inr (Inl (if spentBy \<noteq> hashOf (veRlp V) tx then INVALID_DOUBLE_SPEND else ORPHAN))
           | None \<Rightarrow> Inr (Inl ORPHAN))
          (\<lambda>u. Inr (Inr u)))"

text \<open>What the loop over the inputs carries: the asset, the sum, whether the token's status was checked, and the lock scripts.\<close>

record inputAcc =
  iaAsset :: "asset option"
  iaTotal :: uint64
  iaStatusValid :: bool
  iaScripts :: "string \<rightharpoonup> bytes"

definition stepInput :: "validate_env \<Rightarrow> transaction \<Rightarrow> nat \<Rightarrow> txInput \<Rightarrow> inputAcc \<Rightarrow> (validationCode + inputAcc) vd" where
  "stepInput V tx mIdx input acc =
     (case PreviousOutPoint input of
        None \<Rightarrow> returnE (Inl INVALID_PAYMMENT_INPUT)
      | Some pt \<Rightarrow>
          bindE getE (\<lambda>s.
          if outPointString pt \<in> usedUtxo s then returnE (Inl INVALID_DOUBLE_SPEND)
          else
            bindE (modifyE (\<lambda>s. s\<lparr>usedUtxo := insert (outPointString pt) (usedUtxo s)\<rparr>)) (\<lambda>_.
            bindE (liftE (spentUtxo V tx pt)) (\<lambda>r.
            case r of
              Inl code \<Rightarrow> returnE (Inl code)
            | Inr u \<Rightarrow>
                (let asset = (case iaAsset acc of None \<Rightarrow> utxoAsset u | Some a \<Rightarrow> a)
                 in if \<not> IsSimilar asset (utxoAsset u) then returnE (Inl INVALID_ASSET)
                    else
                      bindE (if mIdx \<noteq> 0 \<and> \<not> iaStatusValid acc \<and> AssetId asset \<noteq> veGasToken V
                             then liftE (map_sum id (\<lambda>c. (c, True)) (checkTokenStatus V asset))
                             else returnE (VALID, iaStatusValid acc)) (\<lambda>(ret, statusValid).
                      if ret \<noteq> VALID then returnE (Inl ret)
                      else if scriptAddr V (utxoPkScript u) \<in> getBlacklistAddress V then returnE (Inl ADDRESS_IN_BLACKLIST)
                      else returnE (Inr \<lparr>iaAsset = Some asset, iaTotal = iaTotal acc + Amount u, iaStatusValid = statusValid,
                             iaScripts = (iaScripts acc)(outPointString pt \<mapsto> utxoPkScript u)\<rparr>)))))))"

fun checkInputs :: "validate_env \<Rightarrow> transaction \<Rightarrow> nat \<Rightarrow> txInput list \<Rightarrow> inputAcc \<Rightarrow> (validationCode + inputAcc) vd" where
  "checkInputs V tx mIdx [] acc = returnE (Inr acc)"
| "checkInputs V tx mIdx (input # inputs) acc =
     bindE (stepInput V tx mIdx input acc) (\<lambda>r. case r of Inl code \<Rightarrow> returnE (Inl code) | Inr acc \<Rightarrow> checkInputs V tx mIdx inputs acc)"

text \<open>The loop over the outputs; \<open>asset\<close> is the asset of the inputs, if there are any.\<close>

fun checkOutputs :: "validate_env \<Rightarrow> asset option \<Rightarrow> asset \<Rightarrow> txOutput list \<Rightarrow> uint64 \<Rightarrow> validationCode + uint64" where
  "checkOutputs V asset asset0 [] totalOutput = Inr totalOutput"
| "checkOutputs V asset asset0 (out # outs) totalOutput =
     (if (case asset of None \<Rightarrow> \<not> IsSameAssetId asset0 (outAsset out) | Some a \<Rightarrow> \<not> IsSimilar a (outAsset out))
      then Inl INVALID_ASSET
      else if totalOutput + Value out < Value out \<or> Value out = 0 then Inl INVALID_AMOUNT
      else if scriptAddr V (PkScript out) \<in> getBlacklistAddress V then Inl ADDRESS_IN_BLACKLIST
      else checkOutputs V asset asset0 outs (totalOutput + Value out))"

definition outputsVerdict :: "validate_env \<Rightarrow> nat \<Rightarrow> paymentPayload \<Rightarrow> inputAcc option \<Rightarrow> validationCode" where
  "outputsVerdict V mIdx pay ins =
     (case Outputs pay of
        [] \<Rightarrow> VALID
      | out0 # _ \<Rightarrow>
          (case checkOutputs V (Option.bind ins iaAsset) (outAsset out0) (Outputs pay) 0 of
             Inl code \<Rightarrow> code
           | Inr totalOutput \<Rightarrow>
               (case ins of
                  None \<Rightarrow> VALID
                | Some acc \<Rightarrow> (if mIdx \<noteq> 0 \<and> totalOutput > iaTotal acc then INVALID_AMOUNT else VALID))))"

text \<open>The unlock scripts of a payment before the request are checked against the request part of the transaction.\<close>

definition txForSign :: "validate_env \<Rightarrow> transaction \<Rightarrow> nat \<Rightarrow> script_error + transaction" where
  "txForSign V tx mIdx =
     (if int mIdx < GetContractInvokeReqMsgIdx tx then GetRequestTx tx else Inr (txClone (veRlp V) tx))"

definition checkScripts :: "validate_env \<Rightarrow> (string \<rightharpoonup> bytes) \<Rightarrow> transaction \<Rightarrow> nat \<Rightarrow> validationCode vd" where
  "checkScripts V utxoScriptMap tx mIdx s =
     (case ScriptValidate1Msg ((veEngine V)\<lparr>envPickup := pickJuryFn V\<rparr>) (vsSignCache s) utxoScriptMap tx (int mIdx) of
        (r, c) \<Rightarrow> (recoverS r (Inr INVALID_PAYMMENT_INPUT) (\<lambda>_. Inr VALID), s\<lparr>vsSignCache := c\<rparr>))"

definition validatePaymentPayload :: "validate_env \<Rightarrow> transaction \<Rightarrow> nat \<Rightarrow> paymentPayload \<Rightarrow> validationCode vd" where
  "validatePaymentPayload V tx mIdx pay =
     (if length (Inputs pay) > 1000 then returnE INVALID_PAYMMENT_INPUT_COUNT
      else if length (Inputs pay) = 0 then returnE (outputsVerdict V mIdx pay None)
      else
        bindE (liftE (txForSign V tx mIdx)) (\<lambda>txs.
        bindE (checkInputs V tx mIdx (Inputs pay) \<lparr>iaAsset = None, iaTotal = 0, iaStatusValid = False, iaScripts = Map.empty\<rparr>) (\<lambda>r.
        case r of
          Inl code \<Rightarrow> returnE code
        | Inr acc \<Rightarrow>
            bindE (checkScripts V (iaScripts acc) txs mIdx) (\<lambda>code.
            if code \<noteq> VALID then returnE code else returnE (outputsVerdict V mIdx pay (Some acc))))))"

section \<open>Contract messages\<close>

definition validateContractState :: "bytes \<Rightarrow> contractReadSet list \<Rightarrow> contractWriteSet list \<Rightarrow> validationCode" where
  "validateContractState contractID readSet writeSet = VALID"

definition validateContractTplPayload :: "validate_env \<Rightarrow> contractTplPayload \<Rightarrow> validationCode" where
  "validateContractTplPayload V tpl =
     (if veStateQuerySet V \<and> veContractTpl V (tplTemplateId tpl) then INVALID_CONTRACT_TEMPLATE else VALID)"

definition validateContractDeploy :: "bytes \<Rightarrow> validationCode" where
  "validateContractDeploy tplId = VALID"

definition validateDataPayload :: "bytes \<Rightarrow> validationCode" where
  "validateDataPayload mainData = (if length mainData = 0 then INVALID_DATAPAYLOAD else VALID)"

text \<open>The jury and the contract that the messages of a transaction name; the last of each kind counts.\<close>

fun namedJury :: "message list \<Rightarrow> electionNode option \<times> bytes \<Rightarrow> script_error + electionNode option \<times> bytes" where
  "namedJury [] (jury, contractId) = Inr (jury, contractId)"
| "namedJury (msg # msgs) (jury, contractId) =
     (if App msg = APP_CONTRACT_DEPLOY then
        (case Payload msg of PayDeploy d \<Rightarrow> namedJury msgs (Some (depEleNode d), contractId) | _ \<Rightarrow> Inl GoPanic)
      else if App msg = APP_CONTRACT_INVOKE_REQUEST then
        (case Payload msg of PayInvokeRequest cid _ _ \<Rightarrow> namedJury msgs (jury, cid) | _ \<Rightarrow> Inl GoPanic)
      else if App msg = APP_CONTRACT_STOP_REQUEST then
        (case Payload msg of PayStopRequest cid _ _ \<Rightarrow> namedJury msgs (jury, cid) | _ \<Rightarrow> Inl GoPanic)
      else namedJury msgs (jury, contractId))"

fun countPasses :: "validate_env \<Rightarrow> bytes \<Rightarrow> signatureSet list \<Rightarrow> nat option" where
  "countPasses V txBytes [] = Some 0"
| "countPasses V txBytes (s # sigs) =
     (case veVerify V (sigPubKey s) (sigSignature s) txBytes of
        None \<Rightarrow> None
      | Some pass \<Rightarrow> map_option (\<lambda>n. if pass then Suc n else n) (countPasses V txBytes sigs))"

definition neededSigns :: "nat \<Rightarrow> int" where
  "neededSigns jurorCount = \<lceil>fdiv (fadd (fmul (floatOfNat jurorCount) 2) 1) 3\<rceil>"

definition isJuror :: "validate_env \<Rightarrow> electionNode \<Rightarrow> signatureSet \<Rightarrow> bool" where
  "isJuror V jury s =
     list_ex (\<lambda>node. veAddrHash V (PubkeyBytesToAddress (veHash V) (sigPubKey s)) = eiAddrHash node) (EleList jury)"

definition validateContractSignature :: "validate_env \<Rightarrow> signatureSet list \<Rightarrow> transaction \<Rightarrow> bool \<Rightarrow> script_error + validationCode" where
  "validateContractSignature V signatures tx isFullTx =
     bindS (TxMessagesCopy tx) (\<lambda>msgs.
     bindS (namedJury msgs (None, [])) (\<lambda>(jury, contractId).
     recoverS (if IsUserContractId contractId then map_sum id Some (veContractJury V contractId) else Inr jury)
       (Inr INVALID_CONTRACT_SIGN) (\<lambda>jury.
         if (case jury of None \<Rightarrow> False | Some j \<Rightarrow> \<not> list_all (isJuror V j) signatures) then Inr INVALID_CONTRACT_SIGN
         else
           (let needSign = (case jury of None \<Rightarrow> 1 | Some j \<Rightarrow> neededSigns (length (EleList j)))
            in bindS (GetResultRawTx tx) (\<lambda>tx4Sign.
               case countPasses V (encodeTx (veRlp V) tx4Sign) signatures of
                 None \<Rightarrow> Inr INVALID_CONTRACT_SIGN
               | Some passCount \<Rightarrow> Inr (if isFullTx \<and> int passCount < needSign then INVALID_CONTRACT_SIGN else VALID))))))"

definition validateVoteMediatorTx :: "validate_env \<Rightarrow> payload \<Rightarrow> validationCode" where
  "validateVoteMediatorTx V p =
     (case p of
        PayAccountUpdate ws \<Rightarrow>
          (if list_all (\<lambda>w. aswKey w \<noteq> ''VotedMediators'' \<or>
                (case veVotes V (aswValue w) of
                   None \<Rightarrow> False
                 | Some mediators \<Rightarrow> length mediators \<le> unat (MaximumMediatorCount (veParams V))
                     \<and> list_all (\<lambda>(m, ok). ok \<and> (case StringToAddress (veCheckDecode V) m of Inl e \<Rightarrow> False | Inr a \<Rightarrow> veMediators V a)) mediators)) ws
           then VALID else UNSUPPORTED_TX_PAYLOAD)
      | _ \<Rightarrow> UNSUPPORTED_TX_PAYLOAD)"

definition validateMessageType :: "byte \<Rightarrow> payload \<Rightarrow> bool" where
  "validateMessageType app p =
     (case p of
        PayPayment _ \<Rightarrow> app = APP_PAYMENT
      | PayTpl _ \<Rightarrow> app = APP_CONTRACT_TPL
      | PayDeploy _ \<Rightarrow> app = APP_CONTRACT_DEPLOY
      | PayInvokeRequest _ _ _ \<Rightarrow> app = APP_CONTRACT_INVOKE_REQUEST
      | PayInvoke _ \<Rightarrow> app = APP_CONTRACT_INVOKE
      | PaySignature _ \<Rightarrow> app = APP_SIGNATURE
      | PayData _ _ _ \<Rightarrow> app = APP_DATA
      | PayAccountUpdate _ \<Rightarrow> app = APP_ACCOUNT_UPDATE
      | PayDeployRequest _ \<Rightarrow> app = APP_CONTRACT_DEPLOY_REQUEST
      | PayInstallRequest _ \<Rightarrow> app = APP_CONTRACT_TPL_REQUEST
      | PayStopRequest _ _ _ \<Rightarrow> app = APP_CONTRACT_STOP_REQUEST
      | PayStop _ \<Rightarrow> app = APP_CONTRACT_STOP
      | PayNil \<Rightarrow> False)"

section \<open>Transactions\<close>

text \<open>The contract part must carry a signature or a payment after the request.\<close>

fun hasSign :: "bool \<Rightarrow> message list \<Rightarrow> bool" where
  "hasSign isResultMsg [] = False"
| "hasSign isResultMsg (m # ms) =
     (if IsRequest (App m) then hasSign True ms
      else (isResultMsg \<and> (App m = APP_SIGNATURE \<or> App m = APP_PAYMENT)) \<or> hasSign isResultMsg ms)"

record loopVars =
  hasRequestMsg :: bool
  requestMsgIndex :: nat
  isSysContractCall :: bool
  isOrphanTx :: bool

definition codeStep :: "loopVars \<Rightarrow> validationCode \<Rightarrow> validationCode + loopVars" where
  "codeStep lv code = (if code \<noteq> VALID then Inl code else Inr lv)"

definition validateMsg :: "validate_env \<Rightarrow> transaction \<Rightarrow> bool \<Rightarrow> nat \<Rightarrow> message \<Rightarrow> loopVars \<Rightarrow> (validationCode + loopVars) vd" where
  "validateMsg V tx isFullTx mIdx msg lv =
     (if \<not> validateMessageType (App msg) (Payload msg) then returnE (Inl UNKNOWN_TX_TYPE)
      else case Payload msg of
        PayPayment pay \<Rightarrow>
          (if mIdx > requestMsgIndex lv \<and> \<not> isFullTx then returnE (Inr lv)
           else
             bindE (validatePaymentPayload V tx mIdx pay) (\<lambda>code.
             if code \<noteq> VALID \<and> code \<noteq> ORPHAN then returnE (Inl code)
             else if mIdx \<noteq> 0 \<and> IsCoinbase pay \<and> \<not> isSysContractCall lv then returnE (Inl INVALID_COINBASE)
             else returnE (Inr (if code = ORPHAN then lv\<lparr>isOrphanTx := True\<rparr> else lv))))
      | PayTpl p \<Rightarrow> returnE (codeStep lv (validateContractTplPayload V p))
      | PayDeploy p \<Rightarrow> returnE (codeStep lv (validateContractState (depContractId p) (depReadSet p) (depWriteSet p)))
      | PayInvoke p \<Rightarrow> returnE (codeStep lv (validateContractState (invContractId p) (invReadSet p) (invWriteSet p)))
      | PayInstallRequest p \<Rightarrow>
          (if hasRequestMsg lv then returnE (Inl INVALID_MSG)
           else if irTplName p = '''' \<or> irPath p = '''' \<or> irVersion p = '''' then returnE (Inl INVALID_CONTRACT)
           else liftE (recoverS (veRequester V tx) (Inr (Inl INVALID_CONTRACT)) (\<lambda>reqAddr.
             if veEnableDeveloperCheck V \<and> \<not> veIsDeveloper V reqAddr then Inr (Inl NOT_TPL_DEVELOPER)
             else Inr (Inr (lv\<lparr>hasRequestMsg := True, requestMsgIndex := mIdx\<rparr>)))))
      | PayDeployRequest p \<Rightarrow>
          (if hasRequestMsg lv then returnE (Inl INVALID_MSG)
           else if length (drTemplateId p) = 0 then returnE (Inl INVALID_CONTRACT)
           else returnE (codeStep (lv\<lparr>hasRequestMsg := True, requestMsgIndex := mIdx\<rparr>) (validateContractDeploy (drTemplateId p))))
      | PayInvokeRequest contractId _ _ \<Rightarrow>
          (if hasRequestMsg lv then returnE (Inl INVALID_MSG)
           else if length contractId \<le> 0 then returnE (Inl INVALID_CONTRACT)
           else returnE (Inr (lv\<lparr>hasRequestMsg := True, requestMsgIndex := mIdx,
                  isSysContractCall := isSysContractCall lv \<or> IsSystemContractId contractId\<rparr>)))
      | PayStopRequest contractId _ _ \<Rightarrow>
          (if length contractId = 0 then returnE (Inl INVALID_CONTRACT) else returnE (Inr (lv\<lparr>requestMsgIndex := mIdx\<rparr>)))
      | PayStop p \<Rightarrow> returnE (codeStep lv (validateContractState (stpContractId p) (stpReadSet p) (stpWriteSet p)))
      | PaySignature sigs \<Rightarrow>
          bindE (liftE (validateContractSignature V sigs tx isFullTx)) (\<lambda>code. returnE (codeStep lv code))
      | PayData mainData _ _ \<Rightarrow> returnE (codeStep lv (validateDataPayload mainData))
      | PayAccountUpdate ws \<Rightarrow> returnE (Inl (validateVoteMediatorTx V (Payload msg)))
      | PayNil \<Rightarrow> returnE (Inl UNKNOWN_TX_TYPE))"

fun validateMsgs :: "validate_env \<Rightarrow> transaction \<Rightarrow> bool \<Rightarrow> nat \<Rightarrow> message list \<Rightarrow> loopVars \<Rightarrow> validationCode vd" where
  "validateMsgs V tx isFullTx mIdx [] lv = returnE (if isOrphanTx lv then ORPHAN else VALID)"
| "validateMsgs V tx isFullTx mIdx (msg # msgs) lv =
     bindE (validateMsg V tx isFullTx mIdx msg lv) (\<lambda>r.
     case r of Inl code \<Rightarrow> returnE code | Inr lv \<Rightarrow> validateMsgs V tx isFullTx (Suc mIdx) msgs lv)"

definition loopStart :: loopVars where
  "loopStart = \<lparr>hasRequestMsg = False, requestMsgIndex = 9999, isSysContractCall = False, isOrphanTx = False\<rparr>"

text \<open>The checks of \<open>validateTx\<close> before its loop, with the code they return early, and the fee.\<close>

definition preChecks :: "validate_env \<Rightarrow> transaction \<Rightarrow> bool \<Rightarrow> message list \<Rightarrow> script_error + validationCode \<times> addition list" where
  "preChecks V tx isFullTx msgs =
     (case msgs of
        [] \<Rightarrow> Inr (INVALID_MSG, [])
      | msg0 # _ \<Rightarrow>
          if App msg0 \<noteq> APP_PAYMENT then Inr (INVALID_MSG, [])
          else
            bindS (validateTxFeeValid V tx) (\<lambda>(txFeePass, txFee).
            if \<not> txFeePass then Inr (INVALID_FEE, [])
            else if txSize V tx > TX_MAXSIZE then Inr (NOT_COMPARE_SIZE, txFee)
            else if veEnableContractSignCheck V \<and> isFullTx \<and> IsContractTx tx then
              (if veEnableContractRwSetCheck V \<and> \<not> veContractCheck V tx then Inr (INVALID_CONTRACT, txFee)
               else if \<not> hasSign False msgs then Inr (INVALID_CONTRACT_SIGN, txFee)
               else Inr (VALID, txFee))
            else Inr (VALID, txFee)))"

definition validateTx :: "validate_env \<Rightarrow> sig_cache \<Rightarrow> transaction \<Rightarrow> bool \<Rightarrow> (script_error + validationCode \<times> addition list) \<times> sig_cache" where
  "validateTx V signCache tx isFullTx =
     (case bindS (RequestHash (veRlp V) tx) (\<lambda>_. bindS (TxMessagesCopy tx) (\<lambda>msgs.
             map_sum id (\<lambda>r. (msgs, r)) (preChecks V tx isFullTx msgs))) of
        Inl e \<Rightarrow> (Inl e, signCache)
      | Inr (msgs, code, txFee) \<Rightarrow>
          if code \<noteq> VALID then (Inr (code, txFee), signCache)
          else
            (case validateMsgs V tx isFullTx 0 msgs loopStart \<lparr>usedUtxo = {}, vsSignCache = signCache\<rparr> of
               (r, s) \<Rightarrow> (map_sum id (\<lambda>code. (code, txFee)) r, vsSignCache s)))"

end
