(* ===== verification/ValidatorProps.thy ===== *)
theory ValidatorProps
  imports Validator
begin

text \<open>
  What an accepted transaction guarantees: the payments it may contain, what they spend and how much they create;
  and where the validation stops short of its purpose.
\<close>

section \<open>The inputs of a payment\<close>

text \<open>An input and the output it spends.\<close>

definition inputSpends :: "validate_env \<Rightarrow> transaction \<Rightarrow> txInput \<Rightarrow> utxo \<Rightarrow> bool" where
  "inputSpends V tx i u \<longleftrightarrow> (\<exists>pt. PreviousOutPoint i = Some pt \<and> spentUtxo V tx pt = Inr (Inr u))"

text \<open>The names of the outpoints of inputs, under which the validator remembers them.\<close>

definition inputKeys :: "txInput list \<Rightarrow> string list" where
  "inputKeys ins = map (\<lambda>i. case PreviousOutPoint i of None \<Rightarrow> [] | Some pt \<Rightarrow> outPointString pt) ins"

definition valueIn :: "utxo list \<Rightarrow> nat" where
  "valueIn us = (\<Sum>u\<leftarrow>us. unat (Amount u))"

definition valueOut :: "txOutput list \<Rightarrow> nat" where
  "valueOut outs = (\<Sum>o'\<leftarrow>outs. unat (Value o'))"

lemma IsSimilar_iff: "IsSimilar a b \<longleftrightarrow> AssetId a = AssetId b \<and> UniqueId a = UniqueId b"
  by (simp add: IsSimilar_def)

lemma stepInput_Inr:
  assumes "stepInput V tx m i acc s = (Inr (Inr acc'), s')"
  obtains pt u a where "PreviousOutPoint i = Some pt" and "outPointString pt \<notin> usedUtxo s" and "spentUtxo V tx pt = Inr (Inr u)"
    and "s' = s\<lparr>usedUtxo := insert (outPointString pt) (usedUtxo s)\<rparr>"
    and "a = (case iaAsset acc of None \<Rightarrow> utxoAsset u | Some a \<Rightarrow> a)" and "IsSimilar a (utxoAsset u)"
    and "scriptAddr V (utxoPkScript u) \<notin> getBlacklistAddress V"
    and "iaAsset acc' = Some a" and "iaTotal acc' = iaTotal acc + Amount u"
    and "iaScripts acc' = (iaScripts acc)(outPointString pt \<mapsto> utxoPkScript u)"
  using assms
  by (auto simp: stepInput_def Let_def sm_simps split: option.splits if_splits sum.splits prod.splits)

lemma checkInputs_Inr:
  assumes "checkInputs V tx m ins acc s = (Inr (Inr acc'), s')"
  shows "\<exists>us. list_all2 (inputSpends V tx) ins us
    \<and> distinct (inputKeys ins) \<and> set (inputKeys ins) \<inter> usedUtxo s = {}
    \<and> s' = s\<lparr>usedUtxo := set (inputKeys ins) \<union> usedUtxo s\<rparr>
    \<and> iaTotal acc' = iaTotal acc + sum_list (map Amount us)
    \<and> (\<forall>a. iaAsset acc = Some a \<longrightarrow> iaAsset acc' = Some a)
    \<and> list_all2 (\<lambda>k u. iaScripts acc' k = Some (utxoPkScript u)) (inputKeys ins) us
    \<and> (\<forall>k. k \<notin> set (inputKeys ins) \<longrightarrow> iaScripts acc' k = iaScripts acc k)
    \<and> (\<forall>u\<in>set us. \<exists>a. iaAsset acc' = Some a \<and> IsSimilar a (utxoAsset u) \<and> scriptAddr V (utxoPkScript u) \<notin> getBlacklistAddress V)"
  using assms
proof (induction ins arbitrary: acc s)
  case Nil
  then show ?case by (simp add: sm_simps inputKeys_def)
next
  case (Cons i ins)
  obtain acc1 s1 where 1: "stepInput V tx m i acc s = (Inr (Inr acc1), s1)" "checkInputs V tx m ins acc1 s1 = (Inr (Inr acc'), s')"
    using Cons.prems by (auto simp: sm_simps split: prod.splits sum.splits)
  obtain pt u a where st: "PreviousOutPoint i = Some pt" "outPointString pt \<notin> usedUtxo s" "spentUtxo V tx pt = Inr (Inr u)"
      "s1 = s\<lparr>usedUtxo := insert (outPointString pt) (usedUtxo s)\<rparr>"
      "a = (case iaAsset acc of None \<Rightarrow> utxoAsset u | Some a \<Rightarrow> a)" "IsSimilar a (utxoAsset u)"
      "scriptAddr V (utxoPkScript u) \<notin> getBlacklistAddress V"
      "iaAsset acc1 = Some a" "iaTotal acc1 = iaTotal acc + Amount u"
      "iaScripts acc1 = (iaScripts acc)(outPointString pt \<mapsto> utxoPkScript u)"
    using 1(1) by (rule stepInput_Inr)
  obtain us where us: "list_all2 (inputSpends V tx) ins us" "distinct (inputKeys ins)" "set (inputKeys ins) \<inter> usedUtxo s1 = {}"
      "s' = s1\<lparr>usedUtxo := set (inputKeys ins) \<union> usedUtxo s1\<rparr>"
      "iaTotal acc' = iaTotal acc1 + sum_list (map Amount us)" "\<forall>a. iaAsset acc1 = Some a \<longrightarrow> iaAsset acc' = Some a"
      "list_all2 (\<lambda>k u. iaScripts acc' k = Some (utxoPkScript u)) (inputKeys ins) us"
      "\<forall>k. k \<notin> set (inputKeys ins) \<longrightarrow> iaScripts acc' k = iaScripts acc1 k"
      "\<forall>u\<in>set us. \<exists>a. iaAsset acc' = Some a \<and> IsSimilar a (utxoAsset u) \<and> scriptAddr V (utxoPkScript u) \<notin> getBlacklistAddress V"
    using Cons.IH [OF 1(2)] by blast
  have acc': "iaAsset acc' = Some a" "\<forall>b. iaAsset acc = Some b \<longrightarrow> a = b"
    using us(6) st(5,8) by simp_all
  have keys: "inputKeys (i # ins) = outPointString pt # inputKeys ins"
    using st(1) by (simp add: inputKeys_def)
  have "s' = s\<lparr>usedUtxo := set (inputKeys (i # ins)) \<union> usedUtxo s\<rparr>"
    using us(4) st(4) by (simp add: keys)
  moreover have "list_all2 (inputSpends V tx) (i # ins) (u # us)"
    using us(1) st(1,3) by (simp add: inputSpends_def)
  ultimately show ?case
    using us(2,3,5,7,8,9) st(2,4,6,7,9,10) acc' keys by (intro exI [of _ "u # us"]) (auto simp: add.assoc)
qed

text \<open>Outputs that pass the loop add up without overflow; their amounts are positive.\<close>

lemma checkOutputs_Inr:
  assumes "checkOutputs V asset a0 outs t = Inr t'"
  shows "unat t' = unat t + valueOut outs \<and> (\<forall>o'\<in>set outs. Value o' \<noteq> 0 \<and> scriptAddr V (PkScript o') \<notin> getBlacklistAddress V
    \<and> (case asset of None \<Rightarrow> IsSameAssetId a0 (outAsset o') | Some a \<Rightarrow> IsSimilar a (outAsset o')))"
  using assms
proof (induction outs arbitrary: t)
  case (Cons o' outs)
  then have no: "\<not> t + Value o' < Value o'" and rec: "checkOutputs V asset a0 outs (t + Value o') = Inr t'"
    by (auto split: if_splits)
  have "unat (t + Value o') = unat t + unat (Value o')"
  proof (rule ccontr)
    assume "unat (t + Value o') \<noteq> unat t + unat (Value o')"
    then have "2 ^ 64 \<le> unat t + unat (Value o')"
      using unat_add_lem [of t "Value o'"] by (simp add: not_less)
    moreover have "unat t < 2 ^ 64" "unat (Value o') < 2 ^ 64"
      using unsigned_less [of t, where ?'a = nat] unsigned_less [of "Value o'", where ?'a = nat] by simp_all
    ultimately have "unat (t + Value o') < unat (Value o')"
      by (simp add: unat_word_ariths mod_if) linarith
    with no show False by (simp add: word_less_nat_alt)
  qed
  with Cons.IH [OF rec] Cons.prems show ?case
    by (auto simp: valueOut_def split: if_splits option.splits)
qed (simp add: valueOut_def)

lemma sum_list_amount_le: "unat (sum_list (map Amount us)) \<le> valueIn us"
proof (induction us)
  case (Cons u us)
  have "unat (Amount u + sum_list (map Amount us)) \<le> unat (Amount u) + unat (sum_list (map Amount us))"
    by (simp add: unat_word_ariths)
  with Cons show ?case by (simp add: valueIn_def)
qed (simp add: valueIn_def)

text \<open>An early return never carries the code of a valid payment.\<close>

lemma checkOutputs_code: "checkOutputs V asset a0 outs t \<noteq> Inl VALID"
  by (induction outs arbitrary: t) simp_all

lemma spentUtxo_code: "spentUtxo V tx pt \<noteq> Inr (Inl VALID)"
  by (auto simp: spentUtxo_def bindS_def recoverS_def split: sum.splits option.splits)

lemma stepInput_code: "fst (stepInput V tx m i acc s) \<noteq> Inr (Inl VALID)"
  using spentUtxo_code [of V tx]
  by (auto simp: stepInput_def Let_def sm_simps split: option.splits if_splits sum.splits prod.splits)

lemma checkInputs_code: "fst (checkInputs V tx m ins acc s) \<noteq> Inr (Inl VALID)"
proof (induction ins arbitrary: acc s)
  case (Cons i ins)
  then show ?case
    using stepInput_code [of V tx m i acc s] by (auto simp: sm_simps split: prod.splits sum.splits)
qed (simp add: sm_simps)

lemma checkInputs_code_neq [simp]: "checkInputs V tx m ins acc s \<noteq> (Inr (Inl VALID), s')"
  using checkInputs_code [of V tx m ins acc s] by auto

text \<open>What it means that a payment with inputs is good at its place in a transaction.\<close>

definition goodPayment :: "validate_env \<Rightarrow> transaction \<Rightarrow> nat \<Rightarrow> paymentPayload \<Rightarrow> utxo list \<Rightarrow> bool" where
  "goodPayment V tx m pay us \<longleftrightarrow>
     list_all2 (inputSpends V tx) (Inputs pay) us
     \<and> (\<exists>a. (\<forall>u\<in>set us. IsSimilar a (utxoAsset u)) \<and> (\<forall>o'\<in>set (Outputs pay). IsSimilar a (outAsset o')))
     \<and> (\<forall>u\<in>set us. scriptAddr V (utxoPkScript u) \<notin> getBlacklistAddress V)
     \<and> (\<forall>o'\<in>set (Outputs pay). Value o' \<noteq> 0 \<and> scriptAddr V (PkScript o') \<notin> getBlacklistAddress V)
     \<and> valueOut (Outputs pay) < 2 ^ 64
     \<and> (m \<noteq> 0 \<longrightarrow> valueOut (Outputs pay) \<le> valueIn us)
     \<and> (\<exists>txs locks c c'. txForSign V tx m = Inr txs
          \<and> list_all2 (\<lambda>k u. locks k = Some (utxoPkScript u)) (inputKeys (Inputs pay)) us
          \<and> ScriptValidate1Msg ((veEngine V)\<lparr>envPickup := pickJuryFn V\<rparr>) c locks txs (int m) = (Inr (), c'))"

lemma outputsVerdict_VALID:
  assumes "outputsVerdict V m pay ins = VALID"
  shows "valueOut (Outputs pay) < 2 ^ 64"
    and "\<forall>o'\<in>set (Outputs pay). Value o' \<noteq> 0 \<and> scriptAddr V (PkScript o') \<notin> getBlacklistAddress V"
    and "ins = Some acc \<Longrightarrow> iaAsset acc = Some a \<Longrightarrow> \<forall>o'\<in>set (Outputs pay). IsSimilar a (outAsset o')"
    and "ins = Some acc \<Longrightarrow> m \<noteq> 0 \<Longrightarrow> valueOut (Outputs pay) \<le> unat (iaTotal acc)"
proof -
  have "valueOut (Outputs pay) < 2 ^ 64 \<and> (\<forall>o'\<in>set (Outputs pay). Value o' \<noteq> 0 \<and> scriptAddr V (PkScript o') \<notin> getBlacklistAddress V)
    \<and> (\<forall>acc a. ins = Some acc \<longrightarrow> iaAsset acc = Some a \<longrightarrow> (\<forall>o'\<in>set (Outputs pay). IsSimilar a (outAsset o')))
    \<and> (\<forall>acc. ins = Some acc \<longrightarrow> m \<noteq> 0 \<longrightarrow> valueOut (Outputs pay) \<le> unat (iaTotal acc))"
  proof (cases "Outputs pay")
    case (Cons o0 outs)
    then obtain t where "checkOutputs V (Option.bind ins iaAsset) (outAsset o0) (Outputs pay) 0 = Inr t"
      and le: "\<forall>acc. ins = Some acc \<longrightarrow> \<not> (m \<noteq> 0 \<and> iaTotal acc < t)"
      using assms checkOutputs_code by (auto simp: outputsVerdict_def simp del: checkOutputs.simps split: sum.splits option.splits if_splits)
    note out = checkOutputs_Inr [OF this(1)]
    then have t: "unat t = valueOut (Outputs pay)" by simp
    have "valueOut (Outputs pay) < 2 ^ 64"
      using unsigned_less [of t, where ?'a = nat] t by simp
    with out le t show ?thesis
      by (auto simp: not_less word_le_nat_alt)
  qed (simp add: valueOut_def)
  then show "valueOut (Outputs pay) < 2 ^ 64"
    "\<forall>o'\<in>set (Outputs pay). Value o' \<noteq> 0 \<and> scriptAddr V (PkScript o') \<notin> getBlacklistAddress V"
    "ins = Some acc \<Longrightarrow> iaAsset acc = Some a \<Longrightarrow> \<forall>o'\<in>set (Outputs pay). IsSimilar a (outAsset o')"
    "ins = Some acc \<Longrightarrow> m \<noteq> 0 \<Longrightarrow> valueOut (Outputs pay) \<le> unat (iaTotal acc)"
    by blast+
qed

lemma checkScripts_VALID:
  assumes "checkScripts V locks txs m s = (Inr VALID, s')"
  shows "\<exists>c'. ScriptValidate1Msg ((veEngine V)\<lparr>envPickup := pickJuryFn V\<rparr>) (vsSignCache s) locks txs (int m) = (Inr (), c')
    \<and> s' = s\<lparr>vsSignCache := c'\<rparr>"
  using assms by (auto simp: checkScripts_def recoverS_def split: prod.splits sum.splits if_splits)

lemma payment_good:
  assumes "validatePaymentPayload V tx m pay s = (Inr VALID, s')" and "Inputs pay \<noteq> []"
  shows "(\<exists>us. goodPayment V tx m pay us) \<and> distinct (inputKeys (Inputs pay))
    \<and> set (inputKeys (Inputs pay)) \<inter> usedUtxo s = {} \<and> usedUtxo s' = set (inputKeys (Inputs pay)) \<union> usedUtxo s"
proof -
  obtain txs acc s1 s2 where 1: "txForSign V tx m = Inr txs"
      "checkInputs V tx m (Inputs pay) \<lparr>iaAsset = None, iaTotal = 0, iaStatusValid = False, iaScripts = Map.empty\<rparr> s = (Inr (Inr acc), s1)"
      "checkScripts V (iaScripts acc) txs m s1 = (Inr VALID, s2)" "outputsVerdict V m pay (Some acc) = VALID" "s' = s2"
    using assms by (auto simp: validatePaymentPayload_def sm_simps split: if_splits sum.splits prod.splits)
  obtain us where us: "list_all2 (inputSpends V tx) (Inputs pay) us" "distinct (inputKeys (Inputs pay))"
      "set (inputKeys (Inputs pay)) \<inter> usedUtxo s = {}" "s1 = s\<lparr>usedUtxo := set (inputKeys (Inputs pay)) \<union> usedUtxo s\<rparr>"
      "iaTotal acc = sum_list (map Amount us)" "list_all2 (\<lambda>k u. iaScripts acc k = Some (utxoPkScript u)) (inputKeys (Inputs pay)) us"
      "\<forall>u\<in>set us. \<exists>a. iaAsset acc = Some a \<and> IsSimilar a (utxoAsset u) \<and> scriptAddr V (utxoPkScript u) \<notin> getBlacklistAddress V"
    using checkInputs_Inr [OF 1(2)] by auto
  have "us \<noteq> []" using us(1) assms(2) by auto
  then obtain a where a: "iaAsset acc = Some a"
    using us(7) by (cases us) auto
  have "m \<noteq> 0 \<Longrightarrow> valueOut (Outputs pay) \<le> valueIn us"
    using outputsVerdict_VALID(4) [OF 1(4) refl] us(5) sum_list_amount_le [of us] by simp
  moreover obtain c' where sc: "ScriptValidate1Msg ((veEngine V)\<lparr>envPickup := pickJuryFn V\<rparr>) (vsSignCache s1) (iaScripts acc) txs (int m) = (Inr (), c')"
      "s2 = s1\<lparr>vsSignCache := c'\<rparr>"
    using checkScripts_VALID [OF 1(3)] by blast
  ultimately have "goodPayment V tx m pay us"
    unfolding goodPayment_def
    using us(1,6,7) a 1(1) outputsVerdict_VALID(1,2) [OF 1(4)] outputsVerdict_VALID(3) [OF 1(4) refl a] by fastforce
  with us(2-4) sc(2) 1(5) show ?thesis by auto
qed

section \<open>The messages of a transaction\<close>

definition sysCall :: "message \<Rightarrow> bool" where
  "sysCall m \<longleftrightarrow> (case Payload m of PayInvokeRequest cid _ _ \<Rightarrow> IsSystemContractId cid | _ \<Rightarrow> False)"

definition msgKeys :: "message \<Rightarrow> string list" where
  "msgKeys m = (case Payload m of PayPayment pay \<Rightarrow> inputKeys (Inputs pay) | _ \<Rightarrow> [])"

lemma validateMsg_other:
  assumes "validateMsg V tx full k m lv s = (Inr (Inr lv1), s1)" and "\<And>pay. Payload m \<noteq> PayPayment pay"
  shows "s1 = s \<and> isOrphanTx lv1 = isOrphanTx lv \<and> (isSysContractCall lv1 \<longrightarrow> isSysContractCall lv \<or> sysCall m)"
  using assms by (cases "Payload m")
    (auto simp: validateMsg_def sm_simps codeStep_def sysCall_def recoverS_def split: if_splits sum.splits)

lemma validateMsg_payment:
  assumes "validateMsg V tx True k m lv s = (Inr (Inr lv1), s1)" and "Payload m = PayPayment pay" and "\<not> isOrphanTx lv1"
  shows "validatePaymentPayload V tx k pay s = (Inr VALID, s1) \<and> lv1 = lv \<and> (k \<noteq> 0 \<and> Inputs pay = [] \<longrightarrow> isSysContractCall lv)"
  using assms by (auto simp: validateMsg_def sm_simps IsCoinbase_def split: if_splits prod.splits sum.splits)

lemma validateMsg_orphan:
  "validateMsg V tx True k m lv s = (Inr (Inr lv1), s1) \<Longrightarrow> isOrphanTx lv \<Longrightarrow> isOrphanTx lv1"
  by (cases "Payload m")
    (auto simp: validateMsg_def sm_simps codeStep_def recoverS_def split: if_splits prod.splits sum.splits)

text \<open>Only an account update ends the loop with the verdict that the whole transaction is valid.\<close>

lemma validateMsg_stops:
  "validateMsg V tx full k m lv s = (Inr (Inl VALID), s1) \<Longrightarrow> App m = APP_ACCOUNT_UPDATE"
  by (cases "Payload m")
    (auto simp: validateMsg_def validateMessageType_def sm_simps codeStep_def recoverS_def split: if_splits prod.splits sum.splits)

lemma empty_payment_keeps:
  "validatePaymentPayload V tx k pay s = (r, s1) \<Longrightarrow> Inputs pay = [] \<Longrightarrow> s1 = s"
  by (simp add: validatePaymentPayload_def sm_simps)

text \<open>The payments of a list of messages: \<open>sys\<close> tells whether a system contract was called before.\<close>

definition paymentsGood :: "validate_env \<Rightarrow> transaction \<Rightarrow> nat \<Rightarrow> bool \<Rightarrow> message list \<Rightarrow> bool" where
  "paymentsGood V tx k sys msgs \<longleftrightarrow>
     (\<forall>i < length msgs. \<forall>pay. Payload (msgs ! i) = PayPayment pay \<longrightarrow>
        (if Inputs pay = [] then k + i = 0 \<or> sys \<or> (\<exists>j<i. sysCall (msgs ! j)) else \<exists>us. goodPayment V tx (k + i) pay us))"

lemma paymentsGood_Cons:
  assumes "paymentsGood V tx (Suc k) sys' msgs" and "sys' \<longrightarrow> sys \<or> sysCall m"
    and "\<And>pay. Payload m = PayPayment pay \<Longrightarrow> if Inputs pay = [] then k = 0 \<or> sys else \<exists>us. goodPayment V tx k pay us"
  shows "paymentsGood V tx k sys (m # msgs)"
  unfolding paymentsGood_def
proof (intro allI impI)
  fix i pay
  assume i: "i < length (m # msgs)" "Payload ((m # msgs) ! i) = PayPayment pay"
  show "if Inputs pay = [] then k + i = 0 \<or> sys \<or> (\<exists>j<i. sysCall ((m # msgs) ! j)) else \<exists>us. goodPayment V tx (k + i) pay us"
  proof (cases i)
    case 0
    with i assms(3) show ?thesis by auto
  next
    case (Suc n)
    with i assms(1) have "if Inputs pay = [] then Suc k + n = 0 \<or> sys' \<or> (\<exists>j<n. sysCall (msgs ! j)) else \<exists>us. goodPayment V tx (Suc k + n) pay us"
      unfolding paymentsGood_def by (metis Suc_less_eq length_Cons nth_Cons_Suc)
    moreover have "\<exists>j<i. sysCall ((m # msgs) ! j)" if "sysCall m \<or> (\<exists>j<n. sysCall (msgs ! j))"
      using that Suc by (metis Suc_less_eq nth_Cons_0 nth_Cons_Suc zero_less_Suc)
    ultimately show ?thesis
      using assms(2) Suc by (auto split: if_splits)
  qed
qed

lemma validateMsgs_orphan: "validateMsgs V tx True k msgs lv s = (Inr VALID, s')
    \<Longrightarrow> \<forall>m\<in>set msgs. App m \<noteq> APP_ACCOUNT_UPDATE \<Longrightarrow> \<not> isOrphanTx lv"
proof (induction msgs arbitrary: k lv s)
  case (Cons m msgs)
  from Cons.prems obtain lv1 s1 where "validateMsg V tx True k m lv s = (Inr (Inr lv1), s1)" "validateMsgs V tx True (Suc k) msgs lv1 s1 = (Inr VALID, s')"
    using validateMsg_stops by (fastforce simp: sm_simps split: prod.splits sum.splits)
  with Cons.IH [of "Suc k" lv1 s1] Cons.prems(2) validateMsg_orphan show ?case by auto
qed (simp add: sm_simps split: if_splits)

lemma validateMsgs_good:
  assumes "validateMsgs V tx True k msgs lv s = (Inr VALID, s')" and "\<forall>m\<in>set msgs. App m \<noteq> APP_ACCOUNT_UPDATE"
  shows "distinct (concat (map msgKeys msgs)) \<and> set (concat (map msgKeys msgs)) \<inter> usedUtxo s = {}
    \<and> paymentsGood V tx k (isSysContractCall lv) msgs"
  using assms
proof (induction msgs arbitrary: k lv s)
  case Nil
  then show ?case by (simp add: paymentsGood_def)
next
  case (Cons m msgs)
  from Cons.prems obtain lv1 s1 where m: "validateMsg V tx True k m lv s = (Inr (Inr lv1), s1)"
      and ms: "validateMsgs V tx True (Suc k) msgs lv1 s1 = (Inr VALID, s')"
    using validateMsg_stops by (fastforce simp: sm_simps split: prod.splits sum.splits)
  have noacc: "\<forall>m\<in>set msgs. App m \<noteq> APP_ACCOUNT_UPDATE" using Cons.prems(2) by simp
  note IH = Cons.IH [OF ms noacc] and orphan = validateMsgs_orphan [OF ms noacc]
  show ?case
  proof (cases "\<exists>pay. Payload m = PayPayment pay")
    case False
    then have "s1 = s" "isSysContractCall lv1 \<longrightarrow> isSysContractCall lv \<or> sysCall m"
      using validateMsg_other [OF m] by auto
    moreover have "msgKeys m = []" using False by (simp add: msgKeys_def split: payload.splits)
    ultimately show ?thesis using IH False by (auto intro: paymentsGood_Cons)
  next
    case True
    then obtain pay where pay: "Payload m = PayPayment pay" by blast
    then have v: "validatePaymentPayload V tx k pay s = (Inr VALID, s1)" "lv1 = lv" "k \<noteq> 0 \<and> Inputs pay = [] \<longrightarrow> isSysContractCall lv"
      using validateMsg_payment [OF m pay orphan] by auto
    have keys: "msgKeys m = inputKeys (Inputs pay)" using pay by (simp add: msgKeys_def)
    have "distinct (msgKeys m) \<and> set (msgKeys m) \<inter> usedUtxo s = {} \<and> usedUtxo s1 = set (msgKeys m) \<union> usedUtxo s
        \<and> (if Inputs pay = [] then k = 0 \<or> isSysContractCall lv else \<exists>us. goodPayment V tx k pay us)"
    proof (cases "Inputs pay = []")
      case True
      with v empty_payment_keeps [OF v(1)] show ?thesis by (auto simp: keys inputKeys_def)
    next
      case False
      with payment_good [OF v(1)] show ?thesis by (simp add: keys)
    qed
    with IH v(2) pay show ?thesis by (auto intro!: paymentsGood_Cons [of V tx k "isSysContractCall lv"])
  qed
qed

section \<open>The fee and the first payment\<close>

lemma feeInputs_back: "feeInputs q acc fa ins = Inr r \<Longrightarrow> \<exists>us. spends q ins us"
proof (induction ins arbitrary: acc fa)
  case Nil
  have "spends q [] []" by (simp add: spends_def)
  then show ?case by blast
next
  case (Cons i ins)
  then obtain pt u where "PreviousOutPoint i = Some pt" "q pt = Inr u" and "\<exists>us. spends q ins us"
    by (auto split: option.splits sum.splits if_splits)
  then show ?case by (auto simp: spends_def intro: exI [of _ "u # _"])
qed

lemma GetTxFee_first:
  assumes "GetTxFee ptn q tx = Inr fee" and "TxMessages tx = m # ms" and "Payload m = PayPayment pay"
  shows "if IsCoinbase pay then aaAmount fee = 0
    else \<exists>us. spends q (Inputs pay) us \<and> (\<Sum>o'\<leftarrow>Outputs pay. Value o') \<le> (\<Sum>u\<leftarrow>us. Amount u)"
proof (cases "IsCoinbase pay")
  case False
  then obtain r where "feeInputs q 0 None (Inputs pay) = Inr r"
    using assms by (auto simp: GetTxFee_def payment_def split: if_splits sum.splits)
  then obtain us where us: "spends q (Inputs pay) us" using feeInputs_back by blast
  with False assms show ?thesis
    by (auto simp: GetTxFee_def payment_def feeInputs_spends [OF us] feeOutputs_sum not_less split: if_splits)
qed (use assms in \<open>auto simp: GetTxFee_def payment_def split: if_splits\<close>)

text \<open>The check of the fee needs the fee to exist.\<close>

lemma fee_exists:
  assumes "validateTxFeeValid V tx = Inr (True, ads)" and "veUtxoQuerySet V"
  obtains fee where "GetTxFee \<lparr>AssetId = PTNCOIN, UniqueId = replicate 16 0\<rparr> (veUtxo V) tx = Inr fee"
  using assms
  by (auto simp: validateTxFeeValid_def GetTxFeeAllocate_def GetTxFeeAllocateLegacyV1_def allocateFee_def bindS_def recoverS_def
      split: sum.splits if_splits)

lemma sum_value_exact: "valueOut outs < 2 ^ 64 \<Longrightarrow> unat (\<Sum>o'\<leftarrow>outs. Value o') = valueOut outs"
  by (induction outs) (simp_all add: valueOut_def unat_word_ariths)

text \<open>No output of the database is filed under the hash that stands for the transaction itself.\<close>

definition noSelfUtxo :: "validate_env \<Rightarrow> bool" where
  "noSelfUtxo V \<longleftrightarrow> (\<forall>pt u. veUtxo V pt = Inr u \<longrightarrow> \<not> IsSelfHash (TxHash pt))"

lemma spends_unique:
  assumes "noSelfUtxo V" and "spends (veUtxo V) ins us" and "list_all2 (inputSpends V tx) ins us'"
  shows "us' = us"
  using assms(2,3) unfolding spends_def
proof (induction ins us arbitrary: us' rule: list_all2_induct)
  case (Cons i ins u us)
  then show ?case
    using assms(1) by (cases us') (auto simp: inputSpends_def spentUtxo_def noSelfUtxo_def recoverS_def)
qed simp

lemma first_payment_covered:
  assumes "GetTxFee ptn (veUtxo V) tx = Inr fee" and "noSelfUtxo V" and "TxMessages tx = m # ms" and "Payload m = PayPayment pay"
    and "Inputs pay \<noteq> []" and good: "goodPayment V tx 0 pay us"
  shows "valueOut (Outputs pay) \<le> valueIn us"
proof -
  have us: "list_all2 (inputSpends V tx) (Inputs pay) us" "valueOut (Outputs pay) < 2 ^ 64"
    using good by (simp_all add: goodPayment_def)
  then have "\<not> list_ex (\<lambda>i. PreviousOutPoint i = None) (Inputs pay)"
    by (fastforce simp: list_ex_iff list_all2_conv_all_nth in_set_conv_nth inputSpends_def)
  with assms(5) have "\<not> IsCoinbase pay" by (simp add: IsCoinbase_def)
  with GetTxFee_first [OF assms(1,3,4)] obtain us' where "spends (veUtxo V) (Inputs pay) us'"
      and le: "(\<Sum>o'\<leftarrow>Outputs pay. Value o') \<le> (\<Sum>u\<leftarrow>us'. Amount u)"
    by auto
  with spends_unique [OF assms(2)] us(1) have "us' = us" by blast
  with le have "unat (\<Sum>o'\<leftarrow>Outputs pay. Value o') \<le> unat (\<Sum>u\<leftarrow>us. Amount u)" by (simp add: word_le_nat_alt)
  with sum_value_exact [OF us(2)] sum_list_amount_le [of us] show ?thesis by simp
qed

section \<open>No fee, no transaction\<close>

definition feesSet :: "chainParameters \<Rightarrow> bool" where
  "feesSet cp \<longleftrightarrow> 0 < TransferPtnBaseFee cp \<and> 0 < ContractTxSizeUnitFee cp \<and> 0 < TransferPtnPricePerKByte cp \<and> 0 < AccountUpdateFee cp
     \<and> 0 < ContractTxInstallFeeLevel cp \<and> 0 < ContractTxDeployFeeLevel cp \<and> 0 < ContractTxInvokeFeeLevel cp \<and> 0 < ContractTxStopFeeLevel cp"

lemma fl_pos: "0 < x \<Longrightarrow> 0 < fl x"
proof -
  assume "0 < x"
  then have "x - fl x \<le> x / 2 ^ 53" using fl_error [of x] by linarith
  moreover have "x / 2 ^ 53 < x" using \<open>0 < x\<close> by simp
  ultimately show ?thesis by linarith
qed

lemma fl_ops:
  "0 \<le> a \<Longrightarrow> 0 \<le> b \<Longrightarrow> 0 \<le> fmul a b" "0 < a \<Longrightarrow> 0 < b \<Longrightarrow> 0 < fmul a b"
  "0 \<le> a \<Longrightarrow> 0 \<le> b \<Longrightarrow> 0 \<le> fadd a b" "0 < a \<Longrightarrow> 0 \<le> b \<Longrightarrow> 0 < fadd a b" "0 \<le> a \<Longrightarrow> 0 < b \<Longrightarrow> 0 < fadd a b"
  "0 < a \<Longrightarrow> 0 < b \<Longrightarrow> 0 < fdiv a b"
  by (simp_all add: fmul_def fadd_def fdiv_def fl_pos fl_nonneg add_pos_nonneg add_nonneg_pos)

lemma floatOf_pos: "0 < n \<Longrightarrow> 0 < floatOfNat n" "0 \<le> floatOfNat n" "0 < w \<Longrightarrow> 0 < floatOfU64 w" "0 \<le> floatOfU64 w"
proof -
  have n: "0 < n \<Longrightarrow> 0 < floatOfNat n" "0 \<le> floatOfNat n" for n
    by (simp_all add: floatOfNat_def fl_pos fl_nonneg)
  show "0 < n \<Longrightarrow> 0 < floatOfNat n" "0 \<le> floatOfNat n" by (fact n)+
  show "0 < w \<Longrightarrow> 0 < floatOfU64 w" "0 \<le> floatOfU64 w"
    unfolding floatOfU64_def using n by (auto simp only: word_less_nat_alt unsigned_0)
qed

definition termsPos :: "feeTerms \<Rightarrow> bool" where
  "termsPos t \<longleftrightarrow> 0 \<le> ftOpFee t \<and> 0 \<le> ftAccountUpdateFee t \<and> 0 \<le> ftAppDataFee t
     \<and> (ftOnlyPayment t \<or> 0 < ftOpFee t \<or> 0 < ftAccountUpdateFee t \<or> 0 < ftAppDataFee t)"

lemma termsPos_update:
  assumes "termsPos t"
  shows "0 < x \<Longrightarrow> termsPos (t\<lparr>ftOnlyPayment := False, ftOpFee := x\<rparr>)"
    and "0 < x \<Longrightarrow> termsPos (t\<lparr>ftOnlyPayment := False, ftTimeout := n, ftOpFee := x\<rparr>)"
    and "0 < x \<Longrightarrow> termsPos (t\<lparr>ftOnlyPayment := False, ftAppDataFee := x\<rparr>)"
    and "0 < x \<Longrightarrow> termsPos (t\<lparr>ftOnlyPayment := False, ftAccountUpdateFee := x\<rparr>)"
  using assms by (simp_all add: termsPos_def)

lemma feeTermsOf_pos:
  assumes "feeTermsOf cp sz msgs t = Inr t'" and "termsPos t" and "feesSet cp" and "0 < sz"
  shows "termsPos t'"
proof -
  have "0 < fmul (floatOfU64 (TransferPtnPricePerKByte cp)) (fdiv sz 1024)" "0 < floatOfU64 (AccountUpdateFee cp)"
    using assms(3,4) by (auto simp: feesSet_def intro!: fl_ops floatOf_pos)
  note pos = this assms(3) [unfolded feesSet_def]
  from assms(1,2) show ?thesis
  proof (induction msgs arbitrary: t)
    case (Cons msg msgs)
    from Cons.prems(1) obtain t1 where "feeTermsOf cp sz msgs t1 = Inr t'" and "termsPos t1"
      by (cases "Payload msg") (simp_all add: termsPos_update [OF Cons.prems(2)] pos Cons.prems(2) split: if_splits)
    then show ?case by (rule Cons.IH)
  qed simp
qed

lemma requiredFee_pos:
  assumes "termsPos t" and "feesSet cp" and "0 < sz"
  shows "0 < requiredFee cp sz 0 t"
proof -
  have u: "0 < floatOfU64 (TransferPtnBaseFee cp)" "0 < floatOfU64 (ContractTxSizeUnitFee cp)"
    using assms(2) by (auto simp: feesSet_def floatOf_pos)
  define sizeFee where "sizeFee = fmul (fmul (ftOpFee t) (floatOfU64 (ContractTxSizeUnitFee cp))) sz"
  define timeFee where "timeFee = fmul (fmul (ftOpFee t) (floatOfU64 (ContractTxTimeoutUnitFee cp))) (fadd (floatOfNat (unat (ftTimeout t))) 0)"
  have t: "0 \<le> ftOpFee t" "0 \<le> ftAccountUpdateFee t" "0 \<le> ftAppDataFee t" using assms(1) by (simp_all add: termsPos_def)
  have s: "0 \<le> sizeFee" "0 \<le> timeFee" "0 < ftOpFee t \<Longrightarrow> 0 < sizeFee"
    using t u(2) assms(3) unfolding sizeFee_def timeFee_def by (simp_all add: fl_ops floatOf_pos)
  have "0 < ftOpFee t \<or> 0 < ftAccountUpdateFee t \<or> 0 < ftAppDataFee t \<Longrightarrow>
      0 < fadd (fadd (fadd sizeFee timeFee) (ftAccountUpdateFee t)) (ftAppDataFee t)"
    using s t fl_ops(3-5) by metis
  with assms(1) u(1) show ?thesis
    by (auto simp: requiredFee_def Let_def sizeFee_def timeFee_def termsPos_def)
qed

lemma fee_enough_pos:
  assumes "ValidateTxFeeEnough V tx 0 0 = Inr True" and "veEnableTxFeeCheck V" and "vePropQuerySet V" and "veUtxoQuerySet V"
    and "feesSet (veParams V)" and "0 < txSize V tx"
  obtains fee where "GetTxFee \<lparr>AssetId = PTNCOIN, UniqueId = replicate 16 0\<rparr> (veUtxo V) tx = Inr fee" and "0 < aaAmount fee"
proof -
  define sz where "sz = fadd (floatOfNat (txSize V tx)) 0"
  have sz: "0 < sz" using assms(6) by (simp add: sz_def fl_ops floatOf_pos)
  obtain fee msgs t where fee: "GetTxFee \<lparr>AssetId = PTNCOIN, UniqueId = replicate 16 0\<rparr> (veUtxo V) tx = Inr fee"
      and t: "feeTermsOf (veParams V) sz msgs \<lparr>ftOnlyPayment = True, ftTimeout = 0, ftOpFee = 0, ftAccountUpdateFee = 0, ftAppDataFee = 0\<rparr> = Inr t"
      and le: "requiredFee (veParams V) sz 0 t \<le> floatOfU64 (aaAmount fee)"
    using assms(1-4) by (auto simp: ValidateTxFeeEnough_def bindS_def recoverS_def Let_def sz_def [symmetric] max_def split: sum.splits if_splits)
  have "0 < requiredFee (veParams V) sz 0 t"
    using feeTermsOf_pos [OF t _ assms(5) sz] assms(5) sz by (intro requiredFee_pos) (simp_all add: termsPos_def)
  with le have "aaAmount fee \<noteq> 0" by (auto simp: floatOfU64_def floatOfNat_def fl_def)
  with fee that show thesis by (simp add: word_neq_0_conv)
qed

section \<open>An example\<close>

text \<open>A transfer that spends five units of the gas token, pays three and leaves two as its fee.\<close>

definition ptn :: asset where
  "ptn = \<lparr>AssetId = PTNCOIN, UniqueId = replicate 16 0\<rparr>"

definition payPoint :: outPoint where
  "payPoint = \<lparr>TxHash = replicate 32 9, MessageIndex = 0, OutIndex = 0\<rparr>"

definition payPay :: paymentPayload where
  "payPay = NewPaymentPayload [\<lparr>SignatureScript = [], Extra = [], PreviousOutPoint = Some payPoint\<rparr>]
     [\<lparr>Value = 3, PkScript = [OP_1], outAsset = ptn\<rparr>]"

definition payTx :: transaction where
  "payTx = newTransaction [\<lparr>App = APP_PAYMENT, Payload = PayPayment payPay\<rparr>]"

definition payRlp :: rlp_lib where
  "payRlp = oneInputRlp\<lparr>encPayload := \<lambda>_. [1], decPayload := \<lambda>_ _. Some (payloadEncode (PayPayment payPay))\<rparr>"

definition payUtxo :: utxo where
  "payUtxo = \<lparr>Amount = 5, utxoAsset = ptn, utxoPkScript = [OP_1], utxoLockTime = 0, Timestamp = 0, Flags = 0\<rparr>"

definition payEnv :: validate_env where
  "payEnv = \<lparr>veEngine = toyEnv\<lparr>envRlp := payRlp\<rparr>, veGasToken = PTNCOIN, veJuryPercent = 1 / 2, veUnitReward = 0,
     veParams = \<lparr>ContractTxTimeoutUnitFee = 1, ContractTxSizeUnitFee = 1, ContractTxInstallFeeLevel = 1, ContractTxDeployFeeLevel = 1,
       ContractTxInvokeFeeLevel = 1, ContractTxStopFeeLevel = 1, TransferPtnPricePerKByte = 1, AccountUpdateFee = 1,
       TransferPtnBaseFee = 1, MaximumMediatorCount = 21\<rparr>,
     veUtxoQuerySet = True, vePropQuerySet = True, veStateQuerySet = True, veDagQuerySet = True, veEnableTxFeeCheck = True,
     veEnableContractSignCheck = True, veEnableDeveloperCheck = True, veEnableContractRwSetCheck = True,
     veUtxo = \<lambda>pt. (if pt = payPoint then Inr payUtxo else Inl (ErrOther ''no utxo'')), veStxo = \<lambda>_. None, veBlacklist = [],
     veContractState = \<lambda>_ _. Inl (ErrOther ''no state''), veStatesByPrefix = \<lambda>_ _. Inr [], veTokenStatus = \<lambda>_. None,
     veContractJury = \<lambda>_. Inl (ErrOther ''no jury''), veJurorPubKey = \<lambda>_. Inl (ErrOther ''no juror''), veContractTpl = \<lambda>_. False,
     veMediators = \<lambda>_. True, veVotes = \<lambda>_. Some [], veRequester = \<lambda>_. Inr (replicate 21 0), veIsDeveloper = \<lambda>_. True,
     veJurorReward = \<lambda>a. a, veContractCheck = \<lambda>_. True, veTxExists = \<lambda>_. False, veVerify = \<lambda>pk sig m. Some (pk = sig),
     veAddrHash = \<lambda>a. a, veCheckDecode = \<lambda>_. None, veRewardsDec = \<lambda>_. None, veRewardsEnc = \<lambda>_. [], veAdditionsEnc = \<lambda>_. [],
     veAdditionsDec = \<lambda>_. None\<rparr>"

lemma payEnv_fields [simp]:
  "veRlp payEnv = payRlp" "veGasToken payEnv = PTNCOIN" "veUtxoQuerySet payEnv" "vePropQuerySet payEnv" "veEnableTxFeeCheck payEnv"
  "veUtxo payEnv payPoint = Inr payUtxo" "TransferPtnBaseFee (veParams payEnv) = 1" "veBlacklist payEnv = []"
  by (simp_all add: payEnv_def)

lemma payPoint_self [simp]: "\<not> IsSelfHash (TxHash payPoint)"
  by (simp add: payPoint_def IsSelfHash_def list_all_iff)

lemma runEngine_one:
  assumes "paymentOf t m = Inr pay" and "i < length (Inputs pay)" and "SignatureScript (Inputs pay ! i) = []"
  shows "fst (runEngine E c [OP_1] t m (int i)) = Inr ()"
proof -
  have pop: "pushPop [1] = op0 OP_1" "parseScript [OP_1] = ([pushPop [1]], None)"
    using parse_op [of OP_1 "[]"] olength_opcodeAt [of OP_1] by (simp_all add: pushPop_def consPop_def)
  let ?pk = "[pushPop [1]]"
  let ?vm = "lockVm c t m (int i) [] ?pk"
  let ?vm1 = "?vm\<lparr>dstack := (dstack ?vm)\<lparr>stk := [[1]]\<rparr>, scriptOff := 1\<rparr>"
  have types: "\<not> isScriptHash ?pk" "\<not> isContractHash ?pk"
    by (simp_all add: isScriptHash_def isContractHash_def)
  have "NewEngine [OP_1] t m (int i) StandardVerifyExcludeSignFlags (Some c) = Inr ?vm"
    using assms types
    by (auto simp: NewEngine_def parseLimited_def standard_flags Let_def lockVm_def pop(2) simp del: parseScript.simps(2))
  then have "fst (runEngine E c [OP_1] t m (int i)) = fst (Execute E ?vm)"
    by (simp add: runEngine_def case_prod_beta)
  moreover have "runOps E (map pushPop [[1]]) ?vm = (Inr (), ?vm1)"
    by (subst runOps_pushes) (simp_all add: lockVm_def pushItem_def)
  moreover have "Execute E ?vm = bindE (runOps E ?pk) (\<lambda>_. finishRun E) ?vm"
    using Execute_runOps [of ?vm E] by (simp add: lockVm_def)
  moreover have "fst (finishRun E ?vm1) = Inr ()"
    using finishRun_last [of ?vm1 "[1]" E] types by (simp add: lockVm_def)
  ultimately show ?thesis by (simp add: bindE_apply del: runOps.simps)
qed

lemma payTx_facts:
  "TxMessagesCopy payTx = Inr (TxMessages payTx)" "TxMessages payTx = [\<lparr>App = APP_PAYMENT, Payload = PayPayment payPay\<rparr>]"
  "paymentOf payTx 0 = Inr payPay" "txClone payRlp payTx = payTx" "\<not> IsContractTx (payTx\<lparr>txHash := h\<rparr>)"
  "GetContractInvokeReqMsgIdx payTx = -1" "\<exists>h. RequestHash payRlp payTx = Inr h" "txHash payTx = None" "\<not> IsContractTx payTx"
  "txSize payEnv payTx = 1"
proof -
  show "TxMessagesCopy payTx = Inr (TxMessages payTx)" and ms: "TxMessages payTx = [\<lparr>App = APP_PAYMENT, Payload = PayPayment payPay\<rparr>]"
    by (simp_all add: payTx_def newTransaction_def TxMessagesCopy_def CopyMessage_def payloadMatches_def knownApp_def)
  then show "\<exists>h. RequestHash payRlp payTx = Inr h" by (simp add: RequestHash_def)
  show "paymentOf payTx 0 = Inr payPay"
    by (simp add: paymentOf_def ms idxE_def payment_def)
  show "\<not> IsContractTx (payTx\<lparr>txHash := h\<rparr>)" "\<not> IsContractTx payTx" by (simp_all add: IsContractTx_def ms)
  show "GetContractInvokeReqMsgIdx payTx = -1" by (simp add: GetContractInvokeReqMsgIdx_def ms)
  show "txHash payTx = None" by (simp add: payTx_def newTransaction_def)
  have "wire_msg \<lparr>App = APP_PAYMENT, Payload = PayPayment payPay\<rparr>"
    by (simp add: wire_msg_def wire_input_def payPay_def NewPaymentPayload_def payPoint_def knownApp_def EmptyHash_def replicate_eq_replicate)
  from payloadDecode_encode [OF this] show "txClone payRlp payTx = payTx"
    by (simp add: knownApp_def txClone_def decodeTx_def encodeTx_def tx2Temp_def temp2Tx_def payTx_def newTransaction_def payRlp_def oneInputRlp_def)
  show "txSize payEnv payTx = 1"
    by (simp add: txSize_def encodeTx_def tx2Temp_def payTx_def newTransaction_def payRlp_def oneInputRlp_def payEnv_def)
qed

lemma payTx_fee: "GetTxFee ptn (veUtxo payEnv) payTx = Inr \<lparr>aaAmount = 2, aaAsset = Some ptn\<rparr>"
  by (simp add: GetTxFee_def payTx_facts payment_def payPay_def NewPaymentPayload_def IsCoinbase_def payUtxo_def)

lemma payEnv_fee: "\<exists>ads. validateTxFeeValid payEnv payTx = Inr (True, ads)"
proof -
  have f: "floatOfU64 2 = 2" "floatOfU64 1 = 1"
    using floatOfNat_exact [of 2] floatOfNat_exact [of 1] by (simp_all add: floatOfU64_def)
  obtain h where h: "RequestHash payRlp payTx = Inr h" using payTx_facts(7) by blast
  have enough: "ValidateTxFeeEnough payEnv payTx 0 0 = Inr True"
    by (simp add: ValidateTxFeeEnough_def payTx_facts recoverS_def requiredFee_def Let_def ptn_def [symmetric] f h payTx_fee)
  have "GetTxFeeAllocate payEnv (replicate AddressLength 0) payTx = Inr [\<lparr>adAddr = replicate AddressLength 0, adAmount = 2, adAsset = ptn\<rparr>]"
    by (simp add: GetTxFeeAllocate_def allocateFee_def ptn_def [symmetric] payTx_facts shareFee_def payTx_fee)
  with enough show ?thesis
    by (simp add: validateTxFeeValid_def recoverS_def assetString_def assetIdString_def h) (simp add: ptn_def)
qed

lemma payTx_accepted: "\<exists>ads c'. validateTx payEnv (NewSigCache 10) payTx True = (Inr (VALID, ads), c')"
proof -
  obtain ads where "validateTxFeeValid payEnv payTx = Inr (True, ads)" using payEnv_fee by blast
  then have pre: "preChecks payEnv payTx True (TxMessages payTx) = Inr (VALID, ads)"
    by (simp add: preChecks_def payTx_facts bindS_def)
  define s0 where "s0 = \<lparr>usedUtxo = {}, vsSignCache = NewSigCache 10\<rparr>"
  let ?acc = "\<lparr>iaAsset = Some ptn, iaTotal = 5, iaStatusValid = False, iaScripts = [outPointString payPoint \<mapsto> [OP_1]]\<rparr>"
  have ins: "checkInputs payEnv payTx 0 (Inputs payPay) \<lparr>iaAsset = None, iaTotal = 0, iaStatusValid = False, iaScripts = Map.empty\<rparr> s0
      = (Inr (Inr ?acc), s0\<lparr>usedUtxo := {outPointString payPoint}\<rparr>)"
    by (simp add: payPay_def NewPaymentPayload_def stepInput_def sm_simps spentUtxo_def recoverS_def getBlacklistAddress_def
        Let_def payUtxo_def IsSimilar_def s0_def payPoint_self)
  define t where "t = snd (HashTx payRlp payTx)"
  have t: "t = payTx\<lparr>txHash := Some (hashOf payRlp payTx)\<rparr>" by (simp add: t_def HashTx_def payTx_facts Let_def)
  have "fst (runEngine (veEngine payEnv\<lparr>envPickup := pickJuryFn payEnv\<rparr>) c [OP_1] t 0 (int 0)) = Inr ()" for c
    by (rule runEngine_one [of _ _ payPay]) (simp_all add: t payTx_facts, simp_all add: payPay_def NewPaymentPayload_def)
  then have run: "\<exists>c'. runEngine (veEngine payEnv\<lparr>envPickup := pickJuryFn payEnv\<rparr>) c [OP_1] t 0 0 = (Inr (), c')" for c
    by (simp add: prod_eq_iff)
  have "\<exists>c'. ScriptValidate1Msg (veEngine payEnv\<lparr>envPickup := pickJuryFn payEnv\<rparr>) c [outPointString payPoint \<mapsto> [OP_1]] payTx 0 = (Inr (), c')" for c
    using run [of c] unfolding ScriptValidate1Msg_def Let_def
    by (auto simp: unlockTx_def t_def [symmetric] t payTx_facts) (simp add: payPay_def NewPaymentPayload_def)
  from this [of "vsSignCache s0"] obtain s1
    where "checkScripts payEnv [outPointString payPoint \<mapsto> [OP_1]] payTx 0 (s0\<lparr>usedUtxo := {outPointString payPoint}\<rparr>) = (Inr VALID, s1)"
    by (auto simp: checkScripts_def recoverS_def)
  moreover have "outputsVerdict payEnv 0 payPay (Some ?acc) = VALID"
    by (simp add: outputsVerdict_def payPay_def NewPaymentPayload_def IsSimilar_def getBlacklistAddress_def)
  moreover have "txForSign payEnv payTx 0 = Inr payTx" by (simp add: txForSign_def payTx_facts)
  ultimately have "validatePaymentPayload payEnv payTx 0 payPay s0 = (Inr VALID, s1)"
    using ins by (simp add: validatePaymentPayload_def sm_simps) (simp add: payPay_def NewPaymentPayload_def)
  then have "validateMsgs payEnv payTx True 0 (TxMessages payTx) loopStart s0 = (Inr VALID, s1)"
    by (simp add: payTx_facts validateMsg_def validateMessageType_def sm_simps loopStart_def)
  moreover obtain h where "RequestHash payRlp payTx = Inr h" using payTx_facts(7) by blast
  ultimately show ?thesis
    using pre by (simp add: validateTx_def payTx_facts(1) s0_def)
qed

section \<open>What an accepted transaction guarantees\<close>

text \<open>The copies of the messages have the payments and the calls of the originals.\<close>

definition sameMsg :: "message \<Rightarrow> message \<Rightarrow> bool" where
  "sameMsg m m' \<longleftrightarrow> App m' = App m \<and> msgKeys m' = msgKeys m \<and> sysCall m' = sysCall m
     \<and> (\<forall>pay. Payload m' = PayPayment pay \<longleftrightarrow> Payload m = PayPayment pay)"

lemma CopyMessage_same: "CopyMessage m = Inr m' \<Longrightarrow> sameMsg m m'"
  by (auto simp: CopyMessage_def sameMsg_def msgKeys_def sysCall_def split: if_splits payload.splits)

lemma copies_same: "mapSum CopyMessage ms = Inr ms' \<Longrightarrow> list_all2 sameMsg ms ms'"
  by (induction ms arbitrary: ms') (auto simp: CopyMessage_same split: sum.splits)

lemma same_keys: "list_all2 sameMsg ms ms' \<Longrightarrow> map msgKeys ms' = map msgKeys ms"
  by (induction rule: list_all2_induct) (auto simp: sameMsg_def)

lemma same_apps: "list_all2 sameMsg ms ms' \<Longrightarrow> map App ms' = map App ms"
  by (induction rule: list_all2_induct) (auto simp: sameMsg_def)

lemma paymentsGood_same:
  assumes "list_all2 sameMsg ms ms'" and "paymentsGood V tx k sys ms'"
  shows "paymentsGood V tx k sys ms"
  using assms unfolding paymentsGood_def sameMsg_def list_all2_conv_all_nth by (smt (verit, best) order.strict_trans)

lemma accepted_parts:
  assumes "validateTx V c tx full = (Inr (VALID, ads), c')"
  obtains msgs s' where "TxMessagesCopy tx = Inr msgs" and "validateTxFeeValid V tx = Inr (True, ads)"
    and "validateMsgs V tx full 0 msgs loopStart \<lparr>usedUtxo = {}, vsSignCache = c\<rparr> = (Inr VALID, s')"
    and "msgs \<noteq> []" and "App (hd msgs) = APP_PAYMENT"
proof -
  obtain msgs where 1: "TxMessagesCopy tx = Inr msgs" "preChecks V tx full msgs = Inr (VALID, ads)"
      and 2: "\<exists>s'. validateMsgs V tx full 0 msgs loopStart \<lparr>usedUtxo = {}, vsSignCache = c\<rparr> = (Inr VALID, s')"
    using assms by (auto simp: validateTx_def bindS_def map_sum_def split: sum.splits prod.splits if_splits)
  from 1(2) have "validateTxFeeValid V tx = Inr (True, ads) \<and> msgs \<noteq> [] \<and> App (hd msgs) = APP_PAYMENT"
    by (auto simp: preChecks_def bindS_def split: list.splits sum.splits if_splits)
  with 1 2 that show thesis by blast
qed

lemma accepted_first_has_inputs:
  assumes "validateTxFeeValid V tx = Inr (True, ads)" and "veEnableTxFeeCheck V" and "vePropQuerySet V" and "veUtxoQuerySet V"
    and "feesSet (veParams V)" and "0 < txSize V tx" and "TxMessages tx = m # ms" and "Payload m = PayPayment pay"
  shows "Inputs pay \<noteq> []"
proof -
  have "ValidateTxFeeEnough V tx 0 0 = Inr True"
    using assms(1,2,4) by (auto simp: validateTxFeeValid_def bindS_def split: sum.splits if_splits)
  then obtain fee where "GetTxFee \<lparr>AssetId = PTNCOIN, UniqueId = replicate 16 0\<rparr> (veUtxo V) tx = Inr fee" "0 < aaAmount fee"
    using assms(2-6) by (rule fee_enough_pos)
  with GetTxFee_first [OF this(1) assms(7,8)] show ?thesis by (auto simp: IsCoinbase_def)
qed

text \<open>
  C1. A transaction that the full validation accepts, and that updates no account, spends no outpoint twice. Every one of
  its payments with inputs spends existing outputs, unlocks each of them by its script, keeps their asset, touches no
  blacklisted address and pays out at most what its inputs hold; a payment with no inputs comes only after a call
  of a system contract, or is the first message, and not even that when fees are checked and positive.
\<close>

theorem accepted_tx_conserves:
  assumes "validateTx V c tx True = (Inr (VALID, ads), c')" and "\<forall>m\<in>set (TxMessages tx). App m \<noteq> APP_ACCOUNT_UPDATE"
    and "veUtxoQuerySet V" and "noSelfUtxo V"
  shows "distinct (concat (map msgKeys (TxMessages tx)))
    \<and> (\<forall>i < length (TxMessages tx). \<forall>pay. Payload (TxMessages tx ! i) = PayPayment pay \<longrightarrow>
        (if Inputs pay = []
         then (\<exists>j<i. sysCall (TxMessages tx ! j))
           \<or> i = 0 \<and> \<not> (veEnableTxFeeCheck V \<and> vePropQuerySet V \<and> feesSet (veParams V) \<and> 0 < txSize V tx)
         else \<exists>us. goodPayment V tx i pay us \<and> valueOut (Outputs pay) \<le> valueIn us))"
proof -
  obtain msgs s' where msgs: "TxMessagesCopy tx = Inr msgs" and fee: "validateTxFeeValid V tx = Inr (True, ads)"
    and run: "validateMsgs V tx True 0 msgs loopStart \<lparr>usedUtxo = {}, vsSignCache = c\<rparr> = (Inr VALID, s')"
    using assms(1) by (rule accepted_parts)
  have same: "list_all2 sameMsg (TxMessages tx) msgs"
    using msgs by (simp add: TxMessagesCopy_def copies_same)
  then have "\<forall>m\<in>set msgs. App m \<noteq> APP_ACCOUNT_UPDATE"
    using assms(2) arg_cong [OF same_apps [OF same], of set] by simp (metis (mono_tags) imageE imageI)
  from validateMsgs_good [OF run this] same_keys [OF same] paymentsGood_same [OF same]
  have keys: "distinct (concat (map msgKeys (TxMessages tx)))" and good: "paymentsGood V tx 0 False (TxMessages tx)"
    by (auto simp: loopStart_def)
  obtain f where f: "GetTxFee \<lparr>AssetId = PTNCOIN, UniqueId = replicate 16 0\<rparr> (veUtxo V) tx = Inr f"
    using fee assms(3) by (rule fee_exists)
  show ?thesis
  proof (intro conjI allI impI keys)
    fix i pay
    assume i: "i < length (TxMessages tx)" "Payload (TxMessages tx ! i) = PayPayment pay"
    then have tx0: "i = 0 \<Longrightarrow> TxMessages tx = TxMessages tx ! 0 # tl (TxMessages tx)"
      by (cases "TxMessages tx") simp_all
    from good i have "if Inputs pay = [] then i = 0 \<or> (\<exists>j<i. sysCall (TxMessages tx ! j)) else \<exists>us. goodPayment V tx i pay us"
      unfolding paymentsGood_def by (metis add_0)
    moreover have "valueOut (Outputs pay) \<le> valueIn us" if "goodPayment V tx i pay us" "Inputs pay \<noteq> []" for us
      using first_payment_covered [OF f assms(4) tx0] i(2) that by (cases "i = 0") (auto simp: goodPayment_def)
    moreover have "Inputs pay \<noteq> []" if "i = 0" "veEnableTxFeeCheck V" "vePropQuerySet V" "feesSet (veParams V)" "0 < txSize V tx"
      using accepted_first_has_inputs [OF fee that(2,3) assms(3) that(4,5) tx0] i(2) that(1) by auto
    ultimately show "if Inputs pay = []
         then (\<exists>j<i. sysCall (TxMessages tx ! j))
           \<or> i = 0 \<and> \<not> (veEnableTxFeeCheck V \<and> vePropQuerySet V \<and> feesSet (veParams V) \<and> 0 < txSize V tx)
         else \<exists>us. goodPayment V tx i pay us \<and> valueOut (Outputs pay) \<le> valueIn us"
      by (auto split: if_splits)
  qed
qed

theorem accepted_tx_conserves_witness:
  "\<exists>us. goodPayment payEnv payTx 0 payPay us \<and> valueOut (Outputs payPay) \<le> valueIn us"
proof -
  obtain ads c' where "validateTx payEnv (NewSigCache 10) payTx True = (Inr (VALID, ads), c')"
    using payTx_accepted by blast
  moreover have "noSelfUtxo payEnv"
    by (simp add: noSelfUtxo_def payEnv_def)
  ultimately show ?thesis
    using accepted_tx_conserves [of payEnv "NewSigCache 10" payTx ads c'] by (simp add: payTx_facts payEnv_def payPay_def NewPaymentPayload_def)
qed

text \<open>
  C11. The fee of a transaction is handed out to the last unit: the shares of the jurors, which the code computes in floating
  point and rounds down, and the rest, which goes to the mediator, add up to the fee, and all are in its asset, as long
  as the jury's part is at most nine tenths.
\<close>

theorem fee_shared_exactly:
  assumes "GetTxFeeAllocate V mediator tx = Inr ads" and "0 \<le> veJuryPercent V" and "veJuryPercent V \<le> 9 / 10" and "length ads < 2 ^ 53"
  shows "\<exists>fee. GetTxFee \<lparr>AssetId = PTNCOIN, UniqueId = replicate 16 0\<rparr> (veUtxo V) tx = Inr fee
    \<and> (\<Sum>a\<leftarrow>ads. unat (adAmount a)) = unat (aaAmount fee)
    \<and> (\<forall>a\<in>set ads. aaAsset fee = Some (adAsset a)) \<and> (ads \<noteq> [] \<longrightarrow> adAddr (last ads) = mediator)"
proof -
  obtain fee where fee: "GetTxFee \<lparr>AssetId = PTNCOIN, UniqueId = replicate 16 0\<rparr> (veUtxo V) tx = Inr fee"
      and "aaAmount fee = 0 \<and> ads = [] \<or> (\<exists>asset jury. aaAsset fee = Some asset
        \<and> ads = shareFee (veJuryPercent V) (aaAmount fee) asset mediator jury)"
    using assms(1)
    by (auto simp: GetTxFeeAllocate_def allocateFee_def bindS_def split: sum.splits if_splits option.splits prod.splits)
  then consider "aaAmount fee = 0" "ads = []"
    | asset jury where "aaAsset fee = Some asset" "ads = shareFee (veJuryPercent V) (aaAmount fee) asset mediator jury"
    by blast
  then show ?thesis
  proof cases
    case (2 asset jury)
    then have "length jury < 2 ^ 53" using assms(4) by (simp add: shareFee_def Let_def)
    with 2 shareFee_exact [OF assms(2,3)] fee show ?thesis by (auto simp: shareFee_def Let_def)
  qed (use fee in simp)
qed

theorem fee_shared_exactly_witness:
  "\<exists>fee. GetTxFee ptn (veUtxo payEnv) payTx = Inr fee \<and> 2 = unat (aaAmount fee)"
proof -
  have "GetTxFeeAllocate payEnv (replicate 21 7) payTx = Inr [\<lparr>adAddr = replicate 21 7, adAmount = 2, adAsset = ptn\<rparr>]"
    by (simp add: GetTxFeeAllocate_def allocateFee_def ptn_def [symmetric] payTx_facts shareFee_def payTx_fee)
  from fee_shared_exactly [OF this] show ?thesis
    by (auto simp: payEnv_def ptn_def)
qed

end
