(* ===== verification/ContractSign.thy ===== *)
theory ContractSign
  imports ValidatorProps
begin

text \<open>
  The signatures under the result of a contract: how many a jury needs, and what the check of
  \<open>validateContractSignature\<close> counts. Also where the loop over the messages of a transaction ends early.
\<close>

section \<open>The threshold\<close>

lemma ceiling_fl_third:
  assumes "n < 2 ^ 51"
  shows "\<lceil>fl (of_nat n / 3)\<rceil> = int ((n + 2) div 3)"
proof (cases "n mod 3 = 0")
  case True
  then obtain q where q: "n = 3 * q" by auto
  then have "fl (of_nat n / 3) = of_nat q" using assms fl_int [of q] by simp
  with q show ?thesis by simp
next
  case False
  define q where "q = n div 3"
  define x where "x = (of_nat n / 3 :: rat)"
  have n: "n = 3 * q + 1 \<or> n = 3 * q + 2" using False by (simp add: q_def) presburger
  then have x: "of_nat q + 1 / 3 \<le> x" "x \<le> of_nat q + 2 / 3" by (auto simp: x_def)
  have "(of_nat n :: rat) < of_nat (2 ^ 51)" using assms by (simp only: of_nat_less_iff)
  then have "x < 2 ^ 51 / 3" by (simp add: x_def)
  then have "x / 2 ^ 53 < 1 / 3" by simp
  moreover have "0 < x" using x(1) by (meson add_nonneg_pos less_le_trans of_nat_0_le_iff zero_less_divide_1_iff zero_less_numeral)
  ultimately have "of_nat q < fl x" "fl x < of_nat q + 1"
    using x fl_error [of x] by linarith+
  then have "\<lceil>fl x\<rceil> = int q + 1" by (intro ceiling_unique) simp_all
  moreover have "(n + 2) div 3 = q + 1" using n by auto
  ultimately show ?thesis by (simp add: x_def)
qed

lemma neededSigns_exact: "n < 2 ^ 50 \<Longrightarrow> neededSigns n = int ((2 * n + 3) div 3)"
proof -
  assume n: "n < 2 ^ 50"
  have "fmul (floatOfNat n) 2 = of_nat (2 * n)"
    using n floatOfNat_exact [of n] fl_int [of "2 * n"] by (simp add: fmul_def mult.commute)
  then have "fadd (fmul (floatOfNat n) 2) 1 = of_nat (2 * n + 1)"
    using n fl_int [of "2 * n + 1"] by (simp add: fadd_def add.commute)
  moreover have "\<lceil>fl (of_nat (2 * n + 1) / 3)\<rceil> = int ((2 * n + 1 + 2) div 3)"
    using n by (intro ceiling_fl_third) simp
  ultimately have "neededSigns n = int ((2 * n + 1 + 2) div 3)"
    by (simp only: neededSigns_def fdiv_def)
  moreover have "2 * n + 1 + 2 = 2 * n + 3" by simp
  ultimately show ?thesis by (simp only:)
qed

section \<open>What is counted\<close>

lemma countPasses_eq:
  "list_all (\<lambda>s. veVerify V (sigPubKey s) (sigSignature s) b \<noteq> None) sigs \<Longrightarrow>
   countPasses V b sigs = Some (length (filter (\<lambda>s. veVerify V (sigPubKey s) (sigSignature s) b = Some True) sigs))"
  by (induction sigs) auto

lemma signature_check:
  assumes "TxMessagesCopy tx = Inr msgs" and "namedJury msgs (None, []) = Inr (named, cid)"
    and "IsUserContractId cid" and "veContractJury V cid = Inr jury" and "GetResultRawTx tx = Inr raw"
    and "list_all (\<lambda>s. veVerify V (sigPubKey s) (sigSignature s) (encodeTx (veRlp V) raw) \<noteq> None) sigs"
  shows "validateContractSignature V sigs tx full =
    Inr (if list_all (isJuror V jury) sigs
           \<and> (full \<longrightarrow> neededSigns (length (EleList jury))
                \<le> int (length (filter (\<lambda>s. veVerify V (sigPubKey s) (sigSignature s) (encodeTx (veRlp V) raw) = Some True) sigs)))
         then VALID else INVALID_CONTRACT_SIGN)"
  using assms(1-5) countPasses_eq [OF assms(6)]
  by (simp add: validateContractSignature_def recoverS_def Let_def not_less)

section \<open>Properties\<close>


definition userContract :: bytes where
  "userContract = replicate 20 1"

text \<open>Three jurors, of which only the first signs, three times.\<close>

definition threeJurors :: electionNode where
  "threeJurors = \<lparr>JuryCount = 3, EleList = map (\<lambda>b. \<lparr>eiType = 0, eiAddrHash = PubkeyBytesToAddress (veHash payEnv) (replicate 33 b),
     eiProof = [], eiPublicKey = replicate 33 b\<rparr>) [1, 2, 3]\<rparr>"

definition oneSignature :: signatureSet where
  "oneSignature = \<lparr>sigPubKey = replicate 33 1, sigSignature = replicate 33 1\<rparr>"

definition contractTx :: transaction where
  "contractTx = newTransaction [\<lparr>App = APP_PAYMENT, Payload = PayPayment payPay\<rparr>,
     \<lparr>App = APP_CONTRACT_INVOKE_REQUEST, Payload = PayInvokeRequest userContract [] 0\<rparr>,
     \<lparr>App = APP_SIGNATURE, Payload = PaySignature (replicate 3 oneSignature)\<rparr>]"




end
