(* ===== verification/Spec2Isabelle.thy ===== *)
theory Spec2Isabelle
  imports TokenProps ContractSign Disasm
begin

text \<open>
  A verification library for the script engine of the token layer.
\<close>

end
